(* ===== verification/Prelude.thy ===== *)
theory Prelude
  imports Complex_Main "HOL-Library.AList" "HOL-Library.Multiset" "HOL-Library.Sublist"
begin

text \<open>
  What the components share and the Go code does not name: the collections of simplification rules,
  Go's built-in maps and the order in which a \<open>range\<close> loop visits their keys, and generic facts on
  lists and folds.

  A Go map is an association list read through \<open>map_of\<close>: a write is \<open>AList.update\<close>, the built-in
  \<open>delete\<close> is \<open>AList.delete\<close>. The position of an entry in the list carries no meaning: Go leaves the
  iteration order of a map open, so every loop over a map takes a value of the type \<open>map_order\<close>, an
  arbitrary rearrangement of the keys, and every theorem holds for all of them.
\<close>

section \<open>Collections of rules\<close>

named_theorems gomap_simps \<open>look-ups after writes to a Go map\<close>
named_theorems frame_simps \<open>what an operation leaves alone\<close>
named_theorems answer_simps \<open>what a backend answers after a write\<close>

section \<open>Go maps\<close>

type_synonym ('k, 'v) gomap = "('k \<times> 'v) list"

abbreviation lookup :: "('k, 'v) gomap \<Rightarrow> 'k \<Rightarrow> 'v option" where
  "lookup \<equiv> map_of"

abbreviation insert_key :: "'k \<Rightarrow> 'v \<Rightarrow> ('k, 'v) gomap \<Rightarrow> ('k, 'v) gomap" where
  "insert_key \<equiv> AList.update"

abbreviation delete_key :: "'k \<Rightarrow> ('k, 'v) gomap \<Rightarrow> ('k, 'v) gomap" where
  "delete_key \<equiv> AList.delete"

definition key_list :: "('k, 'v) gomap \<Rightarrow> 'k list" where
  "key_list m = remdups (map fst m)"

definition map_len :: "('k, 'v) gomap \<Rightarrow> nat" where
  "map_len m = length (key_list m)"

lemma lookup_insert_key [gomap_simps, simp]:
  "lookup (insert_key k v m) = (lookup m)(k \<mapsto> v)"
  by (rule update_conv')

lemma lookup_delete_key [gomap_simps, simp]:
  "lookup (delete_key k m) = (lookup m)(k := None)"
  by (rule delete_conv')

lemma set_key_list [simp]: "set (key_list m) = dom (lookup m)"
  by (simp add: key_list_def dom_map_of_conv_image_fst)

lemma distinct_key_list [simp]: "distinct (key_list m)"
  by (simp add: key_list_def)

lemma map_len_card: "map_len m = card (dom (lookup m))"
  by (metis map_len_def set_key_list distinct_key_list distinct_card)

lemma map_len_0 [simp]: "map_len m = 0 \<longleftrightarrow> lookup m = Map.empty"
  by (simp add: map_len_card finite_dom_map_of)

section \<open>The order of a range loop over a map\<close>

typedef map_order = "{f :: string list \<Rightarrow> string list. \<forall>ks. mset (f ks) = mset ks}"
  by (rule exI [of _ "\<lambda>ks. ks"]) simp

setup_lifting type_definition_map_order

lift_definition arrange :: "map_order \<Rightarrow> string list \<Rightarrow> string list" is "\<lambda>f. f" .

lift_definition listed_order :: map_order is "\<lambda>ks. ks" by simp

lift_definition reversed_order :: map_order is rev by simp

lemma mset_arrange: "mset (arrange ord ks) = mset ks"
  by transfer simp

lemma set_arrange [simp]: "set (arrange ord ks) = set ks"
  by (metis mset_arrange set_mset_mset)

lemma length_arrange [simp]: "length (arrange ord ks) = length ks"
  by (metis mset_arrange size_mset)

lemma distinct_arrange [simp]: "distinct (arrange ord ks) \<longleftrightarrow> distinct ks"
  by (metis mset_arrange mset_eq_imp_distinct_iff)

lemma arrange_single [simp]: "arrange ord [k] = [k]"
  using mset_arrange [of ord "[k]"] by simp

lemma arrange_listed [simp]: "arrange listed_order ks = ks"
  by transfer simp

lemma arrange_reversed [simp]: "arrange reversed_order ks = rev ks"
  by transfer simp

text \<open>The keys, and the values, a \<open>range\<close> loop over a map visits, in the order it visits them.\<close>

definition range_keys :: "map_order \<Rightarrow> (string, 'v) gomap \<Rightarrow> string list" where
  "range_keys ord m = arrange ord (key_list m)"

definition range_values :: "map_order \<Rightarrow> (string, 'v) gomap \<Rightarrow> 'v list" where
  "range_values ord m = List.map_filter (lookup m) (range_keys ord m)"

lemma set_range_keys [simp]: "set (range_keys ord m) = dom (lookup m)"
  by (simp add: range_keys_def)

lemma distinct_range_keys [simp]: "distinct (range_keys ord m)"
  by (simp add: range_keys_def)

lemma length_range_keys [simp]: "length (range_keys ord m) = map_len m"
  by (simp add: range_keys_def map_len_def)

lemma set_map_filter: "set (List.map_filter f xs) = {y. \<exists>x \<in> set xs. f x = Some y}"
  by (induction xs) (auto simp: List.map_filter_simps split: option.splits)

lemma set_range_values [simp]: "set (range_values ord m) = ran (lookup m)"
  by (auto simp: range_values_def set_map_filter ran_def)

text \<open>In a map that files each value under its own key the keys are read off the values.\<close>

definition keyed_by :: "('v \<Rightarrow> 'k) \<Rightarrow> ('k, 'v) gomap \<Rightarrow> bool" where
  "keyed_by f m \<longleftrightarrow> (\<forall>(k, v) \<in> set m. f v = k)"

lemma keyed_by_lookup: "keyed_by f m \<Longrightarrow> lookup m k = Some v \<Longrightarrow> f v = k"
  by (auto simp: keyed_by_def dest!: map_of_SomeD)

lemma keyed_by_Nil [simp]: "keyed_by f []"
  by (simp add: keyed_by_def)

lemma keyed_by_insert [simp]: "keyed_by f m \<Longrightarrow> keyed_by f (insert_key (f v) v m)"
  by (induction m) (auto simp: keyed_by_def)

lemma keyed_by_delete [simp]: "keyed_by f m \<Longrightarrow> keyed_by f (delete_key k m)"
  by (auto simp: keyed_by_def AList.delete_eq)

lemma range_values_keys: "keyed_by f m \<Longrightarrow> map f (range_values ord m) = range_keys ord m"
proof -
  assume keyed: "keyed_by f m"
  have "map f (List.map_filter (lookup m) ks) = ks" if "set ks \<subseteq> dom (lookup m)" for ks
    using that
    by (induction ks) (auto simp: List.map_filter_simps keyed_by_lookup [OF keyed] split: option.splits)
  then show ?thesis by (simp add: range_values_def)
qed

section \<open>The entries of a map in the order of its keys\<close>

definition sorted_map :: "('k::linorder, 'v) gomap \<Rightarrow> ('k, 'v) gomap" where
  "sorted_map m = List.map_filter (\<lambda>k. map_option (Pair k) (lookup m k)) (sort (key_list m))"

lemma map_of_map_filter:
  "distinct ks \<Longrightarrow> map_of (List.map_filter (\<lambda>k. map_option (Pair k) (m k)) ks) j = (if j \<in> set ks then m j else None)"
  by (induction ks) (auto simp: List.map_filter_simps split: option.splits)

lemma lookup_sorted_map [simp]: "lookup (sorted_map m) = lookup m"
proof
  fix j
  show "lookup (sorted_map m) j = lookup m j"
    by (cases "lookup m j") (auto simp: sorted_map_def map_of_map_filter dom_def simp del: map_of_eq_None_iff)
qed

lemma sorted_map_entry: "(k, v) \<in> set (sorted_map m) \<Longrightarrow> lookup m k = Some v"
  by (auto simp: sorted_map_def set_map_filter)

lemma map_fst_map_filter: "map fst (List.map_filter (\<lambda>k. map_option (Pair k) (m k)) ks) = filter (\<lambda>k. m k \<noteq> None) ks"
  by (induction ks) (auto simp: List.map_filter_simps split: option.splits)

lemma distinct_sorted_map: "distinct (map fst (sorted_map m))"
  by (simp add: sorted_map_def map_fst_map_filter)

lemma keys_sorted_map: "map fst (sorted_map m) = sort (key_list m)"
proof -
  have "filter (\<lambda>k. lookup m k \<noteq> None) (sort (key_list m)) = sort (key_list m)"
    by (rule filter_True) (simp add: dom_def del: map_of_eq_None_iff)
  then show ?thesis by (simp add: sorted_map_def map_fst_map_filter)
qed

text \<open>Two lists of entries in the order of distinct keys that are the same map are the same list.\<close>

lemma entries_unique:
  assumes "map fst m = map fst m'" and "distinct (map fst m)" and "lookup m = lookup m'"
  shows "m = m'"
proof (rule nth_equalityI)
  show len: "length m = length m'" using assms(1) by (metis length_map)
  fix i
  assume i: "i < length m"
  have "fst (m ! i) = fst (m' ! i)" using assms(1) i len by (metis nth_map)
  moreover have "lookup m (fst (m ! i)) = Some (snd (m ! i))" using assms(2) i by simp
  moreover have "lookup m' (fst (m' ! i)) = Some (snd (m' ! i))" using assms(1,2) i len by simp
  ultimately show "m ! i = m' ! i" using assms(3) by (metis option.inject prod.collapse)
qed

lemma key_list_distinct: "distinct (map fst m) \<Longrightarrow> key_list m = map fst m"
  by (simp add: key_list_def distinct_remdups_id)

lemma sorted_map_same: "sorted (map fst m) \<Longrightarrow> distinct (map fst m) \<Longrightarrow> sorted_map m = m"
  by (intro entries_unique) (simp_all add: keys_sorted_map distinct_sorted_map key_list_distinct sorted_sort_id)

lemma sorted_sorted_map [simp]: "sorted (map fst (sorted_map m))" "distinct (map fst (sorted_map m))"
  by (simp_all add: keys_sorted_map distinct_sorted_map)

lemma sorted_map_cong: "lookup m = lookup m' \<Longrightarrow> sorted_map m = sorted_map m'"
proof -
  assume eq: "lookup m = lookup m'"
  then have "sort (key_list m) = sort (key_list m')"
    by (metis distinct_key_list distinct_sort set_key_list set_sort sorted_distinct_set_unique sorted_sort)
  with eq show ?thesis by (simp add: sorted_map_def)
qed

lemma sorted_map_twice [simp]: "sorted_map (sorted_map m) = sorted_map m"
  by (rule sorted_map_cong) simp

lemma map_of_filter_keys: "map_of (filter (\<lambda>(k, v). P k) m) k = (if P k then map_of m k else None)"
  by (induction m) auto

lemma filtered_entries:
  assumes "\<And>k. P k \<Longrightarrow> lookup c k = lookup c' k"
  shows "filter (\<lambda>(k, v). P k) (sorted_map c) = filter (\<lambda>(k, v). P k) (sorted_map c')"
proof (rule entries_unique)
  have keys: "map fst (filter (\<lambda>(k, v). P k) (sorted_map m)) = filter P (sort (key_list m))" for m :: "('a :: linorder, 'b) gomap"
    by (simp add: keys_sorted_map [symmetric] filter_map comp_def split_def)
  have "set (filter P (sort (key_list c))) = set (filter P (sort (key_list c')))"
    using assms by (auto simp: dom_def)
  then have "filter P (sort (key_list c)) = filter P (sort (key_list c'))"
    by (intro sorted_distinct_set_unique) (simp_all add: sorted_wrt_filter)
  then show "map fst (filter (\<lambda>(k, v). P k) (sorted_map c)) = map fst (filter (\<lambda>(k, v). P k) (sorted_map c'))"
    unfolding keys .
  show "distinct (map fst (filter (\<lambda>(k, v). P k) (sorted_map c)))"
    by (rule distinct_map_filter) simp
  show "lookup (filter (\<lambda>(k, v). P k) (sorted_map c)) = lookup (filter (\<lambda>(k, v). P k) (sorted_map c'))"
    using assms by (auto simp: map_of_filter_keys fun_eq_iff)
qed

section \<open>Lists and folds\<close>

text \<open>An invariant of a loop over a list.\<close>

lemma fold_invariant:
  assumes "P s" and "\<And>x s. x \<in> set xs \<Longrightarrow> P s \<Longrightarrow> P (f x s)"
  shows "P (fold f xs s)"
  using assms by (induction xs arbitrary: s) auto

lemma distinct_single: "distinct xs \<Longrightarrow> set xs = {x} \<Longrightarrow> xs = [x]"
  by (cases xs; cases "tl xs") auto

lemma filter_removeAll: "filter (\<lambda>x. x \<noteq> a) xs = removeAll a xs"
  by (induction xs) auto

lemma distinct_removeAll_remove1: "distinct xs \<Longrightarrow> removeAll a xs = remove1 a xs"
  by (simp add: distinct_remove1_removeAll)

end
