(* ===== verification/Go_Base.thy ===== *)
theory Go_Base
  imports Prelude "HOL-Library.List_Lexorder" "HOL-Library.Char_ord"
begin

text \<open>
  The parts of the Go language and its standard library the program computes with: 64-bit integers,
  decimal rendering by the \<open>fmt\<close> verbs for integers, UTF-8 decoding as \<open>range\<close> over a string does it,
  \<open>strings.Replace\<close> with a count of one, and error values.
\<close>

section \<open>Integers\<close>

text \<open>
  \<open>int\<close> and \<open>int64\<close> are 64-bit two's complement, \<open>uint\<close> is 64-bit unsigned. They are read as \<open>int\<close>
  and \<open>nat\<close>; the results of the arithmetic operators are wrapped by \<open>w64\<close> and \<open>u64\<close>.
\<close>

type_synonym int64 = int
type_synonym uint = nat

definition w64 :: "int \<Rightarrow> int" where
  "w64 x = signed_take_bit 63 x"

definition u64 :: "nat \<Rightarrow> nat" where
  "u64 x = take_bit 64 x"

definition in_int64 :: "int \<Rightarrow> bool" where
  "in_int64 x \<longleftrightarrow> - (2 ^ 63) \<le> x \<and> x < 2 ^ 63"

lemma w64_id: "in_int64 x \<Longrightarrow> w64 x = x"
  by (simp add: in_int64_def w64_def signed_take_bit_int_eq_self)

lemma w64_add_left [simp]: "w64 (w64 a + b) = w64 (a + b)"
  unfolding w64_def by (metis signed_take_bit_add signed_take_bit_signed_take_bit min.idem)

lemma w64_0 [simp]: "w64 0 = 0"
  by (simp add: w64_def)

lemma in_int64_w64 [simp]: "in_int64 (w64 x)"
  unfolding in_int64_def w64_def
  by (intro conjI signed_take_bit_int_greater_eq_minus_exp signed_take_bit_int_less_exp)

lemma u64_id: "x < 2 ^ 64 \<Longrightarrow> u64 x = x"
  by (simp add: u64_def take_bit_nat_eq_self)

lemma u64_less: "u64 x < 2 ^ 64"
  unfolding u64_def by (rule take_bit_nat_less_exp)

section \<open>Decimal rendering\<close>

fun dec_nat :: "nat \<Rightarrow> string" where
  "dec_nat n = (if n < 10 then [char_of (48 + n)] else dec_nat (n div 10) @ [char_of (48 + n mod 10)])"

declare dec_nat.simps [simp del]

definition dec_int :: "int \<Rightarrow> string" where
  "dec_int i = (if i < 0 then ''-'' @ dec_nat (nat (- i)) else dec_nat (nat i))"

fun undec_nat :: "string \<Rightarrow> nat \<Rightarrow> nat" where
  "undec_nat [] acc = acc"
| "undec_nat (c # cs) acc = undec_nat cs (10 * acc + (of_char c - 48))"

lemma undec_nat_append: "undec_nat (xs @ ys) acc = undec_nat ys (undec_nat xs acc)"
  by (induction xs arbitrary: acc) auto

lemma of_char_digit: "n < 10 \<Longrightarrow> (of_char (char_of (48 + n) :: char) :: nat) = 48 + n"
  by (simp add: take_bit_nat_eq_self of_char_of)

lemma undec_dec_nat: "undec_nat (dec_nat n) 0 = n"
proof (induction n rule: dec_nat.induct)
  case (1 n)
  show ?case
  proof (cases "n < 10")
    case True
    then show ?thesis by (subst dec_nat.simps) (simp add: of_char_digit)
  next
    case False
    with 1 have "undec_nat (dec_nat (n div 10)) 0 = n div 10" by simp
    with False show ?thesis
      by (subst dec_nat.simps) (simp add: undec_nat_append of_char_digit)
  qed
qed

lemma dec_nat_inject [simp]: "dec_nat m = dec_nat n \<longleftrightarrow> m = n"
  by (metis undec_dec_nat)

lemma dec_nat_digits: "c \<in> set (dec_nat n) \<Longrightarrow> 48 \<le> (of_char c :: nat) \<and> (of_char c :: nat) < 58"
proof (induction n rule: dec_nat.induct)
  case (1 n)
  show ?case
  proof (cases "n < 10")
    case True
    with "1.prems" show ?thesis by (subst (asm) dec_nat.simps) (simp add: of_char_digit)
  next
    case False
    with "1.prems" have "c \<in> set (dec_nat (n div 10)) \<or> c = char_of (48 + n mod 10)"
      by (subst (asm) dec_nat.simps) (simp only: if_False set_append Un_iff list.set empty_iff insert_iff simp_thms)
    then show ?thesis using "1.IH" [OF False] of_char_digit [of "n mod 10"] by auto
  qed
qed

lemma no_dash_dec_nat [simp]: "CHR ''-'' \<notin> set (dec_nat n)"
  using dec_nat_digits [of "CHR ''-''" n] by auto

lemma no_slash_dec_nat [simp]: "CHR ''/'' \<notin> set (dec_nat n)"
  using dec_nat_digits [of "CHR ''/''" n] by auto

lemma dec_nat_nonempty [simp]: "dec_nat n \<noteq> []"
  by (subst dec_nat.simps) simp

lemma dec_int_inject [simp]: "dec_int i = dec_int j \<longleftrightarrow> i = j"
proof
  assume eq: "dec_int i = dec_int j"
  have dash: "k < 0 \<longleftrightarrow> CHR ''-'' \<in> set (dec_int k)" for k
    by (simp add: dec_int_def)
  have "i < 0 \<longleftrightarrow> j < 0"
    by (simp only: dash eq)
  with eq show "i = j"
    by (cases "i < 0"; cases "j < 0") (simp_all add: dec_int_def)
qed simp

text \<open>A separator that occurs in neither head pins down the two parts of a concatenation.\<close>

lemma split_at_separator:
  assumes "xs @ c # ys = xs' @ c # ys'" and "c \<notin> set xs" and "c \<notin> set xs'"
  shows "xs = xs' \<and> ys = ys'"
  using assms
proof (induction xs arbitrary: xs')
  case Nil
  then show ?case by (cases xs') auto
next
  case (Cons x xs)
  then show ?case by (cases xs') auto
qed

section \<open>Strings\<close>

text \<open>
  A Go string is a sequence of bytes. A \<open>range\<close> loop decodes it as UTF-8 and yields each rune with
  the byte offset it starts at; an invalid byte yields U+FFFD and has width one. The decoder below
  lists each rune with its width.
\<close>

definition continuation :: "nat \<Rightarrow> bool" where
  "continuation b \<longleftrightarrow> 128 \<le> b \<and> b < 192"

definition second_of_three :: "nat \<Rightarrow> nat \<Rightarrow> bool" where
  "second_of_three b0 b1 \<longleftrightarrow> continuation b1 \<and> (b0 = 224 \<longrightarrow> 160 \<le> b1) \<and> (b0 = 237 \<longrightarrow> b1 < 160)"

definition second_of_four :: "nat \<Rightarrow> nat \<Rightarrow> bool" where
  "second_of_four b0 b1 \<longleftrightarrow> continuation b1 \<and> (b0 = 240 \<longrightarrow> 144 \<le> b1) \<and> (b0 = 244 \<longrightarrow> b1 < 144)"

definition first_rune :: "nat list \<Rightarrow> nat \<times> nat" where
  "first_rune bs = (case bs of [] \<Rightarrow> (65533, 0) | b0 # rest \<Rightarrow>
     if b0 < 128 then (b0, 1)
     else (case rest of b1 # rest1 \<Rightarrow>
         if 194 \<le> b0 \<and> b0 < 224 \<and> continuation b1 then ((b0 - 192) * 64 + (b1 - 128), 2)
         else (case rest1 of b2 # rest2 \<Rightarrow>
             if 224 \<le> b0 \<and> b0 < 240 \<and> second_of_three b0 b1 \<and> continuation b2
             then ((b0 - 224) * 4096 + (b1 - 128) * 64 + (b2 - 128), 3)
             else (case rest2 of b3 # _ \<Rightarrow>
                 if 240 \<le> b0 \<and> b0 < 245 \<and> second_of_four b0 b1 \<and> continuation b2 \<and> continuation b3
                 then ((b0 - 240) * 262144 + (b1 - 128) * 4096 + (b2 - 128) * 64 + (b3 - 128), 4)
                 else (65533, 1)
               | [] \<Rightarrow> (65533, 1))
           | [] \<Rightarrow> (65533, 1))
       | [] \<Rightarrow> (65533, 1)))"

lemma first_rune_width: "bs \<noteq> [] \<Longrightarrow> 0 < snd (first_rune bs)"
  by (auto simp: first_rune_def split: list.splits)

function decode_runes :: "nat list \<Rightarrow> (nat \<times> nat) list" where
  "decode_runes bs =
     (if bs = [] then [] else first_rune bs # decode_runes (drop (snd (first_rune bs)) bs))"
  by pat_completeness auto
termination
  by (relation "measure length") (simp_all add: first_rune_width)

declare decode_runes.simps [simp del]

definition runes :: "string \<Rightarrow> (nat \<times> nat) list" where
  "runes s = decode_runes (map of_char s)"

definition rune_count :: "string \<Rightarrow> nat" where
  "rune_count s = length (runes s)"

definition ascii :: "string \<Rightarrow> bool" where
  "ascii s \<longleftrightarrow> (\<forall>c \<in> set s. (of_char c :: nat) < 128)"

lemma decode_runes_Nil [simp]: "decode_runes [] = []"
  by (simp add: decode_runes.simps)

lemma decode_runes_ascii: "b < 128 \<Longrightarrow> decode_runes (b # bs) = (b, 1) # decode_runes bs"
  by (subst decode_runes.simps) (simp add: first_rune_def)

lemma runes_Nil [simp]: "runes [] = []"
  by (simp add: runes_def)

lemma runes_ascii: "ascii s \<Longrightarrow> runes s = map (\<lambda>c. (of_char c, 1)) s"
  by (induction s) (auto simp: runes_def ascii_def decode_runes_ascii)

lemma rune_count_ascii: "ascii s \<Longrightarrow> rune_count s = length s"
  by (simp add: rune_count_def runes_ascii)

text \<open>\<open>strings.Replace(s, old, new, 1)\<close>.\<close>

fun replace_first :: "string \<Rightarrow> string \<Rightarrow> string \<Rightarrow> string" where
  "replace_first old new [] = (if old = [] then new else [])"
| "replace_first old new (c # cs) =
     (if prefix old (c # cs) then new @ drop (length old) (c # cs)
      else c # replace_first old new cs)"

section \<open>Parsing integers\<close>

text \<open>
  \<open>strconv.ParseInt(s, base, bits)\<close> for a base from 2 to 36: an optional sign, then at least one digit,
  each below the base; \<open>None\<close> is an error, of syntax or of range.
\<close>

definition digit_value :: "char \<Rightarrow> nat option" where
  "digit_value c = (let n = (of_char c :: nat) in
     if 48 \<le> n \<and> n \<le> 57 then Some (n - 48)
     else if 97 \<le> n \<and> n \<le> 122 then Some (n - 97 + 10)
     else if 65 \<le> n \<and> n \<le> 90 then Some (n - 65 + 10) else None)"

fun parse_digits :: "nat \<Rightarrow> string \<Rightarrow> nat \<Rightarrow> nat option" where
  "parse_digits base [] acc = Some acc"
| "parse_digits base (c # cs) acc =
     (case digit_value c of
        Some v \<Rightarrow> if v < base then parse_digits base cs (acc * base + v) else None
      | None \<Rightarrow> None)"

definition parse_magnitude :: "nat \<Rightarrow> string \<Rightarrow> nat option" where
  "parse_magnitude base s = (if s = '''' then None else parse_digits base s 0)"

definition signed_range :: "bool \<Rightarrow> nat \<Rightarrow> nat \<Rightarrow> int option" where
  "signed_range neg bits m =
     (if neg then (if m \<le> 2 ^ (bits - 1) then Some (- int m) else None)
      else (if m < 2 ^ (bits - 1) then Some (int m) else None))"

definition ParseInt :: "string \<Rightarrow> nat \<Rightarrow> nat \<Rightarrow> int option" where
  "ParseInt s base bits =
     (let neg = (s \<noteq> '''' \<and> hd s = CHR ''-''); signed = (s \<noteq> '''' \<and> (hd s = CHR ''-'' \<or> hd s = CHR ''+'')) in
      case parse_magnitude base (if signed then tl s else s) of
        None \<Rightarrow> None
      | Some m \<Rightarrow> signed_range neg bits m)"

lemma digit_value_digit: "n < 10 \<Longrightarrow> digit_value (char_of (48 + n)) = Some n"
  by (simp add: digit_value_def of_char_digit)

lemma signed_range_bounds:
  assumes "signed_range neg bits m = Some i"
  shows "- (2 ^ (bits - 1)) \<le> i \<and> i < 2 ^ (bits - 1)"
proof -
  have le: "m \<le> 2 ^ (bits - 1)" and i: "i = (if neg then - int m else int m)" and lt: "\<not> neg \<longrightarrow> m < 2 ^ (bits - 1)"
    using assms by (auto simp: signed_range_def split: if_splits)
  have "int m \<le> 2 ^ (bits - 1)" using le by (metis of_nat_le_iff of_nat_numeral of_nat_power)
  moreover have "\<not> neg \<longrightarrow> int m < 2 ^ (bits - 1)" using lt by (metis of_nat_less_iff of_nat_numeral of_nat_power)
  moreover have "- int m < 2 ^ (bits - 1)" by (rule order.strict_trans1 [of _ 0]) simp_all
  moreover have "- (2 ^ (bits - 1)) \<le> int m" by (rule order.trans [of _ 0]) simp_all
  ultimately show ?thesis using i by (cases neg) (simp_all del: One_nat_def)
qed

lemma ParseInt_range: "ParseInt s base bits = Some i \<Longrightarrow> - (2 ^ (bits - 1)) \<le> i \<and> i < 2 ^ (bits - 1)"
  using signed_range_bounds by (fastforce simp: ParseInt_def Let_def split: option.splits)

text \<open>Reading the digits of a number back in a base of its own.\<close>

fun base_value :: "nat \<Rightarrow> nat list \<Rightarrow> nat \<Rightarrow> nat" where
  "base_value base [] acc = acc"
| "base_value base (v # vs) acc = base_value base vs (acc * base + v)"

definition digits_text :: "nat list \<Rightarrow> string" where
  "digits_text vs = map (\<lambda>v. char_of (48 + v)) vs"

lemma parse_digits_text:
  "base \<le> 10 \<Longrightarrow> \<forall>v \<in> set vs. v < base \<Longrightarrow> parse_digits base (digits_text vs) acc = Some (base_value base vs acc)"
proof (induction vs arbitrary: acc)
  case (Cons v vs)
  then show ?case by (simp add: digits_text_def digit_value_digit)
qed (simp add: digits_text_def)

lemma parse_digits_bad: "\<exists>v \<in> set vs. base \<le> v \<Longrightarrow> \<forall>v \<in> set vs. v < 10 \<Longrightarrow> parse_digits base (digits_text vs) acc = None"
proof (induction vs arbitrary: acc)
  case (Cons v vs)
  then show ?case by (auto simp: digits_text_def digit_value_digit)
qed simp

lemma ParseInt_digits:
  assumes "\<forall>v \<in> set vs. v < 10" and "vs \<noteq> []"
  shows "ParseInt (digits_text vs) base bits =
    (case parse_digits base (digits_text vs) 0 of None \<Rightarrow> None
     | Some m \<Rightarrow> signed_range False bits m)"
proof -
  obtain v vs' where vs: "vs = v # vs'" using assms(2) by (cases vs) auto
  then have "(of_char (hd (digits_text vs)) :: nat) = 48 + v" using assms(1) by (simp add: digits_text_def of_char_digit)
  then have "hd (digits_text vs) \<noteq> CHR ''-''" "hd (digits_text vs) \<noteq> CHR ''+''" by auto
  moreover have "digits_text vs \<noteq> []" using vs by (simp add: digits_text_def)
  ultimately show ?thesis by (simp add: ParseInt_def parse_magnitude_def Let_def)
qed

section \<open>JSON\<close>

text \<open>
  A JSON document, as \<open>encoding/json\<close> reads and writes it; \<open>JNum\<close> is a number written as an integer,
  \<open>JReal\<close> one with a fraction. The textual syntax is left out.
\<close>

datatype json = JNull | JBool bool | JNum int | JReal real | JStr string | JArr "json list"
  | JObj "(string \<times> json) list"

section \<open>Errors\<close>

text \<open>
  The sentinel errors of api/generic_api.go and agent/agent.go are compared by identity; every other
  error is known by its text only.
\<close>

datatype go_error = ErrNotFound | ErrTxFailed | NoExecutorErr | ErrValidationFailure | OtherError string

definition error_text :: "go_error \<Rightarrow> string" where
  "error_text e = (case e of
     ErrNotFound \<Rightarrow> ''could not find the requested resource''
   | ErrTxFailed \<Rightarrow> ''consul transaction has failed''
   | NoExecutorErr \<Rightarrow> ''start task failed''
   | ErrValidationFailure \<Rightarrow> ''Validation Failed''
   | OtherError msg \<Rightarrow> msg)"

text \<open>
  The two results of a Go function that returns a pointer and an error: the pointer when the error is
  nil; otherwise the error with what the function returned beside it, \<open>None\<close> for a nil pointer. A
  call that waits for a lock its own goroutine holds, or that panics, does not come back.
\<close>

datatype stop = Blocked | Panicked

datatype 'a reply = Ok 'a | Fail go_error "'a option" | Stops stop

text \<open>How a procedure ends: it returns, it panics, or it never returns.\<close>

datatype 'a outcome = Returns 'a | Panics | Hangs

definition stopped :: "stop \<Rightarrow> 'a outcome" where
  "stopped how = (case how of Blocked \<Rightarrow> Hangs | Panicked \<Rightarrow> Panics)"

lemma stopped_not_Returns [simp]: "stopped how \<noteq> Returns x" "Returns x \<noteq> stopped how"
  by (simp_all add: stopped_def split: stop.split)

fun bind_outcome :: "'a outcome \<Rightarrow> ('a \<Rightarrow> 'b outcome) \<Rightarrow> 'b outcome" where
  "bind_outcome (Returns x) f = f x"
| "bind_outcome Panics f = Panics"
| "bind_outcome Hangs f = Hangs"

fun_cases bind_outcome_ReturnsE: "bind_outcome r f = Returns y"

lemma bind_outcome_Returns_iff:
  "bind_outcome r f = Returns y \<longleftrightarrow> (\<exists>x. r = Returns x \<and> f x = Returns y)"
  by (cases r) auto

end
