(* ===== verification/Api_Types.thy ===== *)
theory Api_Types
  imports Go_Base
begin

text \<open>
  The data of package api (src/api): clusters, deployments, services, hosts, task definitions with
  their containers, checks and port mappings, tasks and task states, with the methods that compute
  on them alone. The validations, which ask the backend, are in \<open>Scheduler_Api\<close>. A field keeps its
  Go name behind a prefix for its struct. Pointers to structs are the structs themselves: the code
  never compares such pointers, and a struct read from the Consul backend is a fresh copy.
\<close>

section \<open>Durations (src/tools/duration.go)\<close>

type_synonym duration = int64

definition second :: duration where
  "second = 1000000000"

definition IsNone :: "duration \<Rightarrow> bool" where
  "IsNone d \<longleftrightarrow> d = 0"

section \<open>Task states (src/api/state.go)\<close>

text \<open>\<open>TaskState\<close> is an open string type: the backend converts any stored bytes into one.\<close>

type_synonym task_state = string

definition PENDING :: task_state where "PENDING = ''''"
definition STARTING :: task_state where "STARTING = ''starting''"
definition STARTED :: task_state where "STARTED = ''started''"
definition RUNNING :: task_state where "RUNNING = ''running''"
definition WARNING :: task_state where "WARNING = ''warning''"
definition FAILING :: task_state where "FAILING = ''failing''"
definition STOPPING :: task_state where "STOPPING = ''stopping''"
definition STOPPED :: task_state where "STOPPED = ''stopped''"
definition EXITED :: task_state where "EXITED = ''exited''"

lemmas task_state_defs = PENDING_def STARTING_def STARTED_def RUNNING_def WARNING_def FAILING_def
  STOPPING_def STOPPED_def EXITED_def

definition Healthy :: "task_state \<Rightarrow> bool" where
  "Healthy t \<longleftrightarrow> t = RUNNING \<or> t = STARTED"

section \<open>Clusters, deployments, services and hosts\<close>

record cluster =
  cl_Name :: string
  cl_Deployments :: "string list"
  cl_Hosts :: "string list"

definition cluster_Key :: "cluster \<Rightarrow> string" where
  "cluster_Key c = ''config/cluster/'' @ cl_Name c"

record deployment =
  dp_Name :: string
  dp_Scheduler :: string
  dp_TaskName :: string
  dp_TaskVersion :: uint
  dp_Desired :: int
  dp_Min :: int
  dp_Max :: int
  dp_MaxAttempts :: int

definition deployment_Key :: "deployment \<Rightarrow> string" where
  "deployment_Key s = ''config/service/'' @ dp_Name s"

record service =
  sv_Name :: string
  sv_Cluster :: string
  sv_Deployment :: string
  sv_Container :: string
  sv_PortName :: string
  sv_Protocol :: string

record endpoint =
  ep_Service :: string
  ep_Host :: string
  ep_Port :: uint
  ep_Protocol :: string

text \<open>
  \<open>Address\<close> gives the port, an unsigned integer, to the verb \<open>%s\<close>; \<open>fmt\<close> renders the mismatch as
  \<open>%!s(uint=...)\<close>.
\<close>

definition Address :: "endpoint \<Rightarrow> string" where
  "Address e = ep_Protocol e @ ''://'' @ ep_Host e @ '':'' @ ''%!s(uint='' @ dec_nat (ep_Port e) @ '')''"

record resources =
  rs_Memory :: int64
  rs_CpuUnits :: int64
  rs_DiskSpace :: int64
  rs_MemUsePercent :: real

record host =
  ho_Name :: string
  ho_Address :: string
  ho_Draining :: bool
  ho_ReservedPorts :: "uint list"
  ho_HealthCheck :: string
  ho_ObservedResources :: resources
  ho_CalculatedResources :: resources
  ho_BaseResources :: resources
  ho_Cluster :: string
  ho_Tags :: "(string, string) gomap"

section \<open>Task definitions (src/api/task_definition.go)\<close>

record port_mapping =
  pm_Name :: string
  pm_Container :: uint
  pm_Host :: uint

record check =
  ch_ID :: string
  ch_Name :: string
  ch_HTTP :: string
  ch_TCP :: string
  ch_Script :: string
  ch_Interval :: duration
  ch_Timeout :: duration
  ch_Docker :: string

text \<open>
  The unexported fields \<open>bash\<close> and \<open>docker\<close> of a container cache the executor decoded from
  \<open>Executor\<close>; decoding the same document again gives the same executor, so the cache is left out.
\<close>

record container =
  ct_Name :: string
  ct_Type :: string
  ct_Executor :: "json option"
  ct_Setup :: "string list"
  ct_Teardown :: "string list"
  ct_Checks :: "check list"
  ct_Ports :: "port_mapping list"
  ct_Memory :: int64
  ct_CpuUnits :: int64
  ct_DiskUse :: int64
  ct_Essential :: bool

record task_definition =
  td_Name :: string
  td_Version :: uint
  td_Tags :: "string list"
  td_Containers :: "container list"
  td_GracePeriod :: duration

definition AllPorts :: "task_definition \<Rightarrow> uint list" where
  "AllPorts t = concat (map (\<lambda>c. filter (\<lambda>p. p \<noteq> 0) (map pm_Host (ct_Ports c))) (td_Containers t))"

record counts =
  cn_Memory :: int64
  cn_CpuUnits :: int64
  cn_DiskUse :: int64

definition add_container :: "container \<Rightarrow> counts \<Rightarrow> counts" where
  "add_container c n = n\<lparr>
     cn_DiskUse := w64 (cn_DiskUse n + ct_DiskUse c),
     cn_CpuUnits := w64 (cn_CpuUnits n + ct_CpuUnits c),
     cn_Memory := w64 (cn_Memory n + ct_Memory c)\<rparr>"

definition Counts :: "task_definition \<Rightarrow> counts" where
  "Counts t = fold add_container (td_Containers t)
     \<lparr>cn_Memory = 0, cn_CpuUnits = 0, cn_DiskUse = 0\<rparr>"

definition task_definition_Key :: "task_definition \<Rightarrow> string" where
  "task_definition_Key t = ''config/task/'' @ td_Name t"

section \<open>Tasks (src/api/task.go)\<close>

record task =
  tk_Cluster :: string
  tk_TaskDefinition :: task_definition
  tk_Deployment :: string
  tk_Instance :: int
  tk_Host :: string
  tk_Scheduled :: bool
  tk_Rejected :: bool
  tk_RejectReason :: string
  tk_ProvidedPorts :: "(string, uint) gomap"

definition NewTask :: "cluster \<Rightarrow> task_definition \<Rightarrow> deployment \<Rightarrow> int \<Rightarrow> task" where
  "NewTask cl td dp i = \<lparr>
     tk_Cluster = cl_Name cl, tk_TaskDefinition = td, tk_Deployment = dp_Name dp, tk_Instance = i,
     tk_Host = '''', tk_Scheduled = False, tk_Rejected = False, tk_RejectReason = '''',
     tk_ProvidedPorts = []\<rparr>"

definition HasChecks :: "task \<Rightarrow> bool" where
  "HasChecks t \<longleftrightarrow> (\<exists>c \<in> set (td_Containers (tk_TaskDefinition t)). ct_Checks c \<noteq> [])"

definition MakeTaskId :: "cluster \<Rightarrow> deployment \<Rightarrow> int \<Rightarrow> string" where
  "MakeTaskId c s i = cl_Name c @ ''-'' @ dp_Name s @ ''-'' @ dec_nat (dp_TaskVersion s) @ ''-'' @ dec_int i"

definition task_Name :: "task \<Rightarrow> string" where
  "task_Name t = tk_Cluster t @ ''-'' @ tk_Deployment t"

definition task_ID :: "task \<Rightarrow> string" where
  "task_ID t = task_Name t @ ''-'' @ dec_nat (td_Version (tk_TaskDefinition t)) @ ''-'' @ dec_int (tk_Instance t)"

section \<open>Ports of a task\<close>

text \<open>Reading a missing key of a Go map gives the zero value of its type.\<close>

definition provided_port :: "task \<Rightarrow> string \<Rightarrow> uint" where
  "provided_port t name = (case lookup (tk_ProvidedPorts t) name of None \<Rightarrow> 0 | Some p \<Rightarrow> p)"

definition PortsForTask :: "container \<Rightarrow> task \<Rightarrow> port_mapping list" where
  "PortsForTask c t = map (\<lambda>p. \<lparr>
     pm_Name = pm_Name p,
     pm_Container = pm_Container p,
     pm_Host = (if pm_Host p = 0 then provided_port t (pm_Name p) else pm_Host p)\<rparr>) (ct_Ports c)"

definition HostPortByName :: "container \<Rightarrow> string \<Rightarrow> task \<Rightarrow> uint" where
  "HostPortByName c name t =
     (case find (\<lambda>p. pm_Name p = name) (PortsForTask c t) of None \<Rightarrow> 0 | Some p \<Rightarrow> pm_Host p)"

definition substitute_port :: "port_mapping \<Rightarrow> string \<Rightarrow> string" where
  "substitute_port p u = replace_first (''$'' @ pm_Name p) (dec_nat (pm_Host p)) u"

definition HTTPWithPort :: "check \<Rightarrow> task \<Rightarrow> container \<Rightarrow> string" where
  "HTTPWithPort ch t c = fold substitute_port (PortsForTask c t) (ch_HTTP ch)"

definition TCPWithPort :: "check \<Rightarrow> task \<Rightarrow> container \<Rightarrow> string" where
  "TCPWithPort ch t c = fold substitute_port (PortsForTask c t) (ch_TCP ch)"

section \<open>Lemmas: resource counts and ports\<close>

lemma fold_add_container:
  "cn_Memory n = w64 m \<Longrightarrow>
     cn_Memory (fold add_container cs n) = w64 (m + (\<Sum>c\<leftarrow>cs. ct_Memory c))"
  "cn_CpuUnits n = w64 u \<Longrightarrow>
     cn_CpuUnits (fold add_container cs n) = w64 (u + (\<Sum>c\<leftarrow>cs. ct_CpuUnits c))"
  "cn_DiskUse n = w64 d \<Longrightarrow>
     cn_DiskUse (fold add_container cs n) = w64 (d + (\<Sum>c\<leftarrow>cs. ct_DiskUse c))"
  by (induction cs arbitrary: n m u d) (simp_all add: add_container_def add.assoc [symmetric])

text \<open>
  The counts are the sums over the containers, wrapped once: the intermediate wrap-arounds of the
  loop do not show.
\<close>

lemma Counts_sums:
  "Counts t = \<lparr>
     cn_Memory = w64 (\<Sum>c\<leftarrow>td_Containers t. ct_Memory c),
     cn_CpuUnits = w64 (\<Sum>c\<leftarrow>td_Containers t. ct_CpuUnits c),
     cn_DiskUse = w64 (\<Sum>c\<leftarrow>td_Containers t. ct_DiskUse c)\<rparr>"
  by (simp add: Counts_def counts.equality fold_add_container [of _ 0, simplified])

lemma AllPorts_iff:
  "p \<in> set (AllPorts t) \<longleftrightarrow>
     p \<noteq> 0 \<and> (\<exists>c \<in> set (td_Containers t). \<exists>m \<in> set (ct_Ports c). pm_Host m = p)"
  by (auto simp: AllPorts_def)

lemma zero_notin_AllPorts [simp]: "0 \<notin> set (AllPorts t)"
  by (simp add: AllPorts_iff)

lemma PortsForTask_names [simp]: "map pm_Name (PortsForTask c t) = map pm_Name (ct_Ports c)"
  by (simp add: PortsForTask_def)

lemma HostPortByName_unknown:
  assumes "name \<notin> pm_Name ` set (ct_Ports c)"
  shows "HostPortByName c name t = 0"
proof -
  have "find (\<lambda>p. pm_Name p = name) (PortsForTask c t) = None"
    using assms by (auto simp: find_None_iff PortsForTask_def)
  then show ?thesis by (simp add: HostPortByName_def)
qed

section \<open>Lemmas: task identifiers\<close>

lemma task_Name_NewTask [simp]: "task_Name (NewTask cl td dp i) = cl_Name cl @ ''-'' @ dp_Name dp"
  by (simp add: task_Name_def NewTask_def)

lemma task_ID_NewTask:
  "task_ID (NewTask cl td dp i) =
     cl_Name cl @ ''-'' @ dp_Name dp @ ''-'' @ dec_nat (td_Version td) @ ''-'' @ dec_int i"
  by (simp add: task_ID_def task_Name_def NewTask_def)

text \<open>Version and instance are read back off an identifier once the name before them is known.\<close>

lemma version_instance_inject:
  "dec_nat v @ ''-'' @ dec_int i = dec_nat v' @ ''-'' @ dec_int i' \<longleftrightarrow> v = v' \<and> i = i'"
  using split_at_separator [of "dec_nat v" "CHR ''-''" "dec_int i" "dec_nat v'" "dec_int i'"] by auto

lemma task_ID_inject:
  "task_Name t = task_Name t' \<Longrightarrow>
   task_ID t = task_ID t' \<longleftrightarrow>
     td_Version (tk_TaskDefinition t) = td_Version (tk_TaskDefinition t') \<and> tk_Instance t = tk_Instance t'"
  using version_instance_inject by (simp add: task_ID_def)

lemma MakeTaskId_inject [simp]: "MakeTaskId c d i = MakeTaskId c d j \<longleftrightarrow> i = j"
  by (simp add: MakeTaskId_def)

lemma MakeTaskId_NewTask:
  "MakeTaskId cl dp i = task_ID (NewTask cl td dp j) \<longleftrightarrow> dp_TaskVersion dp = td_Version td \<and> i = j"
  using version_instance_inject by (simp add: task_ID_NewTask MakeTaskId_def)

lemma MakeTaskId_task_ID:
  "tk_Cluster t = cl_Name cl \<Longrightarrow> tk_Deployment t = dp_Name dp \<Longrightarrow>
   task_ID t = MakeTaskId cl dp i \<longleftrightarrow>
     td_Version (tk_TaskDefinition t) = dp_TaskVersion dp \<and> tk_Instance t = i"
  using version_instance_inject by (simp add: task_ID_def task_Name_def MakeTaskId_def)

text \<open>Fields of a task that do not enter its identifier.\<close>

lemma task_ID_updates [frame_simps, simp]:
  "task_ID (t\<lparr>tk_Scheduled := b\<rparr>) = task_ID t"
  "task_ID (t\<lparr>tk_Rejected := b\<rparr>) = task_ID t"
  "task_ID (t\<lparr>tk_RejectReason := r\<rparr>) = task_ID t"
  "task_ID (t\<lparr>tk_Host := h\<rparr>) = task_ID t"
  "task_ID (t\<lparr>tk_ProvidedPorts := ps\<rparr>) = task_ID t"
  by (simp_all add: task_ID_def task_Name_def)

end
