(* ===== verification/Scheduler_Api.thy ===== *)
theory Scheduler_Api
  imports Api_Types
begin

text \<open>
  The interface \<open>SchedulerApi\<close> of src/api/generic_api.go, which every process of the system goes
  through, as a record of operations over a backend state \<open>'b\<close>: a query reads the state, a command
  returns the new state and an error. The two implementations are \<open>Mock_Api\<close> and the Consul backend.
  Beside the record stand the query options, the validations of package api, which call the
  interface, and the locales that say what an implementation promises its clients.
\<close>

section \<open>The operations (src/api/generic_api.go)\<close>

record task_query =
  tq_ByCluster :: string
  tq_ByDeployment :: string
  tq_ByHost :: string
  tq_Running :: bool
  tq_Scheduled :: bool
  tq_Failing :: bool
  tq_Rejected :: bool

definition any_task :: task_query where
  "any_task = \<lparr>tq_ByCluster = '''', tq_ByDeployment = '''', tq_ByHost = '''', tq_Running = False,
     tq_Scheduled = False, tq_Failing = False, tq_Rejected = False\<rparr>"

type_synonym 'b command = "'b \<Rightarrow> 'b \<times> go_error option"

record 'b scheduler_api =
  HostName :: "'b \<Rightarrow> string reply"
  ListClusters :: "'b \<Rightarrow> cluster list reply"
  GetCluster :: "string \<Rightarrow> 'b \<Rightarrow> cluster reply"
  PutCluster :: "cluster \<Rightarrow> 'b command"
  DelCluster :: "string \<Rightarrow> 'b command"
  ListDeployments :: "'b \<Rightarrow> deployment list reply"
  GetDeployment :: "string \<Rightarrow> 'b \<Rightarrow> deployment reply"
  PutDeployment :: "deployment \<Rightarrow> 'b command"
  DelDeployment :: "string \<Rightarrow> 'b command"
  ListTaskDefinitions :: "'b \<Rightarrow> task_definition list reply"
  GetTaskDefinition :: "string \<Rightarrow> uint \<Rightarrow> 'b \<Rightarrow> task_definition reply"
  PutTaskDefinition :: "task_definition \<Rightarrow> 'b command"
  ListServices :: "'b \<Rightarrow> service list reply"
  PutService :: "service \<Rightarrow> 'b command"
  GetService :: "string \<Rightarrow> 'b \<Rightarrow> service reply"
  DelService :: "string \<Rightarrow> 'b command"
  ListHosts :: "string \<Rightarrow> 'b \<Rightarrow> host list reply"
  GetHost :: "string \<Rightarrow> string \<Rightarrow> 'b \<Rightarrow> host reply"
  PutHost :: "host \<Rightarrow> 'b command"
  DelHost :: "string \<Rightarrow> string \<Rightarrow> 'b command"
  ListTasks :: "task_query \<Rightarrow> 'b \<Rightarrow> task list reply"
  PutTask :: "task \<Rightarrow> 'b command"
  DelTask :: "task \<Rightarrow> 'b command"
  GetTaskState :: "task \<Rightarrow> 'b \<Rightarrow> task_state reply"
  PutTaskState :: "string \<Rightarrow> task_state \<Rightarrow> 'b command"

text \<open>
  The cluster-wide locks: \<open>Lock\<close> of the interface makes a lock object of type \<open>'l\<close>, the others are
  the methods \<open>Lock\<close>, \<open>IsHeld\<close> and \<open>Unlock\<close> of the interface \<open>Lockable\<close>.
\<close>

record ('b, 'l) lock_api =
  NewLock :: "string \<Rightarrow> bool \<Rightarrow> 'b \<Rightarrow> 'l reply"
  LockIt :: "'l \<Rightarrow> 'b \<Rightarrow> ('l \<times> 'b) \<times> go_error option"
  IsHeld :: "'l \<Rightarrow> 'b \<Rightarrow> bool"
  UnlockIt :: "'l \<Rightarrow> 'b \<Rightarrow> ('l \<times> 'b) \<times> go_error option"

text \<open>
  What the options of a task query select. \<open>st\<close> is the state of the task, which only the options
  \<open>Failing\<close> and \<open>Running\<close> look at; with both set, the code tests \<open>Failing\<close> first.
\<close>

definition selects :: "task_query \<Rightarrow> task_state \<Rightarrow> task \<Rightarrow> bool" where
  "selects q st t \<longleftrightarrow>
     (tq_Failing q \<longrightarrow> \<not> Healthy st) \<and>
     (tq_Running q \<longrightarrow> Healthy st) \<and>
     (tq_Scheduled q \<longrightarrow> tk_Scheduled t) \<and>
     (tq_Rejected q \<longrightarrow> tk_Rejected t) \<and>
     (tq_ByHost q \<noteq> '''' \<longrightarrow> tk_Host t = tq_ByHost q) \<and>
     (tq_ByCluster q \<noteq> '''' \<longrightarrow> tq_ByCluster q = tk_Cluster t) \<and>
     (tq_ByDeployment q \<noteq> '''' \<longrightarrow> tq_ByDeployment q = tk_Deployment t)"

section \<open>Validations\<close>

definition found :: "'a reply \<Rightarrow> bool" where
  "found r \<longleftrightarrow> (case r of Ok _ \<Rightarrow> True | _ \<Rightarrow> False)"

definition reply_error :: "'a reply \<Rightarrow> go_error option" where
  "reply_error r = (case r of Fail e _ \<Rightarrow> Some e | _ \<Rightarrow> None)"

definition cluster_Validate :: "cluster \<Rightarrow> string list" where
  "cluster_Validate c = (if cl_Name c = '''' then [''cluster name is blank''] else [])"

definition deployment_Validate :: "'b scheduler_api \<Rightarrow> 'b \<Rightarrow> deployment \<Rightarrow> string list" where
  "deployment_Validate api b s =
     (if \<not> found (GetTaskDefinition api (dp_TaskName s) (dp_TaskVersion s) b)
      then [''task ('' @ dp_TaskName s @ '') does not exist''] else []) @
     (if dp_Name s = '''' then [''service name is blank''] else []) @
     (if dp_Min s > dp_Max s then [''min is greater than max''] else []) @
     (if dp_Min s > dp_Desired s then [''min is greater than desired''] else []) @
     (if dp_Max s < dp_Desired s then [''max is less than desired''] else [])"

definition service_Validate :: "'b scheduler_api \<Rightarrow> 'b \<Rightarrow> service \<Rightarrow> service \<times> string list" where
  "service_Validate api b s =
     (let s' = (if sv_Name s = ''''
                then s\<lparr>sv_Name := sv_Cluster s @ ''-'' @ sv_Deployment s @ ''-'' @ sv_Container s\<rparr>
                else s) in
      (s',
       (case reply_error (GetCluster api (sv_Cluster s') b) of
          Some e \<Rightarrow> [''cluster: '' @ error_text e] | None \<Rightarrow> []) @
       (case reply_error (GetDeployment api (sv_Deployment s') b) of
          Some e \<Rightarrow> [''deployment: '' @ error_text e] | None \<Rightarrow> [])))"

definition task_Validate :: "'b scheduler_api \<Rightarrow> 'b \<Rightarrow> task \<Rightarrow> string list" where
  "task_Validate api b t =
     (if tk_Deployment t = '''' then [''deployment name is blank''] else []) @
     (if \<not> found (GetDeployment api (tk_Deployment t) b) then [''deployment does not exist''] else [])"

text \<open>The validation of a task definition also names its checks and fills in missing durations.\<close>

definition check_defaults :: "string \<Rightarrow> string \<Rightarrow> nat \<Rightarrow> check \<Rightarrow> check" where
  "check_defaults td ct i ch = ch\<lparr>
     ch_ID := td @ ''_'' @ ct @ ''-'' @ ch_Name ch @ ''-'' @ dec_nat i,
     ch_Interval := (if IsNone (ch_Interval ch) then 30 * second else ch_Interval ch),
     ch_Timeout := (if IsNone (ch_Timeout ch) then 5 * second else ch_Timeout ch)\<rparr>"

definition check_malformed :: "check \<Rightarrow> bool" where
  "check_malformed ch \<longleftrightarrow>
     ch_HTTP ch = '''' \<and> ch_TCP ch = '''' \<and> ch_Script ch = '''' \<and> ch_Docker ch = ''''"

definition container_defaults :: "string \<Rightarrow> container \<Rightarrow> container" where
  "container_defaults td c = c\<lparr>
     ct_Checks := map (\<lambda>(i, ch). check_defaults td (ct_Name c) i ch) (enumerate 0 (ct_Checks c))\<rparr>"

definition task_definition_Validate ::
  "'b scheduler_api \<Rightarrow> 'b \<Rightarrow> task_definition \<Rightarrow> task_definition \<times> string list" where
  "task_definition_Validate api b td =
     (td\<lparr>
        td_GracePeriod := (if IsNone (td_GracePeriod td) then 60 * second else td_GracePeriod td),
        td_Containers := map (container_defaults (td_Name td)) (td_Containers td)\<rparr>,
      (if found (GetTaskDefinition api (td_Name td) (td_Version td) b)
       then [''version already provisioned''] else []) @
      concat (map (\<lambda>c. map (\<lambda>_. ''health check malformed'') (filter check_malformed (ct_Checks c)))
        (td_Containers td)))"

lemma deployment_Validate_ok:
  "deployment_Validate api b s = [] \<longleftrightarrow>
     found (GetTaskDefinition api (dp_TaskName s) (dp_TaskVersion s) b) \<and> dp_Name s \<noteq> '''' \<and>
     dp_Min s \<le> dp_Desired s \<and> dp_Desired s \<le> dp_Max s"
  by (auto simp: deployment_Validate_def)

lemma check_defaults_idem:
  "check_defaults td ct i (check_defaults td ct i ch) = check_defaults td ct i ch"
  by (simp add: check_defaults_def IsNone_def second_def)

lemma check_defaults_durations:
  "\<not> IsNone (ch_Interval (check_defaults td ct i ch))" "\<not> IsNone (ch_Timeout (check_defaults td ct i ch))"
  by (simp_all add: check_defaults_def IsNone_def second_def)

lemma check_defaults_malformed [simp]:
  "check_malformed (check_defaults td ct i ch) = check_malformed ch"
  by (simp add: check_defaults_def check_malformed_def)

section \<open>What a backend promises: a keyed collection\<close>

text \<open>
  One kind of resource (clusters, deployments, services, hosts, task definitions) is a map from keys
  to values. The laws hold in the states where the backend is \<open>good\<close>: it answers, and what it stores
  is filed under its own key.
\<close>

locale keyed_store =
  fixes good :: "'b \<Rightarrow> bool"
    and view :: "'b \<Rightarrow> 'k \<Rightarrow> 'v option"
    and key :: "'v \<Rightarrow> 'k"
    and get :: "'k \<Rightarrow> 'b \<Rightarrow> 'v reply"
    and listing :: "'b \<Rightarrow> 'v list reply"
    and put :: "'v \<Rightarrow> 'b command"
  assumes view_key: "good b \<Longrightarrow> view b k = Some v \<Longrightarrow> key v = k"
    and get_known: "good b \<Longrightarrow> view b k = Some v \<Longrightarrow> get k b = Ok v"
    and get_unknown: "good b \<Longrightarrow> view b k = None \<Longrightarrow> \<exists>p. get k b = Fail ErrNotFound p"
    and listing_view: "good b \<Longrightarrow> \<exists>vs. listing b = Ok vs \<and> set vs = ran (view b)"
    and put_ok: "good b \<Longrightarrow> snd (put v b) = None"
    and put_view: "good b \<Longrightarrow> view (fst (put v b)) = (view b)(key v \<mapsto> v)"
    and put_good: "good b \<Longrightarrow> good (fst (put v b))"
begin

lemma get_after_put: "good b \<Longrightarrow> get (key v) (fst (put v b)) = Ok v"
  by (rule get_known) (simp_all add: put_good put_view)

lemma found_get: "good b \<Longrightarrow> found (get k b) \<longleftrightarrow> view b k \<noteq> None"
  using get_known [of b k] get_unknown [of b k]
  by (cases "view b k") (auto simp: found_def)

lemma get_Ok_iff: "good b \<Longrightarrow> get k b = Ok v \<longleftrightarrow> view b k = Some v"
  using get_known [of b k] get_unknown [of b k] by (cases "view b k") auto

lemma get_other_after_put: "good b \<Longrightarrow> k \<noteq> key v \<Longrightarrow> get k (fst (put v b)) = Ok w \<longleftrightarrow> get k b = Ok w"
  by (simp add: get_Ok_iff put_good put_view)

lemma listed_after_put:
  assumes "good b"
  shows "\<exists>vs ws. listing b = Ok vs \<and> listing (fst (put v b)) = Ok ws \<and>
           set ws = insert v {w \<in> set vs. key w \<noteq> key v}"
proof -
  obtain vs where vs: "listing b = Ok vs" "set vs = ran (view b)"
    using listing_view [OF assms] by blast
  obtain ws where ws: "listing (fst (put v b)) = Ok ws" "set ws = ran (view (fst (put v b)))"
    using listing_view [OF put_good [OF assms]] by blast
  have "ran ((view b)(key v \<mapsto> v)) = insert v {w \<in> ran (view b). key w \<noteq> key v}"
    by (auto simp: ran_def dest: view_key [OF assms])
  with vs ws assms show ?thesis by (simp add: put_view)
qed

lemma put_twice_view:
  "good b \<Longrightarrow> key v = key w \<Longrightarrow> view (fst (put w (fst (put v b)))) = view (fst (put w b))"
  by (simp add: put_view put_good)

end

text \<open>A collection that can also delete.\<close>

locale deleting_store = keyed_store good view key get listing put
  for good :: "'b \<Rightarrow> bool" and view :: "'b \<Rightarrow> 'k \<Rightarrow> 'v option" and key get listing put +
  fixes del :: "'k \<Rightarrow> 'b command"
  assumes del_ok: "good b \<Longrightarrow> snd (del k b) = None"
    and del_view: "good b \<Longrightarrow> view (fst (del k b)) = (view b)(k := None)"
    and del_good: "good b \<Longrightarrow> good (fst (del k b))"
begin

lemma get_after_del: "good b \<Longrightarrow> \<exists>p. get k (fst (del k b)) = Fail ErrNotFound p"
  by (rule get_unknown) (simp_all add: del_good del_view)

lemma get_other_after_del: "good b \<Longrightarrow> j \<noteq> k \<Longrightarrow> get j (fst (del k b)) = Ok w \<longleftrightarrow> get j b = Ok w"
  by (simp add: get_Ok_iff del_good del_view)

lemma del_undoes_put:
  "good b \<Longrightarrow> view b (key v) = None \<Longrightarrow> view (fst (del (key v) (fst (put v b)))) = view b"
  by (auto simp: del_view put_good put_view)

end

section \<open>What a backend promises: the issued state\<close>

text \<open>No query panics inside the backend.\<close>

definition calm :: "'b scheduler_api \<Rightarrow> 'b \<Rightarrow> bool" where
  "calm api b \<longleftrightarrow>
     (\<forall>n. ListHosts api n b \<noteq> Stops Panicked) \<and> (\<forall>q. ListTasks api q b \<noteq> Stops Panicked) \<and>
     (\<forall>n v. GetTaskDefinition api n v b \<noteq> Stops Panicked) \<and> (\<forall>n. GetDeployment api n b \<noteq> Stops Panicked) \<and>
     (\<forall>n. GetCluster api n b \<noteq> Stops Panicked)"

lemma stopped_Panics [simp]: "stopped how = Panics \<longleftrightarrow> how = Panicked"
  by (simp add: stopped_def split: stop.split)

text \<open>
  The tasks, as the scheduler and the garbage collector use them: a command on one task changes that
  task only, a query that does not ask for health returns exactly the tasks it selects, each once,
  and writing a task leaves the configuration alone. A backend that stores documents keeps only tasks it
  can write down: \<open>fine\<close> says which these are, \<open>sane\<close> the same of deployments. What is stored is fine,
  and so is what the scheduler makes of it.
\<close>

definition listed_ports :: "(string, uint) gomap \<Rightarrow> bool" where
  "listed_ports pp \<longleftrightarrow> sorted (map fst pp) \<and> distinct (map fst pp) \<and> (\<forall>p \<in> ran (lookup pp). p \<le> 65535)"

locale task_backend =
  fixes good :: "'b \<Rightarrow> bool"
    and api :: "'b scheduler_api"
    and tasks :: "'b \<Rightarrow> string \<Rightarrow> task option"
    and fine :: "task \<Rightarrow> bool"
    and sane :: "deployment \<Rightarrow> bool"
  assumes tasks_key: "good b \<Longrightarrow> tasks b k = Some t \<Longrightarrow> task_ID t = k"
    and tasks_fine: "good b \<Longrightarrow> tasks b k = Some t \<Longrightarrow> fine t"
    and fine_unscheduled: "fine t \<Longrightarrow> fine (t\<lparr>tk_Scheduled := False\<rparr>)"
    and fine_new: "good b \<Longrightarrow> GetTaskDefinition api n v b = Ok td \<Longrightarrow> sane d \<Longrightarrow> 0 \<le> i \<Longrightarrow> i < dp_Desired d \<Longrightarrow>
      listed_ports pp \<Longrightarrow> fine ((NewTask cl td d i)\<lparr>tk_Host := h, tk_ProvidedPorts := pp, tk_Scheduled := True\<rparr>)"
    and deployment_sane: "good b \<Longrightarrow> GetDeployment api n b = Ok d \<Longrightarrow> sane d"
    and PutTask_ok: "good b \<Longrightarrow> fine t \<Longrightarrow> snd (PutTask api t b) = None"
    and PutTask_tasks: "good b \<Longrightarrow> fine t \<Longrightarrow> tasks (fst (PutTask api t b)) = (tasks b)(task_ID t \<mapsto> t)"
    and PutTask_good: "good b \<Longrightarrow> fine t \<Longrightarrow> good (fst (PutTask api t b))"
    and ListTasks_selects:
      "good b \<Longrightarrow> \<not> tq_Failing q \<Longrightarrow> \<not> tq_Running q \<Longrightarrow>
       \<exists>ts. ListTasks api q b = Ok ts \<and> set ts = {t \<in> ran (tasks b). selects q PENDING t} \<and>
            distinct (map task_ID ts)"
    and PutTask_config:
      "good b \<Longrightarrow> fine t \<Longrightarrow> GetTaskDefinition api n v (fst (PutTask api t b)) = GetTaskDefinition api n v b"
      "good b \<Longrightarrow> fine t \<Longrightarrow> GetDeployment api n (fst (PutTask api t b)) = GetDeployment api n b"
      "good b \<Longrightarrow> fine t \<Longrightarrow> GetCluster api n (fst (PutTask api t b)) = GetCluster api n b"
      "good b \<Longrightarrow> fine t \<Longrightarrow> ListHosts api n (fst (PutTask api t b)) = ListHosts api n b"
begin

lemma stored_task_ID: "good b \<Longrightarrow> t \<in> ran (tasks b) \<Longrightarrow> tasks b (task_ID t) = Some t"
  using tasks_key by (fastforce simp: ran_def)

end

end
