(* ===== verification/Rankers.thy ===== *)
theory Rankers
  imports Scheduler_Api
begin

text \<open>
  The rankers of src/scheduler/rankers.go: a list of the known hosts with a score each, from which
  the scheduler takes the first host a task fits on. \<open>rank\<close> visits the hosts in the order of a map,
  so its result is a function of that order too.
\<close>

section \<open>Definitions\<close>

record ranked_host =
  rk_Name :: string
  rk_Score :: int

definition memWeight :: int where "memWeight = 8"
definition diskWeight :: int where "diskWeight = 1"
definition cpuWeight :: int where "cpuWeight = 4"
definition packMaxScore :: int where "packMaxScore = 1000000"

definition score :: "host \<Rightarrow> int" where
  "score h =
     (let r = ho_CalculatedResources h in
      w64 (w64 (w64 (rs_CpuUnits r * cpuWeight) + w64 (rs_DiskSpace r * diskWeight)) +
           w64 (rs_Memory r * memWeight)))"

text \<open>
  The inner loop of \<open>rank\<close>: at the first index whose score is not below that of \<open>r\<close> and whose
  successor's is not above it, \<open>r\<close> goes in front of that index; without such an index nothing
  happens.
\<close>

fun insert_between :: "ranked_host \<Rightarrow> ranked_host list \<Rightarrow> ranked_host list" where
  "insert_between r (a # b # rest) =
     (if rk_Score r \<le> rk_Score a \<and> rk_Score r \<ge> rk_Score b then r # a # b # rest
      else a # insert_between r (b # rest))"
| "insert_between r rs = rs"

definition rank_insert :: "ranked_host \<Rightarrow> ranked_host list \<Rightarrow> ranked_host list" where
  "rank_insert r rs =
     (if rs \<noteq> [] then
        if rk_Score r \<ge> rk_Score (hd rs) then r # rs
        else if rk_Score r \<le> rk_Score (last rs) then rs @ [r]
        else insert_between r rs
      else rs @ [r])"

definition rank :: "map_order \<Rightarrow> (string, host) gomap \<Rightarrow> (host \<Rightarrow> int) \<Rightarrow> ranked_host list" where
  "rank ord hosts f =
     fold (\<lambda>h. rank_insert \<lparr>rk_Name = ho_Name h, rk_Score = f h\<rparr>) (range_values ord hosts) []"

definition SpreadRanker :: "map_order \<Rightarrow> (string, host) gomap \<Rightarrow> ranked_host list" where
  "SpreadRanker ord hosts = rank ord hosts score"

definition PackRanker :: "map_order \<Rightarrow> (string, host) gomap \<Rightarrow> ranked_host list" where
  "PackRanker ord hosts = rank ord hosts (\<lambda>h. w64 (packMaxScore - score h))"

section \<open>No host is lost\<close>

text \<open>
  The inner loop always finds its place: the scores start at or above that of \<open>r\<close> and end below it,
  so somewhere two neighbours enclose it, in whatever order the list is.
\<close>

lemma mset_insert_between:
  "rs \<noteq> [] \<Longrightarrow> rk_Score r \<le> rk_Score (hd rs) \<Longrightarrow> rk_Score (last rs) < rk_Score r \<Longrightarrow>
   mset (insert_between r rs) = add_mset r (mset rs)"
  by (induction r rs rule: insert_between.induct) auto

lemma mset_rank_insert: "mset (rank_insert r rs) = add_mset r (mset rs)"
  by (simp add: rank_insert_def mset_insert_between)

lemma mset_fold_rank_insert:
  "mset (fold (\<lambda>h. rank_insert (g h)) hs rs) = mset (map g hs) + mset rs"
  by (induction hs arbitrary: rs) (simp_all add: mset_rank_insert)

lemma mset_rank:
  "mset (rank ord hosts f) =
     mset (map (\<lambda>h. \<lparr>rk_Name = ho_Name h, rk_Score = f h\<rparr>) (range_values ord hosts))"
  by (simp add: rank_def mset_fold_rank_insert)

lemma set_rank: "set (rank ord hosts f) = (\<lambda>h. \<lparr>rk_Name = ho_Name h, rk_Score = f h\<rparr>) ` ran (lookup hosts)"
  using mset_rank [of ord hosts f, THEN arg_cong [where f = set_mset]] by simp

lemma rank_names: "rk_Name ` set (rank ord hosts f) = ho_Name ` ran (lookup hosts)"
  by (simp add: set_rank image_image)

lemma rank_names_keyed: "keyed_by ho_Name hosts \<Longrightarrow> rk_Name ` set (rank ord hosts f) = dom (lookup hosts)"
  unfolding rank_names by (force simp: ran_def dest: keyed_by_lookup)

section \<open>What the order says\<close>

text \<open>The last host has the lowest score.\<close>

definition last_lowest :: "ranked_host list \<Rightarrow> bool" where
  "last_lowest rs \<longleftrightarrow> (\<forall>a \<in> set rs. rk_Score (last rs) \<le> rk_Score a)"

lemma insert_between_ends:
  "rs \<noteq> [] \<Longrightarrow> last (insert_between r rs) = last rs"
  "set (insert_between r rs) \<subseteq> insert r (set rs)" "rs \<noteq> [] \<Longrightarrow> insert_between r rs \<noteq> []"
  by (induction r rs rule: insert_between.induct) auto

lemma last_lowest_rank_insert:
  assumes "last_lowest rs"
  shows "last_lowest (rank_insert r rs)"
proof (cases "rs = []")
  case True
  then show ?thesis by (simp add: rank_insert_def last_lowest_def)
next
  case False
  with assms have low: "rk_Score (last rs) \<le> rk_Score a" if "a \<in> set rs" for a
    using that by (simp add: last_lowest_def)
  then have hd: "rk_Score (last rs) \<le> rk_Score (hd rs)" using False by simp
  consider "rk_Score (hd rs) \<le> rk_Score r"
    | "\<not> rk_Score (hd rs) \<le> rk_Score r" "rk_Score r \<le> rk_Score (last rs)"
    | "\<not> rk_Score (hd rs) \<le> rk_Score r" "\<not> rk_Score r \<le> rk_Score (last rs)" by blast
  then show ?thesis
  proof cases
    case 1
    with hd have "rk_Score (last rs) \<le> rk_Score r" by linarith
    with 1 False low show ?thesis by (auto simp: rank_insert_def last_lowest_def)
  next
    case 2
    with False low show ?thesis by (auto simp: rank_insert_def last_lowest_def intro: order_trans)
  next
    case 3
    with False have "rank_insert r rs = insert_between r rs" by (simp add: rank_insert_def)
    with False low 3 show ?thesis
      using insert_between_ends(1) [OF False, of r] insert_between_ends(2) [of r rs]
      by (auto simp: last_lowest_def)
  qed
qed

lemma last_lowest_rank: "last_lowest (rank ord hosts f)"
  unfolding rank_def
  by (rule fold_invariant) (simp_all add: last_lowest_def [of "[]"] last_lowest_rank_insert)

text \<open>Up to two hosts come out from the highest score to the lowest.\<close>

lemma rank_two:
  assumes "map_len hosts \<le> 2"
  shows "sorted_wrt (\<lambda>a b. rk_Score a \<ge> rk_Score b) (rank ord hosts f)"
proof -
  have "length (range_values ord hosts) \<le> 2"
    using assms length_filter_le [of "\<lambda>k. lookup hosts k \<noteq> None" "range_keys ord hosts"]
    by (simp add: range_values_def List.map_filter_def)
  then consider "range_values ord hosts = []" | a where "range_values ord hosts = [a]"
    | a b where "range_values ord hosts = [a, b]"
    by (cases "range_values ord hosts"; cases "tl (range_values ord hosts)") auto
  then show ?thesis by cases (auto simp: rank_def rank_insert_def)
qed

end
