(* ===== verification/Default_Scheduler.thy ===== *)
theory Default_Scheduler
  imports Rankers "HOL-Library.Stream"
begin

text \<open>
  The scheduler of src/scheduler/scheduler.go. One call of \<open>Schedule\<close> reads the hosts, the task
  definition and the scheduled tasks of a deployment, takes tasks off (lost hosts, rejections, old
  versions, too many) and adds the missing instances, each on a host it fits on. A call is modelled
  from start to end, as one goroutine runs it; what Go leaves open (the iteration order of maps, the
  values of \<open>rand.Intn\<close>) is an argument, so every theorem holds for all of it.
\<close>

section \<open>State\<close>

record default_scheduler =
  ds_cluster :: "cluster option"
  ds_hosts :: "(string, host) gomap"
  ds_maxPort :: "(string, uint) gomap"

definition NewDefaultScheduler :: default_scheduler where
  "NewDefaultScheduler = \<lparr>ds_cluster = None, ds_hosts = [], ds_maxPort = []\<rparr>"

definition SetCluster :: "cluster \<Rightarrow> default_scheduler \<Rightarrow> default_scheduler" where
  "SetCluster c s = s\<lparr>ds_cluster := Some c\<rparr>"

text \<open>The field \<open>rankers\<close> is set once, by \<open>NewDefaultScheduler\<close>.\<close>

definition rankers :: "(string, map_order \<Rightarrow> (string, host) gomap \<Rightarrow> ranked_host list) gomap" where
  "rankers = [('''', SpreadRanker), (''spread'', SpreadRanker), (''binpack'', PackRanker)]"

section \<open>Hosts\<close>

definition sync_host :: "host \<Rightarrow> (string, host) gomap \<Rightarrow> (string, host) gomap" where
  "sync_host h m = (if ho_Draining h then m else insert_key (ho_Name h) h m)"

text \<open>\<open>s.cluster.Name\<close> dereferences a nil pointer before a cluster is set.\<close>

definition syncHosts ::
  "'b scheduler_api \<Rightarrow> 'b \<Rightarrow> default_scheduler \<Rightarrow> (go_error option \<times> default_scheduler) outcome" where
  "syncHosts api b s =
     (case ds_cluster s of None \<Rightarrow> Panics
      | Some cl \<Rightarrow>
         (case ListHosts api (cl_Name cl) b of
            Stops how \<Rightarrow> stopped how
          | Fail e _ \<Rightarrow> Returns (Some e, s)
          | Ok hosts \<Rightarrow> Returns (None, s\<lparr>ds_hosts := fold sync_host hosts (ds_hosts s)\<rparr>)))"

definition inArray :: "uint \<Rightarrow> uint list \<Rightarrow> bool" where
  "inArray item xs = list_ex (\<lambda>i. i = item) xs"

definition task_ports :: "task_definition \<Rightarrow> port_mapping list" where
  "task_ports td = concat (map ct_Ports (td_Containers td))"

definition matchHost :: "task \<Rightarrow> host \<Rightarrow> go_error option" where
  "matchHost t cand =
     (let cn = Counts (tk_TaskDefinition t); r = ho_CalculatedResources cand in
      if w64 (rs_Memory r - cn_Memory cn) < 0
      then Some (OtherError (''host '' @ ho_Name cand @ '' does not have enough memory''))
      else if w64 (rs_CpuUnits r - cn_CpuUnits cn) < 0
      then Some (OtherError (''host '' @ ho_Name cand @ '' does not have enough cpu units''))
      else if w64 (rs_DiskSpace r - cn_DiskUse cn) < 0
      then Some (OtherError (''host '' @ ho_Name cand @ '' not have enough disk space''))
      else (case find (\<lambda>p. pm_Host p \<noteq> 0 \<and> inArray (pm_Host p) (ho_ReservedPorts cand))
                   (task_ports (tk_TaskDefinition t)) of
          Some p \<Rightarrow> Some (OtherError (''task port is using a reserved port '' @ dec_nat (pm_Host p) @
            '' on host '' @ ho_Name cand))
        | None \<Rightarrow> None))"

text \<open>The loop of \<open>selectHost\<close>, with the errors collected so far (a \<open>tools.MultiError\<close>).\<close>

fun select_loop ::
  "(string, host) gomap \<Rightarrow> task \<Rightarrow> ranked_host list \<Rightarrow> go_error list \<Rightarrow> string \<times> go_error list" where
  "select_loop hosts t [] errors = ('''', errors)"
| "select_loop hosts t (r # ranking) errors =
     (case lookup hosts (rk_Name r) of
        None \<Rightarrow> select_loop hosts t ranking errors
      | Some cand \<Rightarrow>
         (case matchHost t cand of
            Some err \<Rightarrow> select_loop hosts t ranking (errors @ [err])
          | None \<Rightarrow> (ho_Name cand, [])))"

definition selectHost ::
  "map_order \<Rightarrow> (string, host) gomap \<Rightarrow> string \<Rightarrow> task \<Rightarrow> string \<times> go_error list" where
  "selectHost ord hosts name t =
     (let ranker = (case lookup rankers name of Some rk \<Rightarrow> rk | None \<Rightarrow> SpreadRanker) in
      select_loop hosts t (ranker ord hosts) [])"

definition place_on :: "task \<Rightarrow> host \<Rightarrow> host" where
  "place_on t h =
     (let cn = Counts (tk_TaskDefinition t); r = ho_CalculatedResources h in
      h\<lparr>ho_CalculatedResources := r\<lparr>
          rs_Memory := w64 (rs_Memory r - cn_Memory cn),
          rs_DiskSpace := w64 (rs_DiskSpace r - cn_DiskUse cn),
          rs_CpuUnits := w64 (rs_CpuUnits r - cn_CpuUnits cn)\<rparr>,
        ho_ReservedPorts := ho_ReservedPorts h @ AllPorts (tk_TaskDefinition t)\<rparr>)"

definition updateHost :: "task \<Rightarrow> default_scheduler \<Rightarrow> default_scheduler outcome" where
  "updateHost t s =
     (case lookup (ds_hosts s) (tk_Host t) of
        None \<Rightarrow> Panics
      | Some h \<Rightarrow> Returns (s\<lparr>ds_hosts := insert_key (tk_Host t) (place_on t h) (ds_hosts s)\<rparr>))"

section \<open>Ports\<close>

text \<open>
  \<open>rand.Intn(n)\<close> is the next value of a stream of draws, reduced below \<open>n\<close>; \<open>selectPort\<close> reseeds the
  generator from the clock, so nothing is known of the stream. The loop may never end: \<open>None\<close>.
\<close>

partial_function (option) port_loop :: "uint \<Rightarrow> uint list \<Rightarrow> nat stream \<Rightarrow> (uint \<times> nat stream) option" where
  "port_loop p reserved draws =
     (if inArray p reserved then port_loop (u64 (p + shd draws mod 1000)) reserved (stl draws)
      else if p > 65535 then port_loop 8000 reserved draws
      else Some (p, draws))"

definition first_port :: "uint \<Rightarrow> nat \<Rightarrow> uint" where
  "first_port highest draw =
     (let p = u64 (highest + draw mod 2000) in if p < 9000 then u64 (p + 9000) else p)"

definition max_port :: "default_scheduler \<Rightarrow> string \<Rightarrow> uint" where
  "max_port s n = (case lookup (ds_maxPort s) n of None \<Rightarrow> 0 | Some p \<Rightarrow> p)"

definition selectPort ::
  "task \<Rightarrow> default_scheduler \<Rightarrow> nat stream \<Rightarrow> (uint \<times> default_scheduler \<times> nat stream) outcome" where
  "selectPort t s draws =
     (case lookup (ds_hosts s) (tk_Host t) of
        None \<Rightarrow> Panics
      | Some h \<Rightarrow>
         (case port_loop (first_port (max_port s (ho_Name h)) (shd draws)) (ho_ReservedPorts h) (stl draws) of
            None \<Rightarrow> Hangs
          | Some (p, draws') \<Rightarrow>
              Returns (p, s\<lparr>ds_maxPort := insert_key (ho_Name h) p (ds_maxPort s)\<rparr>, draws')))"

text \<open>
  The loop over the ports of the containers that gives each port without a number one. The entries of the
  map of provided ports are kept in the order of their names, which no code can see.
\<close>

fun provide_ports ::
  "port_mapping list \<Rightarrow> task \<Rightarrow> default_scheduler \<Rightarrow> nat stream \<Rightarrow> (task \<times> default_scheduler) outcome" where
  "provide_ports [] t s draws = Returns (t, s)"
| "provide_ports (p # ps) t s draws =
     (if pm_Host p = 0 then
        bind_outcome (selectPort t s draws) (\<lambda>(port, s', draws').
          provide_ports ps
            (t\<lparr>tk_ProvidedPorts := sorted_map (insert_key (pm_Name p) port (tk_ProvidedPorts t))\<rparr>) s' draws')
      else provide_ports ps t s draws)"

section \<open>Schedule\<close>

text \<open>What Go decides during one call, and the variables of the call beside the scheduler itself.\<close>

record schedule_choices =
  sc_tasks :: map_order
  sc_hosts :: "int \<Rightarrow> map_order"
  sc_draws :: "int \<Rightarrow> nat stream"

record 'b progress =
  pg_taskMap :: "(string, task) gomap"
  pg_removed :: int
  pg_added :: int
  pg_backend :: 'b

text \<open>
  The four lines that take a task off: clear the flag, write the task, count it, delete it from the
  map. The error of \<open>PutTask\<close> is not looked at.
\<close>

definition drop_task :: "'b scheduler_api \<Rightarrow> string \<Rightarrow> task \<Rightarrow> 'b progress \<Rightarrow> 'b progress" where
  "drop_task api key t p = p\<lparr>
     pg_backend := fst (PutTask api (t\<lparr>tk_Scheduled := False\<rparr>) (pg_backend p)),
     pg_removed := pg_removed p + 1,
     pg_taskMap := delete_key key (pg_taskMap p)\<rparr>"

text \<open>The body of the clean-up loop: three tests one after the other, each of which may drop the task.\<close>

definition host_gone :: "default_scheduler \<Rightarrow> task \<Rightarrow> bool" where
  "host_gone s t \<longleftrightarrow> lookup (ds_hosts s) (tk_Host t) = None"

definition outdated :: "deployment \<Rightarrow> int \<Rightarrow> 'b progress \<Rightarrow> task \<Rightarrow> bool" where
  "outdated d cnt p t \<longleftrightarrow>
     cnt - pg_removed p > dp_Min d \<and> td_Version (tk_TaskDefinition t) \<noteq> dp_TaskVersion d"

definition cleanup_task ::
  "'b scheduler_api \<Rightarrow> default_scheduler \<Rightarrow> deployment \<Rightarrow> int \<Rightarrow> string \<Rightarrow> 'b progress \<Rightarrow> 'b progress" where
  "cleanup_task api s d cnt key p =
     (case lookup (pg_taskMap p) key of
        None \<Rightarrow> p
      | Some t \<Rightarrow>
         (let p1 = (if host_gone s t then drop_task api key t p else p);
              p2 = (if tk_Rejected t then drop_task api key t p1 else p1);
              p3 = (if outdated d cnt p2 t then drop_task api key t p2 else p2)
          in p3))"

definition cleanup ::
  "'b scheduler_api \<Rightarrow> map_order \<Rightarrow> default_scheduler \<Rightarrow> deployment \<Rightarrow> int \<Rightarrow> 'b progress \<Rightarrow> 'b progress" where
  "cleanup api ord s d cnt p =
     fold (cleanup_task api s d cnt) (range_keys ord (pg_taskMap p)) p"

text \<open>Scaling down: from instance \<open>i\<close> down to the limit, exclusively.\<close>

function scale_down ::
  "'b scheduler_api \<Rightarrow> cluster \<Rightarrow> deployment \<Rightarrow> int \<Rightarrow> int \<Rightarrow> 'b progress \<Rightarrow> 'b progress" where
  "scale_down api cl d floor_idx i p =
     (if i > floor_idx then
        scale_down api cl d floor_idx (i - 1)
          (case lookup (pg_taskMap p) (MakeTaskId cl d i) of
             Some t \<Rightarrow> drop_task api (MakeTaskId cl d i) t p
           | None \<Rightarrow> p)
      else p)"
  by pat_completeness auto
termination
  by (relation "measure (\<lambda>(api, cl, d, floor_idx, i, p). nat (i - floor_idx))") auto

declare scale_down.simps [simp del]

text \<open>The lines that put a new task into effect: write it, count it, remember it.\<close>

definition issue_task :: "'b scheduler_api \<Rightarrow> task \<Rightarrow> 'b progress \<Rightarrow> 'b progress" where
  "issue_task api t p = p\<lparr>
     pg_backend := fst (PutTask api t (pg_backend p)),
     pg_added := pg_added p + 1,
     pg_taskMap := insert_key (task_ID t) t (pg_taskMap p)\<rparr>"

text \<open>The body of the scale-up loop.\<close>

definition place_task ::
  "'b scheduler_api \<Rightarrow> schedule_choices \<Rightarrow> cluster \<Rightarrow> task_definition \<Rightarrow> deployment \<Rightarrow> int \<Rightarrow>
   default_scheduler \<times> 'b progress \<Rightarrow> (default_scheduler \<times> 'b progress) outcome" where
  "place_task api ch cl td d i = (\<lambda>(s, p).
     (case lookup (pg_taskMap p) (MakeTaskId cl d i) of
        Some _ \<Rightarrow> Returns (s, p)
      | None \<Rightarrow>
         (let t = NewTask cl td d i;
              selectedHost = fst (selectHost (sc_hosts ch i) (ds_hosts s) (dp_Scheduler d) t) in
          if selectedHost = '''' then Returns (s, p)
          else
            bind_outcome (provide_ports (task_ports td) (t\<lparr>tk_Host := selectedHost\<rparr>) s (sc_draws ch i))
              (\<lambda>(t', s'). let t'' = t'\<lparr>tk_Scheduled := True\<rparr> in
                bind_outcome (updateHost t'' s') (\<lambda>s''. Returns (s'', issue_task api t'' p))))))"

fun scale_up ::
  "'b scheduler_api \<Rightarrow> schedule_choices \<Rightarrow> cluster \<Rightarrow> task_definition \<Rightarrow> deployment \<Rightarrow> int list \<Rightarrow>
   default_scheduler \<times> 'b progress \<Rightarrow> (default_scheduler \<times> 'b progress) outcome" where
  "scale_up api ch cl td d [] st = Returns st"
| "scale_up api ch cl td d (i # is) st =
     bind_outcome (place_task api ch cl td d i st) (scale_up api ch cl td d is)"

definition list_query :: "cluster \<Rightarrow> deployment \<Rightarrow> task_query" where
  "list_query cl d = any_task\<lparr>tq_ByCluster := cl_Name cl, tq_ByDeployment := dp_Name d, tq_Scheduled := True\<rparr>"

definition task_map :: "task list \<Rightarrow> (string, task) gomap" where
  "task_map ts = fold (\<lambda>t. insert_key (task_ID t) t) ts []"

text \<open>The part of \<open>Schedule\<close> after the reads: nothing in it returns an error.\<close>

definition scaled_down ::
  "'b scheduler_api \<Rightarrow> cluster \<Rightarrow> deployment \<Rightarrow> int \<Rightarrow> 'b progress \<Rightarrow> 'b progress" where
  "scaled_down api cl d cnt p =
     (if cnt - pg_removed p > dp_Desired d
      then scale_down api cl d (w64 (dp_Desired d - 1)) (cnt - pg_removed p - 1) p else p)"

definition rebalance ::
  "'b scheduler_api \<Rightarrow> schedule_choices \<Rightarrow> cluster \<Rightarrow> task_definition \<Rightarrow> deployment \<Rightarrow> task list \<Rightarrow>
   default_scheduler \<Rightarrow> 'b \<Rightarrow> (default_scheduler \<times> 'b progress) outcome" where
  "rebalance api ch cl td d ts s b =
     (let cnt = int (length ts);
          p = \<lparr>pg_taskMap = task_map ts, pg_removed = 0, pg_added = 0, pg_backend = b\<rparr>;
          p1 = cleanup api (sc_tasks ch) s d cnt p;
          p2 = scaled_down api cl d cnt p1
      in if cnt - pg_removed p2 < dp_Desired d
         then scale_up api ch cl td d [0..dp_Desired d - 1] (s, p2)
         else Returns (s, p2))"

definition Schedule ::
  "'b scheduler_api \<Rightarrow> schedule_choices \<Rightarrow> deployment \<Rightarrow> default_scheduler \<Rightarrow> 'b \<Rightarrow>
   (go_error option \<times> default_scheduler \<times> 'b) outcome" where
  "Schedule api ch d s b =
     (case ds_cluster s of
        None \<Rightarrow> Returns (Some (OtherError ''cluster was not set''), s, b)
      | Some cl \<Rightarrow>
         bind_outcome (syncHosts api b s) (\<lambda>(err, s1).
           case err of Some e \<Rightarrow> Returns (Some e, s1, b)
           | None \<Rightarrow>
              if map_len (ds_hosts s1) = 0
              then Returns (Some (OtherError ''no hosts to schedule on''), s1, b)
              else
                (case GetTaskDefinition api (dp_TaskName d) (dp_TaskVersion d) b of
                   Stops how \<Rightarrow> stopped how
                 | Fail e _ \<Rightarrow> Returns (Some e, s1, b)
                 | Ok td \<Rightarrow>
                    (case ListTasks api (list_query cl d) b of
                       Stops how \<Rightarrow> stopped how
                     | Fail e _ \<Rightarrow> Returns (Some e, s1, b)
                     | Ok ts \<Rightarrow>
                        bind_outcome (rebalance api ch cl td d ts s1 b) (\<lambda>(s2, p).
                          Returns (None, s2, pg_backend p))))))"

end
