(* ===== verification/Scheduler_Ports.thy ===== *)
theory Scheduler_Ports
  imports Default_Scheduler
begin

text \<open>
  The choice of a port by \<open>selectPort\<close>: what a returned port satisfies, when the loop returns, and
  when it cannot.
\<close>

section \<open>What a returned port satisfies\<close>

lemma inArray_iff [simp]: "inArray p xs \<longleftrightarrow> p \<in> set xs"
  by (auto simp: inArray_def list_ex_iff)

lemma port_loop_free:
  assumes "port_loop p reserved draws = Some (q, draws')"
  shows "q \<notin> set reserved \<and> q \<le> 65535"
proof -
  have "case r of (q, draws') \<Rightarrow> q \<notin> set reserved \<and> q \<le> 65535"
    if "port_loop p reserved draws = Some r" for r
  proof (rule port_loop.raw_induct [where P = "\<lambda>p reserved draws r.
      case r of (q, draws') \<Rightarrow> q \<notin> set reserved \<and> q \<le> 65535", OF _ that])
    fix f :: "uint \<Rightarrow> uint list \<Rightarrow> nat stream \<Rightarrow> (uint \<times> nat stream) option" and p reserved draws r
    assume "\<And>p reserved draws r. f p reserved draws = Some r \<Longrightarrow>
        case r of (q, draws') \<Rightarrow> q \<notin> set reserved \<and> q \<le> 65535"
      and "(if inArray p reserved then f (u64 (p + shd draws mod 1000)) reserved (stl draws)
        else if p > 65535 then f 8000 reserved draws else Some (p, draws)) = Some r"
    then show "case r of (q, draws') \<Rightarrow> q \<notin> set reserved \<and> q \<le> 65535"
      by (auto split: if_splits)
  qed
  with assms show ?thesis by auto
qed

text \<open>
  A search that starts at 8000 or above stays there, unless adding a draw to a reserved port number
  wraps around; no port number is that large.
\<close>

definition plausible_ports :: "uint list \<Rightarrow> bool" where
  "plausible_ports xs \<longleftrightarrow> (\<forall>p \<in> set xs. p < 2 ^ 64 - 1000)"

lemma port_loop_low:
  assumes "port_loop p reserved draws = Some (q, draws')" and "plausible_ports reserved" and "8000 \<le> p"
  shows "8000 \<le> q"
proof -
  have "plausible_ports reserved \<longrightarrow> 8000 \<le> p \<longrightarrow> 8000 \<le> fst r"
    if "port_loop p reserved draws = Some r" for r
  proof (rule port_loop.raw_induct [where P = "\<lambda>p reserved draws r.
      plausible_ports reserved \<longrightarrow> 8000 \<le> p \<longrightarrow> 8000 \<le> fst r", OF _ that])
    fix f :: "uint \<Rightarrow> uint list \<Rightarrow> nat stream \<Rightarrow> (uint \<times> nat stream) option" and p reserved draws r
    assume IH: "\<And>p reserved draws r. f p reserved draws = Some r \<Longrightarrow>
        plausible_ports reserved \<longrightarrow> 8000 \<le> p \<longrightarrow> 8000 \<le> fst r"
      and eq: "(if inArray p reserved then f (u64 (p + shd draws mod 1000)) reserved (stl draws)
        else if p > 65535 then f 8000 reserved draws else Some (p, draws)) = Some r"
    show "plausible_ports reserved \<longrightarrow> 8000 \<le> p \<longrightarrow> 8000 \<le> fst r"
    proof (intro impI)
      assume plausible: "plausible_ports reserved" and low: "8000 \<le> p"
      show "8000 \<le> fst r"
      proof (cases "p \<in> set reserved")
        case True
        have "shd draws mod 1000 < 1000" by simp
        moreover have "p < 2 ^ 64 - 1000" using True plausible by (simp add: plausible_ports_def)
        ultimately have "p + shd draws mod 1000 < 2 ^ 64" by linarith
        then have "u64 (p + shd draws mod 1000) = p + shd draws mod 1000" by (rule u64_id)
        with True eq IH plausible low show ?thesis by fastforce
      next
        case False
        with eq IH plausible low show ?thesis by (auto split: if_splits)
      qed
    qed
  qed
  with assms show ?thesis by auto
qed

lemma first_port_range:
  "highest \<le> 65535 \<Longrightarrow> 9000 \<le> first_port highest draw \<and> first_port highest draw \<le> 67534"
proof -
  assume "highest \<le> 65535"
  moreover have "draw mod 2000 < 2000" by simp
  ultimately have sum: "highest + draw mod 2000 \<le> 67534" by linarith
  then have id: "u64 (highest + draw mod 2000) = highest + draw mod 2000" by (intro u64_id) simp
  then show ?thesis using sum by (simp add: first_port_def Let_def u64_id)
qed

section \<open>When the search returns\<close>

lemma port_loop_here: "p \<notin> set reserved \<Longrightarrow> p \<le> 65535 \<Longrightarrow> port_loop p reserved draws = Some (p, draws)"
  by (simp add: port_loop.simps)

lemma port_loop_restart:
  "p \<notin> set reserved \<Longrightarrow> 65535 < p \<Longrightarrow> port_loop p reserved draws = port_loop 8000 reserved draws"
  by (subst port_loop.simps) simp

lemma port_loop_no_high_reserved:
  assumes "\<forall>q \<in> set reserved. q < 8000" and "8000 \<le> p"
  shows "\<exists>q. port_loop p reserved draws = Some (q, draws)"
proof (cases "p \<le> 65535")
  case True
  moreover have "p \<notin> set reserved" using assms by fastforce
  ultimately show ?thesis using port_loop_here by blast
next
  case False
  with assms show ?thesis
    using port_loop_restart [of p reserved draws] port_loop_here [of 8000 reserved draws] by fastforce
qed

text \<open>
  With reserved ports anywhere, the search returns if the port it restarts from is free and no draw
  is zero: it then moves up past every reserved port.
\<close>

lemma port_loop_returns:
  assumes "\<forall>q \<in> set reserved. q \<le> 65535" and "8000 \<notin> set reserved"
    and "\<forall>n. draws !! n mod 1000 \<noteq> 0"
  shows "\<exists>r. port_loop p reserved draws = Some r"
  using assms(3)
proof (induction "65536 - p" arbitrary: p draws rule: less_induct)
  case less
  have restart: "\<exists>r. port_loop 8000 reserved draws = Some r" for draws
    using port_loop_here [of 8000 reserved draws] assms(2) by simp
  show ?case
  proof (cases "p \<in> set reserved")
    case True
    let ?p = "p + shd draws mod 1000"
    have bound: "p \<le> 65535" using True assms(1) by blast
    have pos: "shd draws mod 1000 \<noteq> 0" using less.prems [rule_format, of 0] by simp
    have "shd draws mod 1000 < 1000" by simp
    with bound have "?p < 2 ^ 64" by simp
    then have "u64 ?p = ?p" by (rule u64_id)
    moreover have "\<exists>r. port_loop ?p reserved (stl draws) = Some r"
    proof (rule less.hyps)
      show "65536 - ?p < 65536 - p" using bound pos by linarith
      show "\<forall>n. stl draws !! n mod 1000 \<noteq> 0" using less.prems by (metis snth.simps(2))
    qed
    ultimately show ?thesis using True by (subst port_loop.simps) simp
  next
    case False
    then show ?thesis
      using port_loop_here [of p reserved draws] port_loop_restart [of p reserved draws] restart
      by (cases "p \<le> 65535") auto
  qed
qed

section \<open>When it cannot\<close>

lemma port_loop_exhausted:
  assumes "{8000..65535} \<subseteq> set reserved" and "plausible_ports reserved" and "8000 \<le> p"
  shows "port_loop p reserved draws = None"
proof (rule ccontr)
  assume "port_loop p reserved draws \<noteq> None"
  then obtain q draws' where "port_loop p reserved draws = Some (q, draws')" by auto
  then have "q \<notin> set reserved" "q \<le> 65535" "8000 \<le> q"
    using port_loop_free port_loop_low [OF _ assms(2,3)] by blast+
  with assms(1) show False by auto
qed

section \<open>\<open>selectPort\<close>\<close>

text \<open>The highest port handed out on a host is a port.\<close>

definition ports_sane :: "default_scheduler \<Rightarrow> bool" where
  "ports_sane s \<longleftrightarrow> (\<forall>n. max_port s n \<le> 65535)"

lemma ports_sane_new [simp]: "ports_sane NewDefaultScheduler"
  by (simp add: ports_sane_def max_port_def NewDefaultScheduler_def)

lemma selectPort_cases:
  assumes "selectPort t s draws = Returns (p, s', draws')"
  obtains h where "lookup (ds_hosts s) (tk_Host t) = Some h"
    and "port_loop (first_port (max_port s (ho_Name h)) (shd draws)) (ho_ReservedPorts h) (stl draws) =
           Some (p, draws')"
    and "s' = s\<lparr>ds_maxPort := insert_key (ho_Name h) p (ds_maxPort s)\<rparr>"
  using assms by (auto simp: selectPort_def split: option.splits)

lemma selectPort_frame [frame_simps]:
  "selectPort t s draws = Returns (p, s', draws') \<Longrightarrow> ds_hosts s' = ds_hosts s \<and> ds_cluster s' = ds_cluster s"
  by (erule selectPort_cases) simp

lemma selectPort_sane:
  "selectPort t s draws = Returns (p, s', draws') \<Longrightarrow> ports_sane s \<Longrightarrow> ports_sane s'"
  by (erule selectPort_cases) (auto simp: ports_sane_def max_port_def dest: port_loop_free)

lemma selectPort_no_panic: "\<not> host_gone s t \<Longrightarrow> selectPort t s draws \<noteq> Panics"
  by (auto simp: selectPort_def host_gone_def split: option.splits)

lemma selectPort_range: "selectPort t s draws = Returns (p, s', draws') \<Longrightarrow> p \<le> 65535"
  by (erule selectPort_cases) (auto dest: port_loop_free)

lemma listed_ports_insert: "listed_ports pp \<Longrightarrow> p \<le> 65535 \<Longrightarrow> listed_ports (sorted_map (insert_key k p pp))"
  by (fastforce simp: listed_ports_def ran_def split: if_splits)

lemma provide_ports_frame [frame_simps]:
  "provide_ports ps t s draws = Returns (t', s') \<Longrightarrow>
   ds_hosts s' = ds_hosts s \<and> ds_cluster s' = ds_cluster s \<and>
   (\<exists>pp. t' = t\<lparr>tk_ProvidedPorts := pp\<rparr> \<and> (listed_ports (tk_ProvidedPorts t) \<longrightarrow> listed_ports pp))"
proof (induction ps t s draws rule: provide_ports.induct)
  case (1 t s draws)
  then show ?case by (auto intro!: exI [of _ "tk_ProvidedPorts t"])
next
  case (2 p ps t s draws)
  then show ?case
    by (fastforce simp: bind_outcome_Returns_iff listed_ports_insert split: if_splits dest: selectPort_frame selectPort_range)
qed

lemma provide_ports_sane:
  "provide_ports ps t s draws = Returns (t', s') \<Longrightarrow> ports_sane s \<Longrightarrow> ports_sane s'"
  by (induction ps t s draws rule: provide_ports.induct)
    (fastforce simp: bind_outcome_Returns_iff split: if_splits dest: selectPort_sane)+

text \<open>Without a port left open in the task definition there is nothing to search for.\<close>

lemma provide_ports_none:
  "\<forall>p \<in> set ps. pm_Host p \<noteq> 0 \<Longrightarrow> provide_ports ps t s draws = Returns (t, s)"
  by (induction ps) auto

lemma provide_ports_no_panic: "\<not> host_gone s t \<Longrightarrow> provide_ports ps t s draws \<noteq> Panics"
proof (induction ps arbitrary: t s draws)
  case Nil
  then show ?case by simp
next
  case (Cons p ps)
  show ?case
  proof (cases "selectPort t s draws")
    case (Returns r)
    obtain q s' draws' where r: "r = (q, s', draws')" by (cases r)
    have "\<not> host_gone s' (t\<lparr>tk_ProvidedPorts := pp\<rparr>)" for pp
      using selectPort_frame [OF Returns [unfolded r]] Cons.prems by (simp add: host_gone_def)
    then show ?thesis using Cons Returns r by simp
  qed (use Cons selectPort_no_panic in auto)
qed

lemma selectPort_returns:
  assumes host: "lookup (ds_hosts s) (tk_Host t) = Some h" and sane: "ports_sane s"
    and free: "\<forall>q \<in> set (ho_ReservedPorts h). q < 8000"
  shows "\<exists>p s' draws'. selectPort t s draws = Returns (p, s', draws')"
proof -
  have "8000 \<le> first_port (max_port s (ho_Name h)) (shd draws)"
    using first_port_range [of "max_port s (ho_Name h)" "shd draws"] sane by (simp add: ports_sane_def)
  then obtain q where
    "port_loop (first_port (max_port s (ho_Name h)) (shd draws)) (ho_ReservedPorts h) (stl draws) =
       Some (q, stl draws)"
    using port_loop_no_high_reserved [OF free] by blast
  with host show ?thesis by (simp add: selectPort_def)
qed

lemma provide_ports_returns:
  assumes "lookup (ds_hosts s) (tk_Host t) = Some h" and "ports_sane s"
    and "\<forall>q \<in> set (ho_ReservedPorts h). q < 8000"
  shows "\<exists>t' s'. provide_ports ps t s draws = Returns (t', s')"
  using assms
proof (induction ps arbitrary: t s draws)
  case Nil
  then show ?case by simp
next
  case (Cons p ps)
  obtain q s' draws' where sel: "selectPort t s draws = Returns (q, s', draws')"
    using selectPort_returns [OF Cons.prems] by blast
  have "ds_hosts s' = ds_hosts s" "ports_sane s'"
    using selectPort_frame [OF sel] selectPort_sane [OF sel] Cons.prems(2) by auto
  then show ?case using Cons sel by auto
qed

end
