(* ===== verification/Scheduler_Hosts.thy ===== *)
theory Scheduler_Hosts
  imports Default_Scheduler
begin

text \<open>
  The hosts of the scheduler: what \<open>syncHosts\<close> keeps, that \<open>selectHost\<close> finds a host exactly when a
  task fits on one, and what placing a task does to the figures of its host.
\<close>

section \<open>The table of hosts\<close>

definition hosts_keyed :: "default_scheduler \<Rightarrow> bool" where
  "hosts_keyed s \<longleftrightarrow> keyed_by ho_Name (ds_hosts s)"

lemma hosts_keyed_new [simp]: "hosts_keyed NewDefaultScheduler"
  by (simp add: hosts_keyed_def NewDefaultScheduler_def)

lemma hosts_keyed_lookup: "hosts_keyed s \<Longrightarrow> lookup (ds_hosts s) n = Some h \<Longrightarrow> ho_Name h = n"
  by (auto simp: hosts_keyed_def dest: keyed_by_lookup)

lemma sync_hosts_keyed: "keyed_by ho_Name m \<Longrightarrow> keyed_by ho_Name (fold sync_host hs m)"
  by (rule fold_invariant [where P = "keyed_by ho_Name"]) (simp_all add: sync_host_def)

text \<open>
  A sync writes the hosts that are not draining; the entry of every other host stays what it was, also
  when the host is draining now or is gone.
\<close>

lemma sync_hosts_lookup_other:
  "\<forall>h \<in> set hs. ho_Name h = n \<longrightarrow> ho_Draining h \<Longrightarrow> lookup (fold sync_host hs m) n = lookup m n"
  by (induction hs arbitrary: m) (auto simp: sync_host_def)

lemma sync_hosts_lookup_live:
  "distinct (map ho_Name hs) \<Longrightarrow> h \<in> set hs \<Longrightarrow> \<not> ho_Draining h \<Longrightarrow>
   lookup (fold sync_host hs m) (ho_Name h) = Some h"
proof (induction hs arbitrary: m)
  case Nil
  then show ?case by simp
next
  case (Cons g hs)
  show ?case
  proof (cases "h = g")
    case True
    with Cons.prems have "ho_Name h \<notin> ho_Name ` set hs" by simp
    then have "\<forall>k \<in> set hs. ho_Name k = ho_Name h \<longrightarrow> ho_Draining k" by (metis imageI)
    with Cons.prems True show ?thesis by (simp add: sync_hosts_lookup_other) (simp add: sync_host_def)
  next
    case False
    with Cons show ?thesis by simp
  qed
qed

lemma sync_hosts_dom: "dom (lookup m) \<subseteq> dom (lookup (fold sync_host hs m))"
  by (rule fold_invariant [where P = "\<lambda>m'. dom (lookup m) \<subseteq> dom (lookup m')"]) (auto simp: sync_host_def)

lemma sync_hosts_all:
  "\<forall>h \<in> set hs. P h \<Longrightarrow> \<forall>h \<in> ran (lookup m). P h \<Longrightarrow> \<forall>h \<in> ran (lookup (fold sync_host hs m)). P h"
proof (rule fold_invariant [where P = "\<lambda>m. \<forall>h \<in> ran (lookup m). P h"])
  fix h and m :: "(string, host) gomap"
  assume "\<forall>h \<in> set hs. P h" and "h \<in> set hs" and "\<forall>h \<in> ran (lookup m). P h"
  then show "\<forall>h \<in> ran (lookup (sync_host h m)). P h" by (auto simp: sync_host_def ran_def)
qed

section \<open>Which hosts a task fits on\<close>

definition has_room :: "task \<Rightarrow> host \<Rightarrow> bool" where
  "has_room t h \<longleftrightarrow>
     (let cn = Counts (tk_TaskDefinition t); r = ho_CalculatedResources h in
      0 \<le> w64 (rs_Memory r - cn_Memory cn) \<and> 0 \<le> w64 (rs_CpuUnits r - cn_CpuUnits cn) \<and>
      0 \<le> w64 (rs_DiskSpace r - cn_DiskUse cn))"

lemma task_ports_AllPorts: "set (AllPorts td) = {pm_Host p |p. p \<in> set (task_ports td) \<and> pm_Host p \<noteq> 0}"
  unfolding set_eq_iff AllPorts_iff by (auto simp: task_ports_def)

lemma matchHost_None_iff:
  "matchHost t h = None \<longleftrightarrow>
     has_room t h \<and> set (AllPorts (tk_TaskDefinition t)) \<inter> set (ho_ReservedPorts h) = {}"
proof -
  have "find (\<lambda>p. pm_Host p \<noteq> 0 \<and> inArray (pm_Host p) (ho_ReservedPorts h))
          (task_ports (tk_TaskDefinition t)) = None \<longleftrightarrow>
        set (AllPorts (tk_TaskDefinition t)) \<inter> set (ho_ReservedPorts h) = {}"
    by (auto simp: find_None_iff task_ports_AllPorts inArray_def list_ex_iff)
  then show ?thesis
    by (auto simp: matchHost_def has_room_def Let_def not_less split: option.splits)
qed

lemma select_loop_found:
  "select_loop hosts t rs errs = (n, errs') \<Longrightarrow> n \<noteq> '''' \<Longrightarrow>
   \<exists>k cand. lookup hosts k = Some cand \<and> matchHost t cand = None \<and> ho_Name cand = n"
  by (induction hosts t rs errs rule: select_loop.induct) (auto split: option.splits)

lemma select_loop_none:
  "fst (select_loop hosts t rs errs) = '''' \<Longrightarrow> r \<in> set rs \<Longrightarrow> lookup hosts (rk_Name r) = Some cand \<Longrightarrow>
   \<forall>h \<in> ran (lookup hosts). ho_Name h \<noteq> '''' \<Longrightarrow> matchHost t cand \<noteq> None"
  by (induction hosts t rs errs rule: select_loop.induct) (auto simp: ran_def split: option.splits)

lemma ranker_cases:
  "(case lookup rankers name of Some rk \<Rightarrow> rk | None \<Rightarrow> SpreadRanker) = SpreadRanker \<or>
   (case lookup rankers name of Some rk \<Rightarrow> rk | None \<Rightarrow> SpreadRanker) = PackRanker"
  by (auto simp: rankers_def)

lemma ranker_names:
  "keyed_by ho_Name hosts \<Longrightarrow>
   rk_Name ` set ((case lookup rankers name of Some rk \<Rightarrow> rk | None \<Rightarrow> SpreadRanker) ord hosts) =
     dom (lookup hosts)"
  using ranker_cases [of name] rank_names_keyed by (metis SpreadRanker_def PackRanker_def)

lemma selectHost_found:
  assumes "keyed_by ho_Name hosts" and "fst (selectHost ord hosts name t) \<noteq> ''''"
  shows "\<exists>h. lookup hosts (fst (selectHost ord hosts name t)) = Some h \<and> matchHost t h = None"
proof -
  obtain n errs where "selectHost ord hosts name t = (n, errs)" by (cases "selectHost ord hosts name t")
  with assms select_loop_found [of hosts t _ "[]" n errs] show ?thesis
    by (fastforce simp: selectHost_def dest: keyed_by_lookup)
qed

lemma selectHost_none:
  assumes "keyed_by ho_Name hosts" and "fst (selectHost ord hosts name t) = ''''"
    and "lookup hosts n = Some h" and "lookup hosts '''' = None"
  shows "matchHost t h \<noteq> None"
proof -
  let ?rk = "case lookup rankers name of Some rk \<Rightarrow> rk | None \<Rightarrow> SpreadRanker"
  have "n \<in> rk_Name ` set (?rk ord hosts)"
    unfolding ranker_names [OF assms(1)] using assms(3) by blast
  then obtain r where "r \<in> set (?rk ord hosts)" "rk_Name r = n" by blast
  moreover have "\<forall>h \<in> ran (lookup hosts). ho_Name h \<noteq> ''''"
    using assms(4) keyed_by_lookup [OF assms(1)] by (force simp: ran_def)
  ultimately show ?thesis
    using select_loop_none [of hosts t "?rk ord hosts" "[]" r h] assms by (simp add: selectHost_def)
qed

section \<open>Placing a task on a host\<close>

text \<open>
  A host is in order when no figure is negative and no port is reserved twice. Placing a task where it
  fits keeps a host in order; in a sum that wraps around, the test and the update wrap alike.
\<close>

definition nonneg :: "host \<Rightarrow> bool" where
  "nonneg h \<longleftrightarrow> (let r = ho_CalculatedResources h in
     0 \<le> rs_Memory r \<and> 0 \<le> rs_CpuUnits r \<and> 0 \<le> rs_DiskSpace r)"

lemma place_on_fields [frame_simps, simp]:
  "ho_Name (place_on t h) = ho_Name h"
  "ho_Draining (place_on t h) = ho_Draining h"
  "ho_ReservedPorts (place_on t h) = ho_ReservedPorts h @ AllPorts (tk_TaskDefinition t)"
  by (simp_all add: place_on_def Let_def)

lemma place_on_resources [simp]:
  "rs_Memory (ho_CalculatedResources (place_on t h)) =
     w64 (rs_Memory (ho_CalculatedResources h) - cn_Memory (Counts (tk_TaskDefinition t)))"
  "rs_CpuUnits (ho_CalculatedResources (place_on t h)) =
     w64 (rs_CpuUnits (ho_CalculatedResources h) - cn_CpuUnits (Counts (tk_TaskDefinition t)))"
  "rs_DiskSpace (ho_CalculatedResources (place_on t h)) =
     w64 (rs_DiskSpace (ho_CalculatedResources h) - cn_DiskUse (Counts (tk_TaskDefinition t)))"
  by (simp_all add: place_on_def Let_def)

lemma place_on_nonneg: "has_room t h \<Longrightarrow> nonneg (place_on t h)"
  by (simp add: nonneg_def has_room_def Let_def)

lemma place_on_distinct:
  "matchHost t h = None \<Longrightarrow> distinct (ho_ReservedPorts h) \<Longrightarrow> distinct (AllPorts (tk_TaskDefinition t)) \<Longrightarrow>
   distinct (ho_ReservedPorts (place_on t h))"
  by (auto simp: matchHost_None_iff)

lemma updateHost_cases:
  assumes "updateHost t s = Returns s'"
  obtains h where "lookup (ds_hosts s) (tk_Host t) = Some h"
    and "s' = s\<lparr>ds_hosts := insert_key (tk_Host t) (place_on t h) (ds_hosts s)\<rparr>"
  using assms by (auto simp: updateHost_def split: option.splits)

lemma updateHost_returns: "lookup (ds_hosts s) (tk_Host t) = Some h \<Longrightarrow>
   updateHost t s = Returns (s\<lparr>ds_hosts := insert_key (tk_Host t) (place_on t h) (ds_hosts s)\<rparr>)"
  by (simp add: updateHost_def)

lemma updateHost_keyed: "updateHost t s = Returns s' \<Longrightarrow> hosts_keyed s \<Longrightarrow> hosts_keyed s'"
proof (erule updateHost_cases)
  fix h
  assume keyed: "hosts_keyed s" and h: "lookup (ds_hosts s) (tk_Host t) = Some h"
    and s': "s' = s\<lparr>ds_hosts := insert_key (tk_Host t) (place_on t h) (ds_hosts s)\<rparr>"
  have "ho_Name (place_on t h) = tk_Host t" using hosts_keyed_lookup [OF keyed h] by simp
  with keyed s' show "hosts_keyed s'"
    using keyed_by_insert [of ho_Name "ds_hosts s" "place_on t h"] by (simp add: hosts_keyed_def)
qed

lemma updateHost_dom: "updateHost t s = Returns s' \<Longrightarrow> dom (lookup (ds_hosts s')) = dom (lookup (ds_hosts s))"
  by (erule updateHost_cases) auto

text \<open>A property of all hosts, kept because the placed task fits on its host.\<close>

lemma updateHost_all:
  assumes "updateHost t s = Returns s'" and "\<forall>h \<in> ran (lookup (ds_hosts s)). P h"
    and "\<And>h. lookup (ds_hosts s) (tk_Host t) = Some h \<Longrightarrow> P h \<Longrightarrow> P (place_on t h)"
  shows "\<forall>h \<in> ran (lookup (ds_hosts s')). P h"
  using assms(1)
proof (rule updateHost_cases)
  fix h
  assume h: "lookup (ds_hosts s) (tk_Host t) = Some h"
    and s': "s' = s\<lparr>ds_hosts := insert_key (tk_Host t) (place_on t h) (ds_hosts s)\<rparr>"
  have "P (place_on t h)" using assms(2,3) h by (meson ranI)
  with assms(2) s' show ?thesis by (auto simp: ran_def)
qed

end
