(* ===== verification/Schedule_Steps.thy ===== *)
theory Schedule_Steps
  imports Scheduler_Ports Scheduler_Hosts
begin

text \<open>
  One call of \<open>Schedule\<close> changes its variables in two ways only: it drops a task that was listed at the
  start, or it issues a new task on a host that the task fits on. This theory proves that once, as a
  rule for invariants of a call, so that a property of \<open>Schedule\<close> needs one proof per kind of step.
\<close>

section \<open>The map of listed tasks\<close>

lemma task_map_map_of: "lookup (task_map ts) = map_of (rev (map (\<lambda>t. (task_ID t, t)) ts))"
proof -
  have "lookup (fold (\<lambda>t. insert_key (task_ID t) t) ts m) =
      lookup m ++ map_of (rev (map (\<lambda>t. (task_ID t, t)) ts))" for m
    by (induction ts arbitrary: m) simp_all
  then show ?thesis by (simp add: task_map_def)
qed

lemma task_map_lookup:
  assumes "distinct (map task_ID ts)"
  shows "lookup (task_map ts) k = Some t \<longleftrightarrow> t \<in> set ts \<and> task_ID t = k"
proof -
  have "distinct (map fst (rev (map (\<lambda>t. (task_ID t, t)) ts)))"
    using assms by (simp add: rev_map [symmetric] o_def)
  then show ?thesis by (auto simp: task_map_map_of)
qed

lemma task_map_dom: "dom (lookup (task_map ts)) = task_ID ` set ts"
proof -
  have "dom (lookup (fold (\<lambda>t. insert_key (task_ID t) t) ts m)) = task_ID ` set ts \<union> dom (lookup m)" for m
    by (induction ts arbitrary: m) auto
  then show ?thesis by (simp add: task_map_def)
qed

lemma task_map_len: "distinct (map task_ID ts) \<Longrightarrow> map_len (task_map ts) = length ts"
  unfolding map_len_card task_map_dom by (metis distinct_card length_map list.set_map)

lemma task_map_key: "lookup (task_map ts) k = Some t \<Longrightarrow> task_ID t = k"
proof -
  have "keyed_by task_ID (fold (\<lambda>t. insert_key (task_ID t) t) ts [])"
    by (rule fold_invariant [where P = "keyed_by task_ID"]) simp_all
  then show "lookup (task_map ts) k = Some t \<Longrightarrow> task_ID t = k"
    by (auto simp: task_map_def dest: keyed_by_lookup)
qed

section \<open>Issuing a task\<close>

text \<open>A new task for instance \<open>i\<close>, on a host it fits on, and the scheduler after the host is charged.\<close>

definition placement ::
  "cluster \<Rightarrow> task_definition \<Rightarrow> deployment \<Rightarrow> int \<Rightarrow> default_scheduler \<Rightarrow> task \<Rightarrow> default_scheduler \<Rightarrow> bool" where
  "placement cl td d i s t s' \<longleftrightarrow>
     (\<exists>h pp. t = (NewTask cl td d i)\<lparr>tk_Host := tk_Host t, tk_ProvidedPorts := pp, tk_Scheduled := True\<rparr> \<and>
        lookup (ds_hosts s) (tk_Host t) = Some h \<and> tk_Host t \<noteq> '''' \<and> matchHost t h = None \<and>
        ds_hosts s' = insert_key (tk_Host t) (place_on t h) (ds_hosts s) \<and> listed_ports pp) \<and>
     ds_cluster s' = ds_cluster s \<and> (ports_sane s \<longrightarrow> ports_sane s')"

lemma matchHost_cong:
  "tk_TaskDefinition t = tk_TaskDefinition t' \<Longrightarrow> matchHost t h = matchHost t' h"
  by (simp add: matchHost_def Let_def)

lemma place_on_cong:
  "tk_TaskDefinition t = tk_TaskDefinition t' \<Longrightarrow> place_on t h = place_on t' h"
  by (simp add: place_on_def)

lemma placement_shape:
  "placement cl td d i s t s' \<Longrightarrow>
   \<exists>pp. t = (NewTask cl td d i)\<lparr>tk_Host := tk_Host t, tk_ProvidedPorts := pp, tk_Scheduled := True\<rparr> \<and> listed_ports pp"
  by (auto simp: placement_def)

text \<open>The task a placement makes.\<close>

lemma placement_task:
  assumes "placement cl td d i s t s'"
  shows "tk_Cluster t = cl_Name cl" "tk_Deployment t = dp_Name d" "tk_TaskDefinition t = td"
    "tk_Instance t = i" "tk_Scheduled t" "\<not> tk_Rejected t" "\<not> host_gone s t" "tk_Host t \<noteq> ''''"
    "task_ID t = task_ID (NewTask cl td d i)"
proof -
  obtain pp h where t: "t = (NewTask cl td d i)\<lparr>tk_Host := tk_Host t, tk_ProvidedPorts := pp, tk_Scheduled := True\<rparr>"
    and h: "lookup (ds_hosts s) (tk_Host t) = Some h" "tk_Host t \<noteq> ''''"
    using assms by (auto simp: placement_def)
  show "tk_Cluster t = cl_Name cl" "tk_Deployment t = dp_Name d" "tk_TaskDefinition t = td"
    "tk_Instance t = i" "tk_Scheduled t" "\<not> tk_Rejected t"
    by (subst t, simp add: NewTask_def)+
  show "\<not> host_gone s t" "tk_Host t \<noteq> ''''" using h by (simp_all add: host_gone_def)
  show "task_ID t = task_ID (NewTask cl td d i)" by (subst t) simp
qed

lemma placement_update:
  assumes "placement cl td d i s t s'"
  obtains s0 where "updateHost t s0 = Returns s'" "ds_hosts s0 = ds_hosts s"
proof -
  obtain h where h: "lookup (ds_hosts s) (tk_Host t) = Some h"
    "ds_hosts s' = insert_key (tk_Host t) (place_on t h) (ds_hosts s)"
    using assms by (auto simp: placement_def)
  show ?thesis
  proof
    show "updateHost t (s'\<lparr>ds_hosts := ds_hosts s\<rparr>) = Returns s'"
      using h by (simp add: updateHost_returns flip: h(2))
  qed simp
qed

lemma placement_keyed: "placement cl td d i s t s' \<Longrightarrow> hosts_keyed s \<Longrightarrow> hosts_keyed s'"
  by (erule placement_update) (auto simp: hosts_keyed_def dest: updateHost_keyed [unfolded hosts_keyed_def])

lemma placement_dom: "placement cl td d i s t s' \<Longrightarrow> dom (lookup (ds_hosts s')) = dom (lookup (ds_hosts s))"
  by (erule placement_update) (simp add: updateHost_dom)

lemma placement_gone:
  assumes "placement cl td d i s t s'"
  shows "host_gone s' u = host_gone s u"
  using placement_dom [OF assms] by (metis host_gone_def domIff)

lemma place_task_cases:
  assumes run: "place_task api ch cl td d i (s, p) = Returns (s', p')" and keyed: "hosts_keyed s"
  obtains (present) "lookup (pg_taskMap p) (MakeTaskId cl d i) \<noteq> None" "s' = s" "p' = p"
    | (no_host) "lookup (pg_taskMap p) (MakeTaskId cl d i) = None"
        "fst (selectHost (sc_hosts ch i) (ds_hosts s) (dp_Scheduler d) (NewTask cl td d i)) = ''''" "s' = s" "p' = p"
    | (issued) t where "lookup (pg_taskMap p) (MakeTaskId cl d i) = None" "placement cl td d i s t s'"
        "p' = issue_task api t p"
proof (cases "lookup (pg_taskMap p) (MakeTaskId cl d i)")
  case (Some t)
  show ?thesis by (rule present) (use run Some in \<open>simp_all add: place_task_def\<close>)
next
  case None
  let ?n = "fst (selectHost (sc_hosts ch i) (ds_hosts s) (dp_Scheduler d) (NewTask cl td d i))"
  show ?thesis
  proof (cases "?n = ''''")
    case True
    show ?thesis by (rule no_host) (use run None True in \<open>simp_all add: place_task_def Let_def\<close>)
  next
    case False
    obtain h where h: "lookup (ds_hosts s) ?n = Some h" "matchHost (NewTask cl td d i) h = None"
      using selectHost_found keyed False unfolding hosts_keyed_def by blast
    from run None False obtain t1 s1 where ports:
        "provide_ports (task_ports td) ((NewTask cl td d i)\<lparr>tk_Host := ?n\<rparr>) s (sc_draws ch i) = Returns (t1, s1)"
      and upd: "updateHost (t1\<lparr>tk_Scheduled := True\<rparr>) s1 = Returns s'"
      and p': "p' = issue_task api (t1\<lparr>tk_Scheduled := True\<rparr>) p"
      by (auto simp: place_task_def Let_def bind_outcome_Returns_iff)
    obtain pp where t1: "t1 = (NewTask cl td d i)\<lparr>tk_Host := ?n, tk_ProvidedPorts := pp\<rparr>"
      and pp: "listed_ports pp"
      and s1: "ds_hosts s1 = ds_hosts s" "ds_cluster s1 = ds_cluster s" "ports_sane s \<longrightarrow> ports_sane s1"
      using provide_ports_frame [OF ports] provide_ports_sane [OF ports] by (auto simp: NewTask_def listed_ports_def)
    let ?t = "t1\<lparr>tk_Scheduled := True\<rparr>"
    have "matchHost ?t h = None" using h(2) matchHost_cong [of ?t "NewTask cl td d i"] by (simp add: t1)
    then have "placement cl td d i s ?t s'"
      using upd h(1) False s1 pp
      by (elim updateHost_cases) (auto simp: placement_def t1 ports_sane_def max_port_def)
    with None p' issued show ?thesis by blast
  qed
qed

section \<open>The rule for invariants of a call\<close>

lemma drop_task_map [simp]:
  "pg_taskMap (drop_task api k t p) = delete_key k (pg_taskMap p)"
  "pg_removed (drop_task api k t p) = pg_removed p + 1"
  "pg_backend (drop_task api k t p) = fst (PutTask api (t\<lparr>tk_Scheduled := False\<rparr>) (pg_backend p))"
  "pg_added (drop_task api k t p) = pg_added p"
  by (simp_all add: drop_task_def)

lemma issue_task_map [simp]:
  "pg_taskMap (issue_task api t p) = insert_key (task_ID t) t (pg_taskMap p)"
  "pg_removed (issue_task api t p) = pg_removed p"
  "pg_backend (issue_task api t p) = fst (PutTask api t (pg_backend p))"
  "pg_added (issue_task api t p) = pg_added p + 1"
  by (simp_all add: issue_task_def)

lemma map_le_delete: "lookup m' \<subseteq>\<^sub>m f \<Longrightarrow> lookup (delete_key k m') \<subseteq>\<^sub>m f"
  by (auto simp: map_le_def)

lemma map_le_restrict [simp]: "f \<subseteq>\<^sub>m g \<Longrightarrow> f(k := None) \<subseteq>\<^sub>m g"
  by (auto simp: map_le_def)

lemma map_le_Some: "f \<subseteq>\<^sub>m g \<Longrightarrow> f k = Some v \<Longrightarrow> g k = Some v"
  by (metis domI map_le_def)

text \<open>Dropping tasks that were in the map \<open>m\<close>, for a property of the variables of the call.\<close>

definition drops_keep :: "'b scheduler_api \<Rightarrow> (string \<Rightarrow> task option) \<Rightarrow> ('b progress \<Rightarrow> bool) \<Rightarrow> bool" where
  "drops_keep api m P \<longleftrightarrow> (\<forall>p k t. m k = Some t \<longrightarrow> P p \<longrightarrow> P (drop_task api k t p))"

lemma cleanup_task_keeps:
  assumes "drops_keep api m P" and "P p \<and> lookup (pg_taskMap p) \<subseteq>\<^sub>m m"
  shows "P (cleanup_task api s d n k p) \<and> lookup (pg_taskMap (cleanup_task api s d n k p)) \<subseteq>\<^sub>m m"
proof (cases "lookup (pg_taskMap p) k")
  case None
  with assms show ?thesis by (simp add: cleanup_task_def)
next
  case (Some t)
  then have "m k = Some t" using assms(2) by (auto simp: map_le_Some)
  then have "P (drop_task api k t q)" if "P q" for q using assms(1) that by (simp add: drops_keep_def)
  then show ?thesis using assms(2) Some by (auto simp: cleanup_task_def Let_def map_le_delete)
qed

lemma cleanup_keeps:
  assumes "drops_keep api m P" and "P p" and "lookup (pg_taskMap p) \<subseteq>\<^sub>m m"
  shows "P (cleanup api ord s d n p) \<and> lookup (pg_taskMap (cleanup api ord s d n p)) \<subseteq>\<^sub>m m"
  unfolding cleanup_def
  by (rule fold_invariant [where P = "\<lambda>p. P p \<and> lookup (pg_taskMap p) \<subseteq>\<^sub>m m"])
    (use assms cleanup_task_keeps [OF assms(1)] in auto)

lemma scale_down_keeps:
  assumes "drops_keep api m P" and "P p" and "lookup (pg_taskMap p) \<subseteq>\<^sub>m m"
  shows "P (scale_down api cl d l i p) \<and> lookup (pg_taskMap (scale_down api cl d l i p)) \<subseteq>\<^sub>m m"
  using assms
proof (induction api cl d l i p rule: scale_down.induct)
  case (1 api cl d l i p)
  show ?case
  proof (cases "i > l")
    case False
    with "1.prems" show ?thesis by (subst (1 2) scale_down.simps) simp
  next
    case True
    let ?k = "MakeTaskId cl d i"
    let ?q = "case lookup (pg_taskMap p) ?k of Some t \<Rightarrow> drop_task api ?k t p | None \<Rightarrow> p"
    have "P ?q \<and> lookup (pg_taskMap ?q) \<subseteq>\<^sub>m m"
    proof (cases "lookup (pg_taskMap p) ?k")
      case (Some t)
      then have "m ?k = Some t" using "1.prems"(3) by (auto simp: map_le_Some)
      with Some "1.prems" show ?thesis by (simp add: drops_keep_def map_le_delete)
    qed (use "1.prems" in simp)
    with "1.IH" True "1.prems"(1) show ?thesis by (subst (1 2) scale_down.simps) simp
  qed
qed

lemma scaled_down_keeps:
  assumes "drops_keep api m P" and "P p" and "lookup (pg_taskMap p) \<subseteq>\<^sub>m m"
  shows "P (scaled_down api cl d n p) \<and> lookup (pg_taskMap (scaled_down api cl d n p)) \<subseteq>\<^sub>m m"
  using assms scale_down_keeps [OF assms] by (simp add: scaled_down_def)

text \<open>What the clean-up leaves in the map: tasks on known hosts that were not rejected.\<close>

definition in_place :: "default_scheduler \<Rightarrow> task \<Rightarrow> bool" where
  "in_place s t \<longleftrightarrow> \<not> host_gone s t \<and> \<not> tk_Rejected t"

lemma cleanup_task_other: "j \<noteq> k \<Longrightarrow> lookup (pg_taskMap (cleanup_task api s d n k p)) j = lookup (pg_taskMap p) j"
  by (simp add: cleanup_task_def Let_def split: option.splits)

lemma cleanup_task_self:
  "lookup (pg_taskMap (cleanup_task api s d n k p)) k = Some t \<Longrightarrow> in_place s t"
  by (auto simp: cleanup_task_def in_place_def Let_def split: option.splits if_splits)

lemma cleanup_loop_other:
  "k \<notin> set ks \<Longrightarrow> lookup (pg_taskMap (fold (cleanup_task api s d n) ks p)) k = lookup (pg_taskMap p) k"
  by (induction ks arbitrary: p) (auto simp: cleanup_task_other)

lemma cleanup_loop_in_place:
  "distinct ks \<Longrightarrow> k \<in> set ks \<Longrightarrow>
   lookup (pg_taskMap (fold (cleanup_task api s d n) ks p)) k = Some t \<Longrightarrow> in_place s t"
proof (induction ks arbitrary: p)
  case (Cons j ks)
  then show ?case by (cases "k = j") (auto simp: cleanup_loop_other dest: cleanup_task_self)
qed simp

lemma cleanup_in_place:
  assumes "lookup (pg_taskMap (cleanup api ord s d n p)) k = Some t"
  shows "in_place s t"
proof -
  have "drops_keep api (lookup (pg_taskMap p)) (\<lambda>_. True)" by (simp add: drops_keep_def)
  then have "lookup (pg_taskMap (cleanup api ord s d n p)) \<subseteq>\<^sub>m lookup (pg_taskMap p)"
    using cleanup_keeps [of api "lookup (pg_taskMap p)" "\<lambda>_. True"] by simp
  then have "lookup (pg_taskMap p) k = Some t" using assms by (rule map_le_Some)
  then have "k \<in> set (range_keys ord (pg_taskMap p))" by auto
  with assms show ?thesis using cleanup_loop_in_place [OF distinct_range_keys] unfolding cleanup_def by blast
qed

lemma scaled_down_le: "lookup (pg_taskMap (scaled_down api cl d n p)) \<subseteq>\<^sub>m lookup (pg_taskMap p)"
  using scaled_down_keeps [of api "lookup (pg_taskMap p)" "\<lambda>_. True"] by (simp add: drops_keep_def)

text \<open>The loop over the missing instances, for a property of the scheduler and the variables.\<close>

lemma scale_up_invariant:
  assumes "scale_up api ch cl td d is (s, p) = Returns (s', p')" and "hosts_keyed s" and "Q s p"
    and issue: "\<And>s s' p i t. i \<in> set is \<Longrightarrow> Q s p \<Longrightarrow> hosts_keyed s \<Longrightarrow>
      lookup (pg_taskMap p) (MakeTaskId cl d i) = None \<Longrightarrow> placement cl td d i s t s' \<Longrightarrow>
      Q s' (issue_task api t p)"
  shows "Q s' p' \<and> hosts_keyed s'"
  using assms
proof (induction "is" arbitrary: s p)
  case (Cons i "is")
  obtain s1 p1 where step: "place_task api ch cl td d i (s, p) = Returns (s1, p1)"
    and rest: "scale_up api ch cl td d is (s1, p1) = Returns (s', p')"
    using Cons.prems(1) by (auto simp: bind_outcome_Returns_iff)
  have "Q s1 p1 \<and> hosts_keyed s1"
    using step Cons.prems(2)
  proof (cases rule: place_task_cases)
    case (issued t)
    have "Q s1 (issue_task api t p)"
      using Cons.prems(2,3) issued by (intro Cons.prems(4)) auto
    with issued Cons.prems(2) show ?thesis by (auto intro: placement_keyed)
  qed (use Cons.prems in auto)
  with rest show ?case by (intro Cons.IH [OF rest]) (auto intro: Cons.prems(4))
qed simp

lemma rebalance_invariant:
  assumes run: "rebalance api ch cl td d ts s b = Returns (s', p')" and keyed: "hosts_keyed s"
    and init: "P \<lparr>pg_taskMap = task_map ts, pg_removed = 0, pg_added = 0, pg_backend = b\<rparr>"
    and drop: "drops_keep api (lookup (task_map ts)) P"
    and up: "\<And>p. P p \<Longrightarrow> lookup (pg_taskMap p) \<subseteq>\<^sub>m lookup (task_map ts) \<Longrightarrow>
      (\<And>k t. lookup (pg_taskMap p) k = Some t \<Longrightarrow> in_place s t) \<Longrightarrow> Q s p"
    and issue: "\<And>s s' p i t. 0 \<le> i \<Longrightarrow> i < dp_Desired d \<Longrightarrow> Q s p \<Longrightarrow> hosts_keyed s \<Longrightarrow>
      lookup (pg_taskMap p) (MakeTaskId cl d i) = None \<Longrightarrow> placement cl td d i s t s' \<Longrightarrow>
      Q s' (issue_task api t p)"
  shows "Q s' p' \<and> hosts_keyed s'"
proof -
  let ?p = "\<lparr>pg_taskMap = task_map ts, pg_removed = 0, pg_added = 0, pg_backend = b\<rparr>"
  let ?n = "int (length ts)"
  define p2 where "p2 = scaled_down api cl d ?n (cleanup api (sc_tasks ch) s d ?n ?p)"
  have P: "P p2 \<and> lookup (pg_taskMap p2) \<subseteq>\<^sub>m lookup (task_map ts)"
    unfolding p2_def
    using cleanup_keeps [OF drop, of ?p] scaled_down_keeps [OF drop] init by simp
  moreover have "in_place s t" if "lookup (pg_taskMap p2) k = Some t" for k t
    using map_le_Some [OF scaled_down_le that [unfolded p2_def]] by (rule cleanup_in_place)
  ultimately have Q: "Q s p2" by (intro up) auto
  from run have "(if ?n - pg_removed p2 < dp_Desired d
         then scale_up api ch cl td d [0..dp_Desired d - 1] (s, p2)
         else Returns (s, p2)) = Returns (s', p')"
    unfolding rebalance_def Let_def p2_def by simp
  then show ?thesis
  proof (cases "?n - pg_removed p2 < dp_Desired d")
    case True
    with \<open>(if _ then _ else _) = _\<close>
    have up: "scale_up api ch cl td d [0..dp_Desired d - 1] (s, p2) = Returns (s', p')" by simp
    show ?thesis by (rule scale_up_invariant [OF up keyed, of Q]) (use Q issue in auto)
  next
    case False
    with \<open>(if _ then _ else _) = _\<close> Q keyed show ?thesis by simp
  qed
qed

end
