(* ===== verification/Mock_Api.thy ===== *)
theory Mock_Api
  imports Scheduler_Api
begin

text \<open>
  The in-memory backend of src/backends/mock (also the backend "memory" of the command line): one Go
  map per kind of resource, subscriptions matched against event patterns, and locks kept in a map.
  Every operation takes the one mutex of the struct for its whole body, so it is one step. The
  structs handed in are stored and handed out as values; in the code they are pointers, so that what a
  caller does to a struct it was given before it puts it back, or without putting it back, shows in the
  store at once (the scheduler books new tasks on its hosts that way). The laws of \<open>Scheduler_Api\<close> are proved for
  all of its collections at the end.
\<close>

section \<open>State\<close>

text \<open>
  A subscriber has the pattern it listens on, the number of values its channel takes before a send
  would have to wait, and the events sent to it so far.
\<close>

record listener =
  ls_on :: string
  ls_room :: nat
  ls_sent :: "string list"

record mock =
  mk_clusters :: "(string, cluster) gomap"
  mk_services :: "(string, service) gomap"
  mk_taskDefinitions :: "(string, task_definition) gomap"
  mk_deployments :: "(string, deployment) gomap"
  mk_tasks :: "(string, task) gomap"
  mk_hosts :: "(string, host) gomap"
  mk_locks :: "(string, bool) gomap"
  mk_health :: "(string, task_state) gomap"
  mk_listeners :: "(string, listener) gomap"

definition NewMockApi :: mock where
  "NewMockApi = \<lparr>mk_clusters = [], mk_services = [], mk_taskDefinitions = [], mk_deployments = [],
     mk_tasks = [], mk_hosts = [], mk_locks = [], mk_health = [], mk_listeners = []\<rparr>"

section \<open>Events\<close>

text \<open>
  \<open>match\<close> walks the runes of the pattern. Its loop variable is the byte offset of the rune, and it
  indexes the decoded runes of the event with it.
\<close>

fun match_from :: "nat \<Rightarrow> (nat \<times> nat) list \<Rightarrow> nat list \<Rightarrow> bool" where
  "match_from idx [] evtR = True"
| "match_from idx ((char, width) # pat) evtR =
     (if char = 42 then True
      else if int idx > int (length evtR) - 1 then False
      else if char \<noteq> evtR ! idx then False
      else match_from (idx + width) pat evtR)"

definition event_match :: "string \<Rightarrow> string \<Rightarrow> bool" where
  "event_match key evt = match_from 0 (runes key) (map fst (runes evt))"

text \<open>A send that would have to wait is dropped.\<close>

definition offer :: "string \<Rightarrow> listener \<Rightarrow> listener" where
  "offer evt l = (if event_match (ls_on l) evt \<and> ls_room l > 0
     then l\<lparr>ls_room := ls_room l - 1, ls_sent := ls_sent l @ [evt]\<rparr> else l)"

definition mock_emit :: "string \<Rightarrow> mock \<Rightarrow> mock" where
  "mock_emit evt a = a\<lparr>mk_listeners := map (\<lambda>(k, l). (k, offer (''config::'' @ evt) l)) (mk_listeners a)\<rparr>"

definition mock_Subscribe :: "string \<Rightarrow> string \<Rightarrow> nat \<Rightarrow> mock \<Rightarrow> mock" where
  "mock_Subscribe key evt room a =
     a\<lparr>mk_listeners := insert_key key \<lparr>ls_on = evt, ls_room = room, ls_sent = []\<rparr> (mk_listeners a)\<rparr>"

definition mock_UnSubscribe :: "string \<Rightarrow> mock \<Rightarrow> mock" where
  "mock_UnSubscribe key a = a"

section \<open>The operations\<close>

definition get_or_not_found :: "(string, 'v) gomap \<Rightarrow> string \<Rightarrow> 'v reply" where
  "get_or_not_found m k = (case lookup m k of None \<Rightarrow> Fail ErrNotFound None | Some v \<Rightarrow> Ok v)"

definition mock_HostName :: "mock \<Rightarrow> string reply" where
  "mock_HostName a = Ok ''test''"

definition mock_ListClusters :: "map_order \<Rightarrow> mock \<Rightarrow> cluster list reply" where
  "mock_ListClusters ord a = Ok (range_values ord (mk_clusters a))"

definition mock_GetCluster :: "string \<Rightarrow> mock \<Rightarrow> cluster reply" where
  "mock_GetCluster k a = get_or_not_found (mk_clusters a) k"

definition mock_PutCluster :: "cluster \<Rightarrow> mock command" where
  "mock_PutCluster c a =
     (mock_emit (''clusters/'' @ cl_Name c) (a\<lparr>mk_clusters := insert_key (cl_Name c) c (mk_clusters a)\<rparr>), None)"

definition mock_DelCluster :: "string \<Rightarrow> mock command" where
  "mock_DelCluster k a = (a\<lparr>mk_clusters := delete_key k (mk_clusters a)\<rparr>, None)"

definition mock_ListDeployments :: "map_order \<Rightarrow> mock \<Rightarrow> deployment list reply" where
  "mock_ListDeployments ord a = Ok (range_values ord (mk_deployments a))"

definition mock_GetDeployment :: "string \<Rightarrow> mock \<Rightarrow> deployment reply" where
  "mock_GetDeployment k a = get_or_not_found (mk_deployments a) k"

definition mock_PutDeployment :: "deployment \<Rightarrow> mock command" where
  "mock_PutDeployment c a =
     (mock_emit (''deploments/'' @ dp_Name c)
        (a\<lparr>mk_deployments := insert_key (dp_Name c) c (mk_deployments a)\<rparr>), None)"

definition mock_DelDeployment :: "string \<Rightarrow> mock command" where
  "mock_DelDeployment k a = (a\<lparr>mk_deployments := delete_key k (mk_deployments a)\<rparr>, None)"

definition mock_ListServices :: "map_order \<Rightarrow> mock \<Rightarrow> service list reply" where
  "mock_ListServices ord a = Ok (range_values ord (mk_services a))"

definition mock_GetService :: "string \<Rightarrow> mock \<Rightarrow> service reply" where
  "mock_GetService k a = get_or_not_found (mk_services a) k"

definition mock_PutService :: "service \<Rightarrow> mock command" where
  "mock_PutService c a =
     (mock_emit (''services/'' @ sv_Name c) (a\<lparr>mk_services := insert_key (sv_Name c) c (mk_services a)\<rparr>), None)"

definition mock_DelService :: "string \<Rightarrow> mock command" where
  "mock_DelService k a = (a\<lparr>mk_services := delete_key k (mk_services a)\<rparr>, None)"

definition mock_ListTaskDefinitions :: "map_order \<Rightarrow> mock \<Rightarrow> task_definition list reply" where
  "mock_ListTaskDefinitions ord a = Ok (range_values ord (mk_taskDefinitions a))"

text \<open>The version asked for is not looked at: the map has one entry per name.\<close>

definition mock_GetTaskDefinition :: "string \<Rightarrow> uint \<Rightarrow> mock \<Rightarrow> task_definition reply" where
  "mock_GetTaskDefinition k ver a = get_or_not_found (mk_taskDefinitions a) k"

definition mock_PutTaskDefinition :: "task_definition \<Rightarrow> mock command" where
  "mock_PutTaskDefinition c a =
     (mock_emit (''task_defintions/'' @ td_Name c)
        (a\<lparr>mk_taskDefinitions := insert_key (td_Name c) c (mk_taskDefinitions a)\<rparr>), None)"

text \<open>Neither the cluster of the query nor that of a host is looked at.\<close>

definition mock_ListHosts :: "map_order \<Rightarrow> string \<Rightarrow> mock \<Rightarrow> host list reply" where
  "mock_ListHosts ord cl a = Ok (range_values ord (mk_hosts a))"

definition mock_GetHost :: "string \<Rightarrow> string \<Rightarrow> mock \<Rightarrow> host reply" where
  "mock_GetHost cl k a = get_or_not_found (mk_hosts a) k"

definition mock_PutHost :: "host \<Rightarrow> mock command" where
  "mock_PutHost c a =
     (mock_emit (''hosts/'' @ ho_Name c) (a\<lparr>mk_hosts := insert_key (ho_Name c) c (mk_hosts a)\<rparr>), None)"

definition mock_DelHost :: "string \<Rightarrow> string \<Rightarrow> mock command" where
  "mock_DelHost cl k a = (a\<lparr>mk_hosts := delete_key k (mk_hosts a)\<rparr>, None)"

definition mock_GetTask :: "string \<Rightarrow> mock \<Rightarrow> task reply" where
  "mock_GetTask k a = get_or_not_found (mk_tasks a) k"

definition mock_PutTask :: "task \<Rightarrow> mock command" where
  "mock_PutTask t a =
     (mock_emit (''tasks/'' @ task_ID t) (a\<lparr>mk_tasks := insert_key (task_ID t) t (mk_tasks a)\<rparr>), None)"

definition mock_DelTask :: "task \<Rightarrow> mock command" where
  "mock_DelTask t a =
     ((case lookup (mk_tasks a) (task_ID t) of
         Some _ \<Rightarrow> a\<lparr>mk_tasks := delete_key (task_ID t) (mk_tasks a)\<rparr>
       | None \<Rightarrow> a), None)"

text \<open>
  The loop of \<open>ListTasks\<close>. The method holds the read lock; when the query asks for health it calls
  \<open>GetTaskState\<close>, which waits for the write lock of the same mutex.
\<close>

fun mock_list_loop :: "task_query \<Rightarrow> task list \<Rightarrow> task list \<Rightarrow> task list reply" where
  "mock_list_loop q [] ts = Ok ts"
| "mock_list_loop q (t # rest) ts =
     (if tq_Failing q \<or> tq_Running q then Stops Blocked
      else if tq_Scheduled q \<and> \<not> tk_Scheduled t then mock_list_loop q rest ts
      else if tq_Rejected q \<and> \<not> tk_Rejected t then mock_list_loop q rest ts
      else if tq_ByHost q \<noteq> '''' \<and> tk_Host t \<noteq> tq_ByHost q then mock_list_loop q rest ts
      else if tq_ByCluster q \<noteq> '''' \<and> tq_ByCluster q \<noteq> tk_Cluster t then mock_list_loop q rest ts
      else if tq_ByDeployment q \<noteq> '''' \<and> tq_ByDeployment q \<noteq> tk_Deployment t then mock_list_loop q rest ts
      else mock_list_loop q rest (ts @ [t]))"

definition mock_ListTasks :: "map_order \<Rightarrow> task_query \<Rightarrow> mock \<Rightarrow> task list reply" where
  "mock_ListTasks ord q a = mock_list_loop q (range_values ord (mk_tasks a)) []"

definition mock_GetTaskState :: "task \<Rightarrow> mock \<Rightarrow> task_state reply" where
  "mock_GetTaskState t a =
     Ok (case lookup (mk_health a) (task_ID t) of None \<Rightarrow> '''' | Some s \<Rightarrow> s)"

definition mock_PutTaskState :: "string \<Rightarrow> task_state \<Rightarrow> mock command" where
  "mock_PutTaskState k s a = (a\<lparr>mk_health := insert_key k s (mk_health a)\<rparr>, None)"

definition mock_api :: "map_order \<Rightarrow> mock scheduler_api" where
  "mock_api ord = \<lparr>
     HostName = mock_HostName,
     ListClusters = mock_ListClusters ord, GetCluster = mock_GetCluster,
     PutCluster = mock_PutCluster, DelCluster = mock_DelCluster,
     ListDeployments = mock_ListDeployments ord, GetDeployment = mock_GetDeployment,
     PutDeployment = mock_PutDeployment, DelDeployment = mock_DelDeployment,
     ListTaskDefinitions = mock_ListTaskDefinitions ord, GetTaskDefinition = mock_GetTaskDefinition,
     PutTaskDefinition = mock_PutTaskDefinition,
     ListServices = mock_ListServices ord, PutService = mock_PutService,
     GetService = mock_GetService, DelService = mock_DelService,
     ListHosts = mock_ListHosts ord, GetHost = mock_GetHost,
     PutHost = mock_PutHost, DelHost = mock_DelHost,
     ListTasks = mock_ListTasks ord, PutTask = mock_PutTask, DelTask = mock_DelTask,
     GetTaskState = mock_GetTaskState, PutTaskState = mock_PutTaskState\<rparr>"

section \<open>Locks (src/backends/mock/mock_locking.go)\<close>

record mock_lock =
  ml_key :: string
  ml_held :: bool

definition NewMockLock :: "string \<Rightarrow> mock_lock" where
  "NewMockLock k = \<lparr>ml_key = k, ml_held = False\<rparr>"

definition mock_Lock :: "string \<Rightarrow> bool \<Rightarrow> mock \<Rightarrow> mock_lock reply" where
  "mock_Lock k block a = Ok (NewMockLock k)"

definition mock_LockIt :: "mock_lock \<Rightarrow> mock \<Rightarrow> (mock_lock \<times> mock) \<times> go_error option" where
  "mock_LockIt l a = ((l, a\<lparr>mk_locks := insert_key (ml_key l) True (mk_locks a)\<rparr>), None)"

definition mock_IsHeld :: "mock_lock \<Rightarrow> mock \<Rightarrow> bool" where
  "mock_IsHeld l a = (case lookup (mk_locks a) (ml_key l) of None \<Rightarrow> False | Some h \<Rightarrow> h)"

definition mock_UnlockIt :: "mock_lock \<Rightarrow> mock \<Rightarrow> (mock_lock \<times> mock) \<times> go_error option" where
  "mock_UnlockIt l a =
     ((l\<lparr>ml_held := False\<rparr>,
       if mock_IsHeld l a then a\<lparr>mk_locks := delete_key (ml_key l) (mk_locks a)\<rparr> else a), None)"

definition mock_locks :: "(mock, mock_lock) lock_api" where
  "mock_locks = \<lparr>NewLock = mock_Lock, LockIt = mock_LockIt, IsHeld = mock_IsHeld, UnlockIt = mock_UnlockIt\<rparr>"

section \<open>What an event pattern matches\<close>

lemma star_byte: "(of_char c :: nat) = 42 \<longleftrightarrow> c = CHR ''*''"
  using of_char_eq_iff [where 'a = nat, of c "CHR ''*''"] by simp

lemma match_from_bytes:
  "i \<le> length evt \<Longrightarrow>
   match_from i (map (\<lambda>c. (of_char c, 1)) pat) (map of_char evt) \<longleftrightarrow>
     prefix (takeWhile (\<lambda>c. c \<noteq> CHR ''*'') pat) (drop i evt)"
proof (induction pat arbitrary: i)
  case Nil
  then show ?case by simp
next
  case (Cons c pat)
  show ?case
  proof (cases "i < length evt")
    case True
    then have "drop i evt = evt ! i # drop (Suc i) evt" by (rule Cons_nth_drop_Suc [symmetric])
    with True show ?thesis
      using Cons.IH [of "Suc i"] by (auto simp: star_byte)
  next
    case False
    with Cons.prems show ?thesis by (auto simp: star_byte)
  qed
qed

lemma event_match_ascii:
  "ascii key \<Longrightarrow> ascii evt \<Longrightarrow>
   event_match key evt \<longleftrightarrow> prefix (takeWhile (\<lambda>c. c \<noteq> CHR ''*'') key) evt"
  using match_from_bytes [of 0 evt key] by (simp add: event_match_def runes_ascii comp_def)

section \<open>The laws of the interface\<close>

text \<open>Every map files its values under their own names.\<close>

definition mock_good :: "mock \<Rightarrow> bool" where
  "mock_good a \<longleftrightarrow>
     keyed_by cl_Name (mk_clusters a) \<and> keyed_by dp_Name (mk_deployments a) \<and>
     keyed_by sv_Name (mk_services a) \<and> keyed_by td_Name (mk_taskDefinitions a) \<and>
     keyed_by ho_Name (mk_hosts a) \<and> keyed_by task_ID (mk_tasks a)"

lemma mock_good_new [simp]: "mock_good NewMockApi"
  by (simp add: mock_good_def NewMockApi_def)

lemma mock_emit_fields [frame_simps, simp]:
  "mk_clusters (mock_emit e a) = mk_clusters a" "mk_deployments (mock_emit e a) = mk_deployments a"
  "mk_services (mock_emit e a) = mk_services a" "mk_taskDefinitions (mock_emit e a) = mk_taskDefinitions a"
  "mk_hosts (mock_emit e a) = mk_hosts a" "mk_tasks (mock_emit e a) = mk_tasks a"
  "mk_health (mock_emit e a) = mk_health a" "mk_locks (mock_emit e a) = mk_locks a"
  by (simp_all add: mock_emit_def)

lemma mock_good_emit [simp]: "mock_good (mock_emit e a) = mock_good a"
  by (simp add: mock_good_def)

lemmas mock_get_defs = mock_GetCluster_def mock_GetDeployment_def mock_GetService_def
  mock_GetTaskDefinition_def mock_GetHost_def mock_GetTask_def get_or_not_found_def
lemmas mock_put_defs = mock_PutCluster_def mock_PutDeployment_def mock_PutService_def
  mock_PutTaskDefinition_def mock_PutHost_def mock_PutTask_def mock_PutTaskState_def
lemmas mock_del_defs = mock_DelCluster_def mock_DelDeployment_def mock_DelService_def
  mock_DelHost_def mock_DelTask_def
lemmas mock_list_defs = mock_ListClusters_def mock_ListDeployments_def mock_ListServices_def
  mock_ListTaskDefinitions_def mock_ListHosts_def
lemmas mock_store_defs = mock_get_defs mock_put_defs mock_del_defs mock_list_defs mock_good_def

lemma mock_list_loop_selects:
  "\<not> tq_Failing q \<Longrightarrow> \<not> tq_Running q \<Longrightarrow>
   mock_list_loop q ts acc = Ok (acc @ filter (selects q PENDING) ts)"
  by (induction q ts acc rule: mock_list_loop.induct) (auto simp: selects_def)

interpretation clusters: deleting_store mock_good "\<lambda>a. lookup (mk_clusters a)" cl_Name
  "GetCluster (mock_api ord)" "ListClusters (mock_api ord)" "PutCluster (mock_api ord)"
  "DelCluster (mock_api ord)" for ord
  by unfold_locales
    (auto simp: mock_api_def mock_store_defs dest: keyed_by_lookup)

interpretation deployments: deleting_store mock_good "\<lambda>a. lookup (mk_deployments a)" dp_Name
  "GetDeployment (mock_api ord)" "ListDeployments (mock_api ord)" "PutDeployment (mock_api ord)"
  "DelDeployment (mock_api ord)" for ord
  by unfold_locales
    (auto simp: mock_api_def mock_store_defs dest: keyed_by_lookup)

interpretation services: deleting_store mock_good "\<lambda>a. lookup (mk_services a)" sv_Name
  "GetService (mock_api ord)" "ListServices (mock_api ord)" "PutService (mock_api ord)"
  "DelService (mock_api ord)" for ord
  by unfold_locales
    (auto simp: mock_api_def mock_store_defs dest: keyed_by_lookup)

interpretation hosts: deleting_store mock_good "\<lambda>a. lookup (mk_hosts a)" ho_Name
  "GetHost (mock_api ord) cl" "ListHosts (mock_api ord) cl" "PutHost (mock_api ord)"
  "DelHost (mock_api ord) cl" for ord cl
  by unfold_locales
    (auto simp: mock_api_def mock_store_defs dest: keyed_by_lookup)

interpretation task_definitions: keyed_store mock_good "\<lambda>a. lookup (mk_taskDefinitions a)" td_Name
  "\<lambda>k. GetTaskDefinition (mock_api ord) k ver" "ListTaskDefinitions (mock_api ord)"
  "PutTaskDefinition (mock_api ord)" for ord ver
  by unfold_locales
    (auto simp: mock_api_def mock_store_defs dest: keyed_by_lookup)

interpretation mock_tasks: task_backend mock_good "mock_api ord" "\<lambda>a. lookup (mk_tasks a)" "\<lambda>_. True" "\<lambda>_. True" for ord
proof unfold_locales
  fix a :: mock and q :: task_query
  assume good: "mock_good a" and q: "\<not> tq_Failing q" "\<not> tq_Running q"
  let ?ts = "filter (selects q PENDING) (range_values ord (mk_tasks a))"
  have "ListTasks (mock_api ord) q a = Ok ?ts"
    using q by (simp add: mock_api_def mock_ListTasks_def mock_list_loop_selects)
  moreover have "distinct (map task_ID ?ts)"
    using good by (intro distinct_map_filter) (simp add: mock_good_def range_values_keys)
  ultimately show "\<exists>ts. ListTasks (mock_api ord) q a = Ok ts \<and>
      set ts = {t \<in> ran (lookup (mk_tasks a)). selects q PENDING t} \<and> distinct (map task_ID ts)"
    by auto
qed (auto simp: mock_api_def mock_store_defs dest: keyed_by_lookup)

lemma mock_query_state:
  "tq_Failing q \<or> tq_Running q \<Longrightarrow> lookup (mk_tasks a) \<noteq> Map.empty \<Longrightarrow>
   mock_ListTasks ord q a = Stops Blocked"
proof -
  assume q: "tq_Failing q \<or> tq_Running q" and "lookup (mk_tasks a) \<noteq> Map.empty"
  then have "set (range_values ord (mk_tasks a)) \<noteq> {}" by (auto simp: ran_def fun_eq_iff)
  then obtain t ts where "range_values ord (mk_tasks a) = t # ts" by (cases "range_values ord (mk_tasks a)") auto
  with q show ?thesis by (simp add: mock_ListTasks_def)
qed

lemma calm_mock: "calm (mock_api ord) b"
proof -
  have "mock_list_loop q ts acc \<noteq> Stops Panicked" for q ts acc
    by (induction q ts acc rule: mock_list_loop.induct) simp_all
  then show ?thesis
    by (simp add: calm_def mock_api_def mock_list_defs mock_get_defs mock_ListTasks_def split: option.split)
qed

section \<open>Locks\<close>

lemma mock_IsHeld_after_Lock: "mock_IsHeld l (snd (fst (mock_LockIt l' a))) \<longleftrightarrow>
    ml_key l = ml_key l' \<or> mock_IsHeld l a"
  by (auto simp: mock_IsHeld_def mock_LockIt_def)

lemma mock_IsHeld_after_Unlock: "mock_IsHeld l (snd (fst (mock_UnlockIt l' a))) \<longleftrightarrow>
    ml_key l \<noteq> ml_key l' \<and> mock_IsHeld l a"
  by (auto simp: mock_IsHeld_def mock_UnlockIt_def split: option.splits if_splits)

end
