(* ===== verification/Schedule_Laws.thy ===== *)
theory Schedule_Laws
  imports Schedule_Steps Mock_Api
begin

text \<open>
  What a call of \<open>Schedule\<close> does to the backend and to the table of hosts, proved once for every backend
  that keeps the laws of \<open>task_backend\<close> and stated for the in-memory backend: errors write nothing, no
  task of another deployment is touched, what is issued afterwards stands on a known host, no host is
  promised more than it has, and the call returns.
\<close>

section \<open>The issued tasks of a deployment\<close>

definition own :: "cluster \<Rightarrow> deployment \<Rightarrow> task \<Rightarrow> bool" where
  "own cl d t \<longleftrightarrow> tk_Cluster t = cl_Name cl \<and> tk_Deployment t = dp_Name d"

definition issued :: "cluster \<Rightarrow> deployment \<Rightarrow> (string \<Rightarrow> task option) \<Rightarrow> string \<Rightarrow> task option" where
  "issued cl d v k =
     (case v k of None \<Rightarrow> None | Some t \<Rightarrow> if own cl d t \<and> tk_Scheduled t then Some t else None)"

definition named :: "cluster \<Rightarrow> deployment \<Rightarrow> bool" where
  "named cl d \<longleftrightarrow> cl_Name cl \<noteq> '''' \<and> dp_Name d \<noteq> ''''"

lemma issued_Some: "issued cl d v k = Some t \<longleftrightarrow> v k = Some t \<and> own cl d t \<and> tk_Scheduled t"
  by (auto simp: issued_def split: option.splits)

lemma issued_put [simp]:
  "issued cl d (v(k \<mapsto> t)) = (issued cl d v)(k := if own cl d t \<and> tk_Scheduled t then Some t else None)"
  by (auto simp: issued_def fun_eq_iff)

lemma list_query_selects:
  "named cl d \<Longrightarrow> selects (list_query cl d) st t \<longleftrightarrow> own cl d t \<and> tk_Scheduled t"
  by (auto simp: named_def selects_def list_query_def any_task_def own_def)

lemma own_scheduled [simp]: "own cl d (t\<lparr>tk_Scheduled := x\<rparr>) = own cl d t"
  by (simp add: own_def)

lemma placement_own: "placement cl td d i s t s' \<Longrightarrow> own cl d t \<and> tk_Scheduled t"
  by (simp add: own_def placement_task)

section \<open>The shape of a call\<close>

lemma Schedule_run:
  assumes "Schedule api ch d s b = Returns (None, s', b')"
  obtains cl td ts s1 p where "ds_cluster s = Some cl" and "syncHosts api b s = Returns (None, s1)"
    and "GetTaskDefinition api (dp_TaskName d) (dp_TaskVersion d) b = Ok td"
    and "ListTasks api (list_query cl d) b = Ok ts"
    and "rebalance api ch cl td d ts s1 b = Returns (s', p)" and "b' = pg_backend p"
  using assms
  by (auto simp: Schedule_def bind_outcome_Returns_iff split: option.splits if_splits reply.splits)

lemma syncHosts_run:
  assumes "syncHosts api b s = Returns (None, s1)"
  obtains cl hs where "ds_cluster s = Some cl" and "ListHosts api (cl_Name cl) b = Ok hs"
    and "s1 = s\<lparr>ds_hosts := fold sync_host hs (ds_hosts s)\<rparr>"
  using assms by (auto simp: syncHosts_def split: option.splits reply.splits)

lemma syncHosts_keyed: "syncHosts api b s = Returns (e, s1) \<Longrightarrow> hosts_keyed s \<Longrightarrow> hosts_keyed s1"
  by (auto simp: syncHosts_def hosts_keyed_def sync_hosts_keyed split: option.splits reply.splits)

lemma syncHosts_maxPort: "syncHosts api b s = Returns (e, s1) \<Longrightarrow> ds_maxPort s1 = ds_maxPort s"
  by (auto simp: syncHosts_def split: option.splits reply.splits)

text \<open>A call that reports an error has written nothing.\<close>

lemma Schedule_error_frame:
  "Schedule api ch d s b = Returns (Some e, s', b') \<Longrightarrow> b' = b"
  by (auto simp: Schedule_def bind_outcome_Returns_iff split: option.splits if_splits reply.splits)

section \<open>No call panics\<close>

lemma place_task_no_panic:
  assumes keyed: "hosts_keyed s"
  shows "place_task api ch cl td d i (s, p) \<noteq> Panics"
proof (cases "lookup (pg_taskMap p) (MakeTaskId cl d i)")
  case None
  let ?n = "fst (selectHost (sc_hosts ch i) (ds_hosts s) (dp_Scheduler d) (NewTask cl td d i))"
  let ?t = "(NewTask cl td d i)\<lparr>tk_Host := ?n\<rparr>"
  show ?thesis
  proof (cases "?n = ''''")
    case False
    then obtain h where h: "lookup (ds_hosts s) ?n = Some h"
      using selectHost_found keyed unfolding hosts_keyed_def by blast
    then have "provide_ports (task_ports td) ?t s (sc_draws ch i) \<noteq> Panics"
      by (intro provide_ports_no_panic) (simp add: host_gone_def)
    moreover have "updateHost (t1\<lparr>tk_Scheduled := True\<rparr>) s1 \<noteq> Panics"
      if "provide_ports (task_ports td) ?t s (sc_draws ch i) = Returns (t1, s1)" for t1 s1
      using provide_ports_frame [OF that] h by (auto simp: updateHost_def)
    ultimately show ?thesis
      using None False
      by (cases "provide_ports (task_ports td) ?t s (sc_draws ch i)")
        (auto simp: place_task_def Let_def updateHost_def split: option.splits)
  qed (simp add: place_task_def Let_def None)
qed (simp add: place_task_def)

lemma place_task_keyed:
  "place_task api ch cl td d i (s, p) = Returns (s', p') \<Longrightarrow> hosts_keyed s \<Longrightarrow> hosts_keyed s'"
  by (erule (1) place_task_cases) (auto intro: placement_keyed)

lemma scale_up_no_panic:
  "hosts_keyed s \<Longrightarrow> scale_up api ch cl td d is (s, p) \<noteq> Panics"
proof (induction "is" arbitrary: s p)
  case (Cons i "is")
  show ?case
  proof (cases "place_task api ch cl td d i (s, p)")
    case (Returns st)
    obtain s1 p1 where st: "st = (s1, p1)" by (cases st)
    then have "hosts_keyed s1" using Returns Cons.prems by (auto intro: place_task_keyed)
    with st Returns show ?thesis by (simp add: Cons.IH)
  next
    case Panics
    then show ?thesis using place_task_no_panic [OF Cons.prems, of api ch cl td d i p] by simp
  next
    case Hangs
    then show ?thesis by simp
  qed
qed simp

lemma bind_outcome_Panics_iff:
  "bind_outcome r f = Panics \<longleftrightarrow> r = Panics \<or> (\<exists>x. r = Returns x \<and> f x = Panics)"
  by (cases r) auto

lemma Schedule_no_panic:
  assumes keyed: "hosts_keyed s" and calm: "calm api b"
  shows "Schedule api ch d s b \<noteq> Panics"
proof (cases "ds_cluster s")
  case (Some cl)
  have reb: "rebalance api ch cl td d ts s1 b \<noteq> Panics" if "hosts_keyed s1" for td ts s1
    by (simp add: rebalance_def Let_def scale_up_no_panic [OF that])
  have "hosts_keyed (s\<lparr>ds_hosts := fold sync_host hs (ds_hosts s)\<rparr>)" for hs
    using keyed by (simp add: hosts_keyed_def sync_hosts_keyed)
  from reb [OF this] calm show ?thesis
    by (cases "ListHosts api (cl_Name cl) b")
      (auto simp: Schedule_def syncHosts_def Some bind_outcome_Panics_iff calm_def split: reply.splits)
qed (simp add: Schedule_def)

section \<open>The rule for a call\<close>

definition mirror ::
  "('b \<Rightarrow> bool) \<Rightarrow> ('b \<Rightarrow> string \<Rightarrow> task option) \<Rightarrow> cluster \<Rightarrow> deployment \<Rightarrow> 'b progress \<Rightarrow> bool" where
  "mirror good tasks cl d p \<longleftrightarrow>
     good (pg_backend p) \<and> lookup (pg_taskMap p) = issued cl d (tasks (pg_backend p))"

context task_backend begin

lemma listed:
  assumes "good b" and "named cl d" and "ListTasks api (list_query cl d) b = Ok ts"
  shows "distinct (map task_ID ts)" and "lookup (task_map ts) = issued cl d (tasks b)"
    and "length ts = card (dom (issued cl d (tasks b)))"
proof -
  have q: "\<not> tq_Failing (list_query cl d)" "\<not> tq_Running (list_query cl d)"
    by (simp_all add: list_query_def any_task_def)
  from ListTasks_selects [OF assms(1) q] assms(2,3)
  have ts: "set ts = {t \<in> ran (tasks b). own cl d t \<and> tk_Scheduled t}" and dist: "distinct (map task_ID ts)"
    by (auto simp: list_query_selects)
  show "distinct (map task_ID ts)" by (rule dist)
  show eq: "lookup (task_map ts) = issued cl d (tasks b)"
  proof
    fix k
    have "lookup (task_map ts) k = Some t \<longleftrightarrow> issued cl d (tasks b) k = Some t" for t
      unfolding task_map_lookup [OF dist] issued_Some ts
      using stored_task_ID [OF assms(1)] tasks_key [OF assms(1)] by (auto intro: ranI)
    then show "lookup (task_map ts) k = issued cl d (tasks b) k"
      by (metis not_Some_eq)
  qed
  then show "length ts = card (dom (issued cl d (tasks b)))"
    using task_map_len [OF dist] by (simp add: map_len_card)
qed

lemma issued_fine: "good b \<Longrightarrow> issued cl d (tasks b) k = Some t \<Longrightarrow> fine (t\<lparr>tk_Scheduled := False\<rparr>)"
  by (auto simp: issued_Some dest: tasks_fine fine_unscheduled)

lemma mirror_drop:
  assumes "mirror good tasks cl d p" and "issued cl d (tasks b) k = Some t" and "good b"
  shows "mirror good tasks cl d (drop_task api k t p)"
proof -
  have "task_ID t = k" using assms(2,3) by (auto simp: issued_Some dest: tasks_key)
  moreover have "fine (t\<lparr>tk_Scheduled := False\<rparr>)" by (rule issued_fine [OF assms(3,2)])
  ultimately show ?thesis using assms by (simp add: mirror_def PutTask_good PutTask_tasks)
qed

lemma placement_fine:
  assumes "good b" and "GetTaskDefinition api n v b = Ok td" and "sane d" and "0 \<le> i" and "i < dp_Desired d"
    and "placement cl td d i s t s'"
  shows "fine t"
  using placement_shape [OF assms(6)] fine_new [OF assms(1-5)] by metis

lemma mirror_issue:
  assumes "mirror good tasks cl d p" and "placement cl td d i s t s'" and "fine t"
  shows "mirror good tasks cl d (issue_task api t p)"
  using assms placement_own [OF assms(2)] by (simp add: mirror_def PutTask_good PutTask_tasks)

lemma Schedule_invariant:
  assumes run: "Schedule api ch d s b = Returns (None, s', b')" and good: "good b"
    and keyed: "hosts_keyed s" and cl: "ds_cluster s = Some cl" and named: "named cl d" and sane: "sane d"
    and init: "\<And>p. pg_backend p = b \<Longrightarrow> pg_removed p = 0 \<Longrightarrow> mirror good tasks cl d p \<Longrightarrow> P p"
    and drop: "\<And>p k t. issued cl d (tasks b) k = Some t \<Longrightarrow> mirror good tasks cl d p \<Longrightarrow> P p \<Longrightarrow>
      P (drop_task api k t p)"
    and up: "\<And>p s1. syncHosts api b s = Returns (None, s1) \<Longrightarrow> P p \<Longrightarrow> mirror good tasks cl d p \<Longrightarrow>
      (\<And>k t. lookup (pg_taskMap p) k = Some t \<Longrightarrow> issued cl d (tasks b) k = Some t \<and> in_place s1 t) \<Longrightarrow> Q s1 p"
    and issue: "\<And>s1 s2 p i t td. GetTaskDefinition api (dp_TaskName d) (dp_TaskVersion d) b = Ok td \<Longrightarrow>
      0 \<le> i \<Longrightarrow> i < dp_Desired d \<Longrightarrow> Q s1 p \<Longrightarrow> mirror good tasks cl d p \<Longrightarrow>
      lookup (pg_taskMap p) (MakeTaskId cl d i) = None \<Longrightarrow> placement cl td d i s1 t s2 \<Longrightarrow> fine t \<Longrightarrow>
      Q s2 (issue_task api t p)"
  obtains p where "b' = pg_backend p" "mirror good tasks cl d p" "Q s' p" "hosts_keyed s'"
proof -
  from run cl obtain td ts s1 p where sync: "syncHosts api b s = Returns (None, s1)"
    and td: "GetTaskDefinition api (dp_TaskName d) (dp_TaskVersion d) b = Ok td"
    and ts: "ListTasks api (list_query cl d) b = Ok ts"
    and reb: "rebalance api ch cl td d ts s1 b = Returns (s', p)" and b': "b' = pg_backend p"
    by (auto elim: Schedule_run)
  note ts = listed [OF good named ts]
  have "(mirror good tasks cl d p \<and> Q s' p) \<and> hosts_keyed s'"
  proof (rule rebalance_invariant [OF reb syncHosts_keyed [OF sync keyed],
        where P = "\<lambda>p. mirror good tasks cl d p \<and> P p" and Q = "\<lambda>s p. mirror good tasks cl d p \<and> Q s p"])
    let ?p = "\<lparr>pg_taskMap = task_map ts, pg_removed = 0, pg_added = 0, pg_backend = b\<rparr>"
    have "mirror good tasks cl d ?p" using ts good by (simp add: mirror_def)
    then show "mirror good tasks cl d ?p \<and> P ?p" by (auto intro: init)
    show "drops_keep api (lookup (task_map ts)) (\<lambda>p. mirror good tasks cl d p \<and> P p)"
      using mirror_drop [OF _ _ good] drop by (simp add: drops_keep_def ts)
  next
    fix p
    assume "mirror good tasks cl d p \<and> P p" and "lookup (pg_taskMap p) \<subseteq>\<^sub>m lookup (task_map ts)"
      and "\<And>k t. lookup (pg_taskMap p) k = Some t \<Longrightarrow> in_place s1 t"
    then show "mirror good tasks cl d p \<and> Q s1 p"
      using up [OF sync, of p] by (simp add: ts map_le_Some)
  next
    fix s1 s2 p i t
    assume "0 \<le> i" and "i < dp_Desired d" and "mirror good tasks cl d p \<and> Q s1 p"
      and "lookup (pg_taskMap p) (MakeTaskId cl d i) = None" and "placement cl td d i s1 t s2"
    then show "mirror good tasks cl d (issue_task api t p) \<and> Q s2 (issue_task api t p)"
      using issue [OF td, of i s1 p t s2] placement_fine [OF good td sane] by (simp add: mirror_issue)
  qed
  with b' that show ?thesis by blast
qed

end

end
