(* ===== verification/Schedule_Returns.thy ===== *)
theory Schedule_Returns
  imports Schedule_Laws
begin

text \<open>
  Every call of \<open>Schedule\<close> comes back, with an error exactly when the cluster, the hosts or the task
  definition are missing. What can keep a call from coming back is the search for a port: either the
  task definition leaves no port open, or the reserved ports lie below the range that is searched.
\<close>

section \<open>The search for ports comes back\<close>

definition low_ports :: "(string, host) gomap \<Rightarrow> bool" where
  "low_ports hosts \<longleftrightarrow> (\<forall>h \<in> ran (lookup hosts). \<forall>q \<in> set (ho_ReservedPorts h). q < 8000)"

definition searchable :: "task_definition \<Rightarrow> default_scheduler \<Rightarrow> bool" where
  "searchable td s \<longleftrightarrow>
     (\<forall>p \<in> set (task_ports td). pm_Host p \<noteq> 0) \<or>
     (ports_sane s \<and> low_ports (ds_hosts s) \<and> (\<forall>q \<in> set (AllPorts td). q < 8000))"

lemma searchable_placement:
  assumes "placement cl td d i s t s'" and "searchable td s"
  shows "searchable td s'"
proof -
  have td: "tk_TaskDefinition t = td" using assms(1) by (rule placement_task)
  have "low_ports (ds_hosts s')" if "low_ports (ds_hosts s)" and "\<forall>q \<in> set (AllPorts td). q < 8000"
    by (rule placement_update [OF assms(1)], unfold low_ports_def, erule updateHost_all)
      (use that td in \<open>auto simp: low_ports_def\<close>)
  moreover have "ports_sane s \<Longrightarrow> ports_sane s'" using assms(1) by (simp add: placement_def)
  ultimately show ?thesis using assms(2) by (auto simp: searchable_def)
qed

lemma place_task_returns:
  assumes keyed: "hosts_keyed s" and "searchable td s"
  shows "\<exists>st. place_task api ch cl td d i (s, p) = Returns st"
proof (cases "lookup (pg_taskMap p) (MakeTaskId cl d i)")
  case None
  let ?n = "fst (selectHost (sc_hosts ch i) (ds_hosts s) (dp_Scheduler d) (NewTask cl td d i))"
  let ?t = "(NewTask cl td d i)\<lparr>tk_Host := ?n\<rparr>"
  show ?thesis
  proof (cases "?n = ''''")
    case False
    then obtain h where h: "lookup (ds_hosts s) ?n = Some h"
      using selectHost_found keyed unfolding hosts_keyed_def by blast
    have "\<exists>t1 s1. provide_ports (task_ports td) ?t s (sc_draws ch i) = Returns (t1, s1)"
      using assms(2) unfolding searchable_def
    proof
      assume "\<forall>p \<in> set (task_ports td). pm_Host p \<noteq> 0"
      then show ?thesis using provide_ports_none by blast
    next
      assume "ports_sane s \<and> low_ports (ds_hosts s) \<and> (\<forall>q \<in> set (AllPorts td). q < 8000)"
      with h show ?thesis by (intro provide_ports_returns [where h = h]) (auto simp: low_ports_def ran_def)
    qed
    then obtain t1 s1 where ports: "provide_ports (task_ports td) ?t s (sc_draws ch i) = Returns (t1, s1)" by blast
    then have "\<exists>s2. updateHost (t1\<lparr>tk_Scheduled := True\<rparr>) s1 = Returns s2"
      using provide_ports_frame [OF ports] h by (auto simp: updateHost_def)
    with ports None False show ?thesis by (auto simp: place_task_def Let_def)
  qed (simp add: place_task_def Let_def None)
qed (simp add: place_task_def)

lemma scale_up_returns:
  "hosts_keyed s \<Longrightarrow> searchable td s \<Longrightarrow> \<exists>st. scale_up api ch cl td d is (s, p) = Returns st"
proof (induction "is" arbitrary: s p)
  case (Cons i "is")
  obtain s1 p1 where step: "place_task api ch cl td d i (s, p) = Returns (s1, p1)"
    using place_task_returns [OF Cons.prems] by (metis surj_pair)
  have "searchable td s1"
    using step Cons.prems(1) by (cases rule: place_task_cases) (use Cons.prems in \<open>auto intro: searchable_placement\<close>)
  then have "\<exists>st. scale_up api ch cl td d is (s1, p1) = Returns st"
    using place_task_keyed [OF step Cons.prems(1)] by (intro Cons.IH)
  then show ?case using step by simp
qed simp

lemma rebalance_returns:
  "hosts_keyed s \<Longrightarrow> searchable td s \<Longrightarrow> \<exists>s' p. rebalance api ch cl td d ts s b = Returns (s', p)"
  using scale_up_returns [where api = api and s = s and td = td] by (simp add: rebalance_def Let_def)

section \<open>How a call ends\<close>

lemma Schedule_ends:
  assumes cl: "ds_cluster s = Some cl" and keyed: "hosts_keyed s"
    and hosts: "ListHosts api (cl_Name cl) b = Ok hs"
    and list: "ListTasks api (list_query cl d) b = Ok ts"
    and def: "\<And>how. GetTaskDefinition api (dp_TaskName d) (dp_TaskVersion d) b \<noteq> Stops how"
    and search: "\<And>td. GetTaskDefinition api (dp_TaskName d) (dp_TaskVersion d) b = Ok td \<Longrightarrow>
      searchable td (s\<lparr>ds_hosts := fold sync_host hs (ds_hosts s)\<rparr>)"
  shows "\<exists>err s' b'. Schedule api ch d s b = Returns (err, s', b') \<and>
    (err = None \<longleftrightarrow> fold sync_host hs (ds_hosts s) \<noteq> [] \<and>
      found (GetTaskDefinition api (dp_TaskName d) (dp_TaskVersion d) b))"
proof -
  let ?s = "s\<lparr>ds_hosts := fold sync_host hs (ds_hosts s)\<rparr>"
  have s: "hosts_keyed ?s" using keyed by (simp add: hosts_keyed_def sync_hosts_keyed)
  have sync: "syncHosts api b s = Returns (None, ?s)" by (simp add: syncHosts_def cl hosts)
  show ?thesis
  proof (cases "GetTaskDefinition api (dp_TaskName d) (dp_TaskVersion d) b")
    case (Ok td)
    obtain s' p where "rebalance api ch cl td d ts ?s b = Returns (s', p)"
      using rebalance_returns [OF s search [OF Ok], where api = api] by blast
    then show ?thesis by (simp add: Schedule_def cl sync list Ok found_def)
  next
    case (Fail e x)
    then show ?thesis by (simp add: Schedule_def cl sync found_def)
  qed (use def in simp)
qed

end
