(* ===== verification/Schedule_Counts.thy ===== *)
theory Schedule_Counts
  imports Schedule_Laws
begin

text \<open>
  How many tasks a call of \<open>Schedule\<close> leaves: a settled deployment is left alone, scaling down removes
  the highest instances, the minimum of the deployment is kept, and the desired number is reached when
  there is room. The loops are followed step by step on the variables of the call; the last section
  carries the results over to the backend.
\<close>

section \<open>Tasks the clean-up keeps\<close>

text \<open>The tasks in the map when none was lost or rejected.\<close>

definition all_in_place :: "default_scheduler \<Rightarrow> 'b progress \<Rightarrow> bool" where
  "all_in_place s p \<longleftrightarrow> (\<forall>k t. lookup (pg_taskMap p) k = Some t \<longrightarrow> in_place s t)"

lemma cleanup_task_in_place:
  assumes "all_in_place s p"
  shows "cleanup_task api s d n k p =
    (case lookup (pg_taskMap p) k of
       Some t \<Rightarrow> if outdated d n p t then drop_task api k t p else p
     | None \<Rightarrow> p)"
proof (cases "lookup (pg_taskMap p) k")
  case (Some t)
  then have "in_place s t" using assms by (auto simp: all_in_place_def)
  with Some show ?thesis by (simp add: cleanup_task_def in_place_def Let_def)
qed (simp add: cleanup_task_def)

lemma cleanup_idle:
  assumes "all_in_place s p" and "\<forall>t \<in> ran (lookup (pg_taskMap p)). \<not> outdated d n p t"
  shows "cleanup api ord s d n p = p"
  unfolding cleanup_def
  by (rule fold_invariant [where P = "\<lambda>q. q = p"])
    (use assms cleanup_task_in_place [OF assms(1)] in \<open>auto simp: ran_def split: option.splits\<close>)

section \<open>Counting\<close>

definition map_size :: "'b progress \<Rightarrow> nat" where
  "map_size p = card (dom (lookup (pg_taskMap p)))"

lemma map_size_drop:
  assumes "lookup (pg_taskMap p) k = Some t"
  shows "map_size p = Suc (map_size (drop_task api k u p))"
proof -
  have "k \<in> dom (lookup (pg_taskMap p))" using assms by blast
  from card.remove [OF finite_dom_map_of this] show ?thesis
    by (simp only: map_size_def drop_task_map lookup_delete_key dom_fun_upd refl if_True)
qed

lemma map_size_drop_le: "map_size p \<le> Suc (map_size (drop_task api k u p))"
proof (cases "lookup (pg_taskMap p) k")
  case (Some t)
  then show ?thesis using map_size_drop [of p k t api u] by simp
qed (simp add: map_size_def dom_fun_upd domIff)

lemma map_size_issue:
  "map_size p \<le> map_size (issue_task api t p)"
  by (simp add: map_size_def card_insert_if finite_dom_map_of)

text \<open>
  The counter of removed tasks is exact while every task is dropped once; the clean-up then stops
  taking off old versions at the minimum.
\<close>

definition exact :: "int \<Rightarrow> 'b progress \<Rightarrow> bool" where
  "exact n p \<longleftrightarrow> pg_removed p = n - int (map_size p)"

lemma exact_drop: "exact n p \<Longrightarrow> lookup (pg_taskMap p) k = Some t \<Longrightarrow> exact n (drop_task api k u p)"
  using map_size_drop [of p k t api u] by (simp add: exact_def)

lemma cleanup_minimum:
  fixes p :: "'b progress"
  assumes "all_in_place s p" and "exact n p" and "m \<le> int (map_size p)" and "m \<le> dp_Min d"
  shows "all_in_place s (cleanup api ord s d n p) \<and> exact n (cleanup api ord s d n p) \<and>
    m \<le> int (map_size (cleanup api ord s d n p))"
  unfolding cleanup_def
proof (rule fold_invariant [where P = "\<lambda>p. all_in_place s p \<and> exact n p \<and> m \<le> int (map_size p)"])
  fix k and p :: "'b progress"
  assume p: "all_in_place s p \<and> exact n p \<and> m \<le> int (map_size p)"
  show "all_in_place s (cleanup_task api s d n k p) \<and> exact n (cleanup_task api s d n k p) \<and>
    m \<le> int (map_size (cleanup_task api s d n k p))"
  proof (cases "\<exists>t. lookup (pg_taskMap p) k = Some t \<and> outdated d n p t")
    case True
    then obtain t where t: "lookup (pg_taskMap p) k = Some t" and out: "outdated d n p t" by blast
    have "cleanup_task api s d n k p = drop_task api k t p"
      using p t out by (simp add: cleanup_task_in_place)
    moreover have "dp_Min d < int (map_size p)" using out p by (simp add: outdated_def exact_def)
    ultimately show ?thesis
      using p t exact_drop [of n p k t api t] map_size_drop [OF t, of api t] assms(4)
      by (auto simp: all_in_place_def)
  next
    case False
    then have "cleanup_task api s d n k p = p"
      using p by (auto simp: cleanup_task_in_place split: option.splits)
    with p show ?thesis by simp
  qed
qed (use assms in simp)

section \<open>Scaling down\<close>

lemma scale_down_map:
  "lookup (pg_taskMap (scale_down api cl d l i p)) k =
    (if \<exists>j. l < j \<and> j \<le> i \<and> k = MakeTaskId cl d j then None else lookup (pg_taskMap p) k)"
proof (induction api cl d l i p rule: scale_down.induct)
  case (1 api cl d l i p)
  show ?case
  proof (cases "i > l")
    case False
    then show ?thesis by (subst scale_down.simps) auto
  next
    case True
    have split: "(\<exists>j. l < j \<and> j \<le> i \<and> k = MakeTaskId cl d j) \<longleftrightarrow>
        k = MakeTaskId cl d i \<or> (\<exists>j. l < j \<and> j \<le> i - 1 \<and> k = MakeTaskId cl d j)"
      using True by (metis order_le_less zle_diff1_eq)
    show ?thesis
      by (subst scale_down.simps, unfold split)
        (use True "1.IH" [OF True] in \<open>auto split: option.splits\<close>)
  qed
qed

lemma scale_down_counts:
  assumes "exact n p" and "l \<le> i"
  shows "exact n (scale_down api cl d l i p) \<and> int (map_size p) - (i - l) \<le> int (map_size (scale_down api cl d l i p))"
  using assms
proof (induction api cl d l i p rule: scale_down.induct)
  case (1 api cl d l i p)
  show ?case
  proof (cases "i > l")
    case False
    with "1.prems" show ?thesis by (subst (1 2) scale_down.simps) simp
  next
    case True
    let ?k = "MakeTaskId cl d i"
    let ?q = "case lookup (pg_taskMap p) ?k of Some t \<Rightarrow> drop_task api ?k t p | None \<Rightarrow> p"
    have "exact n ?q \<and> int (map_size p) - 1 \<le> int (map_size ?q)"
    proof (cases "lookup (pg_taskMap p) ?k")
      case (Some t)
      then show ?thesis using "1.prems"(1) map_size_drop [OF Some, of api t] by (simp add: exact_drop)
    qed (use "1.prems"(1) in simp)
    with True "1.IH" [OF True] show ?thesis by (subst (1 2) scale_down.simps) fastforce
  qed
qed

lemma scaled_down_minimum:
  assumes "exact n p" and "m \<le> int (map_size p)" and "m \<le> dp_Desired d" and "in_int64 (dp_Desired d - 1)"
  shows "exact n (scaled_down api cl d n p) \<and> m \<le> int (map_size (scaled_down api cl d n p))"
proof (cases "n - pg_removed p > dp_Desired d")
  case True
  moreover have "n - pg_removed p = int (map_size p)" using assms(1) by (simp add: exact_def)
  ultimately show ?thesis
    using assms scale_down_counts [OF assms(1), of "dp_Desired d - 1" "int (map_size p) - 1" api cl d]
    by (simp add: scaled_down_def w64_id)
qed (use assms in \<open>simp add: scaled_down_def\<close>)

section \<open>Scaling up\<close>

text \<open>
  A host has room for \<open>n\<close> more tasks when each figure covers \<open>n\<close> times what one task needs; a task
  definition without fixed ports then fits.
\<close>

definition room_for :: "task_definition \<Rightarrow> int \<Rightarrow> host \<Rightarrow> bool" where
  "room_for td n h \<longleftrightarrow>
     (let cn = Counts td; r = ho_CalculatedResources h in
      n * cn_Memory cn \<le> rs_Memory r \<and> n * cn_CpuUnits cn \<le> rs_CpuUnits r \<and> n * cn_DiskUse cn \<le> rs_DiskSpace r \<and>
      0 \<le> rs_Memory r \<and> 0 \<le> rs_CpuUnits r \<and> 0 \<le> rs_DiskSpace r \<and>
      in_int64 (rs_Memory r) \<and> in_int64 (rs_CpuUnits r) \<and> in_int64 (rs_DiskSpace r))"

definition roomy :: "task_definition \<Rightarrow> int \<Rightarrow> default_scheduler \<Rightarrow> bool" where
  "roomy td n s \<longleftrightarrow> lookup (ds_hosts s) '''' = None \<and> (\<exists>h \<in> ran (lookup (ds_hosts s)). room_for td n h)"

definition modest :: "task_definition \<Rightarrow> bool" where
  "modest td \<longleftrightarrow> AllPorts td = [] \<and> 0 \<le> cn_Memory (Counts td) \<and> 0 \<le> cn_CpuUnits (Counts td) \<and> 0 \<le> cn_DiskUse (Counts td)"

lemma w64_less:
  assumes "in_int64 a" and "0 \<le> c" and "c \<le> a"
  shows "w64 (a - c) = a - c" and "in_int64 (a - c)"
  using assms by (auto simp: in_int64_def intro!: w64_id)

lemma room_for_fits:
  assumes "room_for td n h" and "1 \<le> n" and "modest td" and "tk_TaskDefinition t = td"
  shows "matchHost t h = None" and "room_for td (n - 1) (place_on t h)"
proof -
  have le: "c \<le> n * c" if "0 \<le> c" for c :: int
    using mult_right_mono [OF assms(2) that] by simp
  note le = le [of "cn_Memory (Counts td)"] le [of "cn_CpuUnits (Counts td)"] le [of "cn_DiskUse (Counts td)"]
  have le: "cn_Memory (Counts td) \<le> rs_Memory (ho_CalculatedResources h)"
    "cn_CpuUnits (Counts td) \<le> rs_CpuUnits (ho_CalculatedResources h)"
    "cn_DiskUse (Counts td) \<le> rs_DiskSpace (ho_CalculatedResources h)"
    using assms(1,3) le by (auto simp: room_for_def modest_def Let_def)
  show "matchHost t h = None" "room_for td (n - 1) (place_on t h)"
    using assms le by (auto simp: matchHost_None_iff has_room_def room_for_def modest_def Let_def w64_less left_diff_distrib)
qed

text \<open>While there is room for the instances still to come, each missing one is issued.\<close>

lemma roomy_placement:
  assumes "roomy td n s" and "1 \<le> n" and "modest td" and pl: "placement cl td d i s t s'"
  shows "roomy td (n - 1) s'"
proof -
  have td: "tk_TaskDefinition t = td" and host: "tk_Host t \<noteq> ''''" using placement_task [OF pl] by simp_all
  obtain g where g: "lookup (ds_hosts s) (tk_Host t) = Some g"
    and s': "ds_hosts s' = insert_key (tk_Host t) (place_on t g) (ds_hosts s)"
    using pl by (auto simp: placement_def)
  obtain m h where h: "lookup (ds_hosts s) m = Some h" "room_for td n h"
    using assms(1) by (auto simp: roomy_def ran_def)
  have "room_for td (n - 1) h"
    using h(2) assms(2,3) by (auto simp: room_for_def modest_def Let_def left_diff_distrib)
  moreover have "room_for td (n - 1) (place_on t g)" if "m = tk_Host t"
    using that h g room_for_fits(2) [OF h(2) assms(2,3) td] by simp
  ultimately obtain h' where "lookup (ds_hosts s') m = Some h'" "room_for td (n - 1) h'"
    using h(1) by (cases "m = tk_Host t") (auto simp: s')
  then have "\<exists>h \<in> ran (lookup (ds_hosts s')). room_for td (n - 1) h" by (meson ranI)
  then show ?thesis using assms(1) host by (simp add: roomy_def s' del: bex_simps)
qed

lemma roomy_mono: "roomy td n s \<Longrightarrow> modest td \<Longrightarrow> m \<le> n \<Longrightarrow> roomy td m s"
proof -
  assume "roomy td n s" and td: "modest td" and "m \<le> n"
  then have "m * c \<le> n * c" if "0 \<le> c" for c :: int using that by (simp add: mult_right_mono)
  then have "room_for td n h \<Longrightarrow> room_for td m h" for h
    using td by (force simp: room_for_def modest_def Let_def)
  with \<open>roomy td n s\<close> show "roomy td m s" by (auto simp: roomy_def)
qed

lemma scale_up_complete:
  assumes "scale_up api ch cl td d is (s, p) = Returns (s', p')" and "hosts_keyed s"
    and "roomy td (int (length is)) s" and "modest td" and "td_Version td = dp_TaskVersion d"
  shows "lookup (pg_taskMap p) \<subseteq>\<^sub>m lookup (pg_taskMap p') \<and>
    (\<forall>i \<in> set is. lookup (pg_taskMap p') (MakeTaskId cl d i) \<noteq> None)"
  using assms
proof (induction "is" arbitrary: s p)
  case (Cons i "is")
  obtain s1 p1 where step: "place_task api ch cl td d i (s, p) = Returns (s1, p1)"
    and rest: "scale_up api ch cl td d is (s1, p1) = Returns (s', p')"
    using Cons.prems(1) by (auto simp: bind_outcome_Returns_iff)
  have "lookup (pg_taskMap p) \<subseteq>\<^sub>m lookup (pg_taskMap p1) \<and> lookup (pg_taskMap p1) (MakeTaskId cl d i) \<noteq> None \<and>
      hosts_keyed s1 \<and> roomy td (int (length is)) s1"
    using step Cons.prems(2)
  proof (cases rule: place_task_cases)
    case present
    with Cons.prems roomy_mono [of td "int (length (i # is))" s "int (length is)"] show ?thesis by simp
  next
    case no_host
    obtain m h where "lookup (ds_hosts s) m = Some h" "room_for td (int (length (i # is))) h"
      and none: "lookup (ds_hosts s) '''' = None"
      using Cons.prems(3) by (auto simp: roomy_def ran_def)
    moreover have "tk_TaskDefinition (NewTask cl td d i) = td" by (simp add: NewTask_def)
    ultimately have "matchHost (NewTask cl td d i) h = None"
      using room_for_fits(1) [of td "int (length (i # is))" h] Cons.prems(4) by simp
    moreover have "matchHost (NewTask cl td d i) h \<noteq> None"
      using selectHost_none [OF _ no_host(2) \<open>lookup (ds_hosts s) m = Some h\<close> none] Cons.prems(2)
      by (simp add: hosts_keyed_def)
    ultimately show ?thesis by simp
  next
    case (issued t)
    have "task_ID t = MakeTaskId cl d i"
      using placement_task [OF issued(2)] MakeTaskId_NewTask [of cl d i td i] Cons.prems(5) by simp
    moreover have "roomy td (int (length is)) s1"
      using roomy_placement [OF Cons.prems(3) _ Cons.prems(4) issued(2)] by simp
    ultimately show ?thesis
      using issued Cons.prems(2) by (auto simp: map_le_def intro: placement_keyed)
  qed
  with Cons.IH [OF rest] Cons.prems(4,5) show ?case
    by (auto intro: map_le_trans) (metis map_le_Some not_None_eq)
qed simp

section \<open>The result of a call\<close>

text \<open>The variables at the start of the call and after the two loops that take tasks off.\<close>

definition start :: "task list \<Rightarrow> 'b \<Rightarrow> 'b progress" where
  "start ts b = \<lparr>pg_taskMap = task_map ts, pg_removed = 0, pg_added = 0, pg_backend = b\<rparr>"

definition taken_off ::
  "'b scheduler_api \<Rightarrow> map_order \<Rightarrow> cluster \<Rightarrow> deployment \<Rightarrow> default_scheduler \<Rightarrow> task list \<Rightarrow> 'b \<Rightarrow> 'b progress" where
  "taken_off api ord cl d s ts b =
     scaled_down api cl d (int (length ts)) (cleanup api ord s d (int (length ts)) (start ts b))"

lemma rebalance_taken_off:
  "rebalance api ch cl td d ts s b =
     (let p = taken_off api (sc_tasks ch) cl d s ts b in
      if int (length ts) - pg_removed p < dp_Desired d
      then scale_up api ch cl td d [0..dp_Desired d - 1] (s, p) else Returns (s, p))"
  by (simp add: rebalance_def taken_off_def start_def Let_def)

context task_backend begin

lemma Schedule_taken_off:
  assumes run: "Schedule api ch d s b = Returns (None, s', b')" and good: "good b"
    and keyed: "hosts_keyed s" and cl: "ds_cluster s = Some cl" and named: "named cl d" and sane: "sane d"
    and sync: "syncHosts api b s = Returns (None, s1)"
    and td: "GetTaskDefinition api (dp_TaskName d) (dp_TaskVersion d) b = Ok td"
  obtains ts p where "lookup (task_map ts) = issued cl d (tasks b)" and "distinct (map task_ID ts)"
    and "length ts = card (dom (issued cl d (tasks b)))"
    and "rebalance api ch cl td d ts s1 b = Returns (s', p)" and "lookup (pg_taskMap p) = issued cl d (tasks b')"
    and "hosts_keyed s1"
proof -
  from run cl sync td obtain ts p where ts: "ListTasks api (list_query cl d) b = Ok ts"
    and reb: "rebalance api ch cl td d ts s1 b = Returns (s', p)" and b': "b' = pg_backend p"
    by (auto elim: Schedule_run)
  note ts = listed [OF good named ts]
  have s1: "hosts_keyed s1" by (rule syncHosts_keyed [OF sync keyed])
  have "mirror good tasks cl d p \<and> hosts_keyed s'"
  proof (rule rebalance_invariant [OF reb s1, where P = "mirror good tasks cl d" and Q = "\<lambda>_. mirror good tasks cl d"])
    show "drops_keep api (lookup (task_map ts)) (mirror good tasks cl d)"
      using mirror_drop [OF _ _ good] by (simp add: drops_keep_def ts)
  next
    fix s2 s3 and q :: "'b progress" and i t
    assume "0 \<le> i" and "i < dp_Desired d" and "mirror good tasks cl d q" and "placement cl td d i s2 t s3"
    then show "mirror good tasks cl d (issue_task api t q)"
      using placement_fine [OF good td sane] by (intro mirror_issue)
  qed (simp_all add: mirror_def ts good)
  then show ?thesis using that ts reb b' s1 by (simp add: mirror_def)
qed

text \<open>A settled deployment is left alone: nothing is written.\<close>

lemma Schedule_settled:
  assumes good: "good b" and cl: "ds_cluster s = Some cl" and named: "named cl d"
    and sync: "syncHosts api b s = Returns (None, s1)" and hosts: "lookup (ds_hosts s1) \<noteq> Map.empty"
    and td: "GetTaskDefinition api (dp_TaskName d) (dp_TaskVersion d) b = Ok td"
    and ok: "\<forall>t \<in> ran (issued cl d (tasks b)). in_place s1 t \<and> td_Version (tk_TaskDefinition t) = dp_TaskVersion d"
    and cnt: "int (card (dom (issued cl d (tasks b)))) = dp_Desired d"
  shows "Schedule api ch d s b = Returns (None, s1, b)"
proof -
  obtain ts where list: "ListTasks api (list_query cl d) b = Ok ts"
    using ListTasks_selects [OF good, of "list_query cl d"] by (auto simp: list_query_def any_task_def)
  note ts = listed [OF good named list]
  have "cleanup api (sc_tasks ch) s1 d (int (length ts)) (start ts b) = start ts b"
    using ok by (intro cleanup_idle) (auto simp: start_def ts all_in_place_def outdated_def ran_def)
  then have "taken_off api (sc_tasks ch) cl d s1 ts b = start ts b"
    using ts cnt by (simp add: taken_off_def scaled_down_def start_def)
  then have "rebalance api ch cl td d ts s1 b = Returns (s1, start ts b)"
    using ts cnt by (simp add: rebalance_taken_off start_def)
  then show ?thesis
    using hosts by (simp add: Schedule_def cl sync td list start_def)
qed

text \<open>The minimum is kept when no host was lost and no task rejected.\<close>

lemma Schedule_minimum:
  assumes run: "Schedule api ch d s b = Returns (None, s', b')" and good: "good b"
    and keyed: "hosts_keyed s" and cl: "ds_cluster s = Some cl" and named: "named cl d" and sane: "sane d"
    and sync: "syncHosts api b s = Returns (None, s1)"
    and ok: "\<forall>t \<in> ran (issued cl d (tasks b)). in_place s1 t"
    and desired: "dp_Min d \<le> dp_Desired d" "in_int64 (dp_Desired d - 1)"
  shows "min (int (card (dom (issued cl d (tasks b))))) (dp_Min d) \<le> int (card (dom (issued cl d (tasks b'))))"
proof -
  obtain td where td: "GetTaskDefinition api (dp_TaskName d) (dp_TaskVersion d) b = Ok td"
    using run by (rule Schedule_run)
  obtain ts p where ts: "lookup (task_map ts) = issued cl d (tasks b)"
    and len: "length ts = card (dom (issued cl d (tasks b)))"
    and reb: "rebalance api ch cl td d ts s1 b = Returns (s', p)"
    and p: "lookup (pg_taskMap p) = issued cl d (tasks b')" and s1: "hosts_keyed s1"
    by (rule Schedule_taken_off [OF run good keyed cl named sane sync td])
  let ?m = "min (int (length ts)) (dp_Min d)"
  let ?q = "taken_off api (sc_tasks ch) cl d s1 ts b"
  have "all_in_place s1 (start ts b)" "exact (int (length ts)) (start ts b)" "?m \<le> int (map_size (start ts b))"
    using ok len by (auto simp: all_in_place_def start_def ts exact_def map_size_def ran_def)
  from cleanup_minimum [OF this, of d api "sc_tasks ch"]
  have "exact (int (length ts)) ?q \<and> ?m \<le> int (map_size ?q)"
    using desired unfolding taken_off_def by (intro scaled_down_minimum) auto
  moreover have "map_size ?q \<le> map_size p"
  proof (cases "int (length ts) - pg_removed ?q < dp_Desired d")
    case True
    then have up: "scale_up api ch cl td d [0..dp_Desired d - 1] (s1, ?q) = Returns (s', p)"
      using reb by (simp add: rebalance_taken_off Let_def)
    show ?thesis
      by (rule scale_up_invariant [OF up s1, of "\<lambda>_ p. map_size ?q \<le> map_size p", THEN conjunct1])
        (auto intro: order_trans map_size_issue)
  next
    case False
    with reb have "p = ?q" by (auto simp: rebalance_taken_off Let_def)
    then show ?thesis by simp
  qed
  ultimately show ?thesis using p len by (simp add: map_size_def)
qed

text \<open>The desired number is reached when one host has room for all of it.\<close>

lemma Schedule_reaches_desired:
  assumes run: "Schedule api ch d s b = Returns (None, s', b')" and good: "good b"
    and keyed: "hosts_keyed s" and cl: "ds_cluster s = Some cl" and named: "named cl d" and sane: "sane d"
    and sync: "syncHosts api b s = Returns (None, s1)"
    and td: "GetTaskDefinition api (dp_TaskName d) (dp_TaskVersion d) b = Ok td"
    and room: "roomy td (dp_Desired d) s1" "modest td" and version: "td_Version td = dp_TaskVersion d"
    and desired: "0 \<le> dp_Desired d"
  shows "dp_Desired d \<le> int (card (dom (issued cl d (tasks b'))))"
proof -
  obtain ts p where ts: "lookup (task_map ts) = issued cl d (tasks b)"
    and len: "length ts = card (dom (issued cl d (tasks b)))"
    and reb: "rebalance api ch cl td d ts s1 b = Returns (s', p)"
    and p: "lookup (pg_taskMap p) = issued cl d (tasks b')" and s1: "hosts_keyed s1"
    by (rule Schedule_taken_off [OF run good keyed cl named sane sync td])
  let ?q = "taken_off api (sc_tasks ch) cl d s1 ts b" and ?n = "int (length ts)"
  show ?thesis
  proof (cases "?n - pg_removed ?q < dp_Desired d")
    case True
    then have up: "scale_up api ch cl td d [0..dp_Desired d - 1] (s1, ?q) = Returns (s', p)"
      using reb by (simp add: rebalance_taken_off Let_def)
    have "\<forall>i \<in> {0..dp_Desired d - 1}. lookup (pg_taskMap p) (MakeTaskId cl d i) \<noteq> None"
      using scale_up_complete [OF up s1 _ room(2) version] room(1) desired by simp
    then have sub: "MakeTaskId cl d ` {0..dp_Desired d - 1} \<subseteq> dom (lookup (pg_taskMap p))" by auto
    have "card (MakeTaskId cl d ` {0..dp_Desired d - 1}) = nat (dp_Desired d)"
      by (subst card_image) (auto simp: inj_on_def)
    with card_mono [OF finite_dom_map_of sub] desired show ?thesis by (simp add: p)
  next
    case False
    let ?P = "\<lambda>p :: 'b progress. ?n - pg_removed p \<le> int (map_size p)"
    have drop: "drops_keep api (lookup (task_map ts)) ?P"
      unfolding drops_keep_def
    proof (intro allI impI)
      fix k t and p :: "'b progress"
      assume "?P p"
      then show "?P (drop_task api k t p)" using map_size_drop_le [of p api k t] by simp
    qed
    have "?P (start ts b)" by (simp add: start_def map_size_def ts len)
    then have "?P ?q"
      unfolding taken_off_def
      using cleanup_keeps [OF drop, of "start ts b"] scaled_down_keeps [OF drop] by (simp add: start_def)
    moreover have "p = ?q" using False reb by (auto simp: rebalance_taken_off Let_def)
    ultimately show ?thesis using False by (simp add: map_size_def p [symmetric])
  qed
qed

text \<open>Instances \<open>0\<close> to \<open>n - 1\<close> are scaled down to the desired number from the top.\<close>

lemma Schedule_scales_down:
  assumes run: "Schedule api ch d s b = Returns (None, s', b')" and good: "good b"
    and keyed: "hosts_keyed s" and cl: "ds_cluster s = Some cl" and named: "named cl d" and sane: "sane d"
    and sync: "syncHosts api b s = Returns (None, s1)"
    and ok: "\<forall>t \<in> ran (issued cl d (tasks b)). in_place s1 t \<and> td_Version (tk_TaskDefinition t) = dp_TaskVersion d"
    and inst: "dom (issued cl d (tasks b)) = MakeTaskId cl d ` {0..<n}"
    and desired: "0 \<le> dp_Desired d" "dp_Desired d < n" "in_int64 (dp_Desired d - 1)"
  shows "issued cl d (tasks b') = issued cl d (tasks b) |` (MakeTaskId cl d ` {0..<dp_Desired d})"
proof -
  obtain td where td: "GetTaskDefinition api (dp_TaskName d) (dp_TaskVersion d) b = Ok td"
    using run by (rule Schedule_run)
  obtain ts p where ts: "lookup (task_map ts) = issued cl d (tasks b)"
    and len: "length ts = card (dom (issued cl d (tasks b)))"
    and reb: "rebalance api ch cl td d ts s1 b = Returns (s', p)"
    and p: "lookup (pg_taskMap p) = issued cl d (tasks b')" and s1: "hosts_keyed s1"
    by (rule Schedule_taken_off [OF run good keyed cl named sane sync td])
  have n: "int (length ts) = n"
    unfolding len inst using desired(1,2) by (subst card_image) (auto simp: inj_on_def)
  let ?p0 = "start ts b" and ?q = "scale_down api cl d (dp_Desired d - 1) (n - 1) (start ts b)"
  have "cleanup api (sc_tasks ch) s1 d n ?p0 = ?p0"
    using ok by (intro cleanup_idle) (auto simp: start_def ts all_in_place_def outdated_def ran_def)
  then have q: "taken_off api (sc_tasks ch) cl d s1 ts b = ?q"
    using desired by (simp add: taken_off_def scaled_down_def n w64_id start_def)
  have ex: "exact n ?p0" by (simp add: exact_def map_size_def start_def ts len [symmetric] n)
  have "exact n ?q" using scale_down_counts [OF ex, of "dp_Desired d - 1" "n - 1" api cl d] desired by simp
  moreover have map: "lookup (pg_taskMap ?q) = issued cl d (tasks b) |` (MakeTaskId cl d ` {0..<dp_Desired d})"
  proof
    fix k
    show "lookup (pg_taskMap ?q) k = (issued cl d (tasks b) |` (MakeTaskId cl d ` {0..<dp_Desired d})) k"
    proof (cases "k \<in> dom (issued cl d (tasks b))")
      case True
      then obtain i where i: "k = MakeTaskId cl d i" "0 \<le> i" "i < n" unfolding inst by auto
      then show ?thesis by (auto simp: scale_down_map start_def ts restrict_map_def)
    next
      case False
      then show ?thesis by (auto simp: scale_down_map start_def ts restrict_map_def dom_def)
    qed
  qed
  moreover have "dom (issued cl d (tasks b) |` (MakeTaskId cl d ` {0..<dp_Desired d})) = MakeTaskId cl d ` {0..<dp_Desired d}"
    unfolding dom_restrict inst using desired(2) by auto
  ultimately have "n - pg_removed ?q = dp_Desired d"
    using desired(1) by (simp add: exact_def map_size_def card_image inj_on_def)
  then have "p = ?q" using reb by (simp add: rebalance_taken_off q n)
  with map p show ?thesis by simp
qed

end

end
