(* ===== verification/Schedule_Effects.thy ===== *)
theory Schedule_Effects
  imports Schedule_Laws
begin

text \<open>
  Consequences of the rule for a call: where the issued tasks stand afterwards, what the call may
  change, and that no host is promised more than it offered. They are proved for every backend with
  the laws of \<open>task_backend\<close>, then stated for the in-memory backend.
\<close>

section \<open>For every backend\<close>

definition new_on ::
  "cluster \<Rightarrow> deployment \<Rightarrow> (string \<Rightarrow> task option) \<Rightarrow> (string \<Rightarrow> task option) \<Rightarrow> string \<Rightarrow> string set" where
  "new_on cl d v v' n = {k. \<exists>t. issued cl d v' k = Some t \<and> tk_Host t = n \<and> issued cl d v k = None}"

lemma new_on_put:
  assumes "own cl d t \<and> tk_Scheduled t"
  shows "new_on cl d v (v'(k \<mapsto> t)) n \<subseteq> (if tk_Host t = n then insert k (new_on cl d v v' n) else new_on cl d v v' n)"
  using assms by (auto simp: new_on_def split: if_splits)

text \<open>
  One figure of a host: placing a task takes \<open>need\<close> of it, and a host the task fits on has that much.
\<close>

definition charged :: "(host \<Rightarrow> int) \<Rightarrow> (task_definition \<Rightarrow> int) \<Rightarrow> bool" where
  "charged figure need \<longleftrightarrow>
     (\<forall>t h. figure (place_on t h) = w64 (figure h - need (tk_TaskDefinition t))) \<and>
     (\<forall>t h. matchHost t h = None \<longrightarrow> 0 \<le> figure (place_on t h)) \<and> (\<forall>td. in_int64 (need td))"

lemma charged_resources:
  "charged (rs_Memory \<circ> ho_CalculatedResources) (cn_Memory \<circ> Counts)"
  "charged (rs_CpuUnits \<circ> ho_CalculatedResources) (cn_CpuUnits \<circ> Counts)"
  "charged (rs_DiskSpace \<circ> ho_CalculatedResources) (cn_DiskUse \<circ> Counts)"
  by (auto simp: charged_def matchHost_None_iff has_room_def Let_def Counts_sums)

definition in_stock :: "(host \<Rightarrow> int) \<Rightarrow> (string, host) gomap \<Rightarrow> bool" where
  "in_stock figure hosts \<longleftrightarrow> (\<forall>h \<in> ran (lookup hosts). 0 \<le> figure h \<and> in_int64 (figure h))"

lemma charged_place:
  assumes "charged figure need" and "matchHost t g = None" and "0 \<le> need (tk_TaskDefinition t)"
    and "0 \<le> figure g" and "in_int64 (figure g)"
  shows "figure (place_on t g) = figure g - need (tk_TaskDefinition t)"
    and "0 \<le> figure (place_on t g)" and "in_int64 (figure (place_on t g))"
proof -
  have "in_int64 (figure g - need (tk_TaskDefinition t))"
    using assms by (auto simp: charged_def in_int64_def) (smt (verit, best))
  then show eq: "figure (place_on t g) = figure g - need (tk_TaskDefinition t)"
    using assms(1) by (simp add: charged_def w64_id)
  show "0 \<le> figure (place_on t g)" using assms(1,2) unfolding charged_def by blast
  show "in_int64 (figure (place_on t g))" using assms(1) by (simp add: charged_def)
qed

lemma charged_step:
  assumes "charged figure need" and "placement cl td d i s t s'" and "in_stock figure (ds_hosts s)"
    and "0 \<le> need td" and "lookup (ds_hosts s') n = Some h'"
  obtains h where "lookup (ds_hosts s) n = Some h"
    and "figure h' = figure h - (if tk_Host t = n then need td else 0)" and "0 \<le> figure h'" and "in_int64 (figure h')"
proof -
  from assms(2) obtain g where g: "lookup (ds_hosts s) (tk_Host t) = Some g" "matchHost t g = None"
    and s': "ds_hosts s' = insert_key (tk_Host t) (place_on t g) (ds_hosts s)"
    by (auto simp: placement_def)
  have td: "tk_TaskDefinition t = td" using assms(2) by (rule placement_task)
  have stock: "0 \<le> figure f \<and> in_int64 (figure f)" if "lookup (ds_hosts s) m = Some f" for m f
    using assms(3) that by (auto simp: in_stock_def ran_def)
  note place = charged_place [OF assms(1) g(2), unfolded td, OF assms(4)]
  show ?thesis
  proof (cases "tk_Host t = n")
    case True
    with s' assms(5) have "h' = place_on t g" by simp
    with True g(1) stock [OF g(1)] place show ?thesis by (intro that [of g]) auto
  next
    case False
    with s' assms(5) have "lookup (ds_hosts s) n = Some h'" by simp
    with False stock show ?thesis by (intro that [of h']) auto
  qed
qed

text \<open>What is left on the hosts and what the new tasks of the call need, together.\<close>

definition covers ::
  "(host \<Rightarrow> int) \<Rightarrow> int \<Rightarrow> (string, host) gomap \<Rightarrow> (string, host) gomap \<Rightarrow> (string \<Rightarrow> string set) \<Rightarrow> bool" where
  "covers figure need hosts hosts' extra \<longleftrightarrow>
     (\<forall>n h'. lookup hosts' n = Some h' \<longrightarrow>
        (\<exists>h. lookup hosts n = Some h \<and> figure h' + int (card (extra n)) * need \<le> figure h))"

lemma covers_step:
  assumes "covers figure (need td) hosts (ds_hosts s) extra" and "in_stock figure (ds_hosts s)"
    and "charged figure need" and "placement cl td d i s t s'" and "0 \<le> need td"
    and extra': "\<And>n. extra' n \<subseteq> (if tk_Host t = n then insert k (extra n) else extra n)"
    and fin: "\<And>n. finite (extra n)"
  shows "covers figure (need td) hosts (ds_hosts s') extra' \<and> in_stock figure (ds_hosts s')"
proof
  show "covers figure (need td) hosts (ds_hosts s') extra'"
    unfolding covers_def
  proof (intro allI impI)
    fix n h'
    assume h': "lookup (ds_hosts s') n = Some h'"
    obtain h where h: "lookup (ds_hosts s) n = Some h"
      and fig: "figure h' = figure h - (if tk_Host t = n then need td else 0)"
      by (rule charged_step [OF assms(3,4,2,5) h'])
    obtain h0 where h0: "lookup hosts n = Some h0" "figure h + int (card (extra n)) * need td \<le> figure h0"
      using assms(1) h by (auto simp: covers_def)
    have "card (extra' n) \<le> (if tk_Host t = n then card (extra n) + 1 else card (extra n))"
      using card_mono [OF _ extra' [of n]] fin [of n] by (auto simp: card_insert_if split: if_splits)
    then have "int (card (extra' n)) * need td \<le>
        int (if tk_Host t = n then card (extra n) + 1 else card (extra n)) * need td"
      using assms(5) by (intro mult_right_mono) simp_all
    with h0 fig show "\<exists>h. lookup hosts n = Some h \<and> figure h' + int (card (extra' n)) * need td \<le> figure h"
      by (intro exI [of _ h0]) (auto simp: algebra_simps split: if_splits)
  qed
  show "in_stock figure (ds_hosts s')"
    unfolding in_stock_def ran_def by (auto elim: charged_step [OF assms(3,4,2,5)])
qed

context task_backend begin

text \<open>Every issued task stands on a host the scheduler knows and was not rejected.\<close>

lemma Schedule_in_place:
  assumes run: "Schedule api ch d s b = Returns (None, s', b')" and good: "good b"
    and keyed: "hosts_keyed s" and cl: "ds_cluster s = Some cl" and named: "named cl d" and sane: "sane d"
    and t: "issued cl d (tasks b') k = Some t"
  shows "in_place s' t"
proof -
  obtain p :: "'b progress" where "b' = pg_backend p" "mirror good tasks cl d p"
    "\<forall>k t. lookup (pg_taskMap p) k = Some t \<longrightarrow> in_place s' t"
  proof (rule Schedule_invariant [OF run good keyed cl named sane, where P = "\<lambda>_. True"
        and Q = "\<lambda>s (p :: 'b progress). \<forall>k t. lookup (pg_taskMap p) k = Some t \<longrightarrow> in_place s t"])
    fix s1 s2 and p :: "'b progress" and i t td
    assume "\<forall>k t. lookup (pg_taskMap p) k = Some t \<longrightarrow> in_place s1 t" and pl: "placement cl td d i s1 t s2"
    then show "\<forall>k u. lookup (pg_taskMap (issue_task api t p)) k = Some u \<longrightarrow> in_place s2 u"
      using placement_task [OF pl] by (auto simp: in_place_def placement_gone [OF pl])
  qed auto
  then show ?thesis using t by (simp add: mirror_def)
qed

text \<open>A call writes tasks of its own deployment only: those issued before and those of missing instances.\<close>

lemma Schedule_frame:
  assumes run: "Schedule api ch d s b = Returns (None, s', b')" and good: "good b"
    and keyed: "hosts_keyed s" and cl: "ds_cluster s = Some cl" and named: "named cl d" and sane: "sane d"
    and td: "GetTaskDefinition api (dp_TaskName d) (dp_TaskVersion d) b = Ok td"
    and diff: "tasks b' k \<noteq> tasks b k"
  shows "\<exists>t. tasks b' k = Some t \<and> own cl d t \<and>
    (issued cl d (tasks b) k \<noteq> None \<or> (\<exists>i. 0 \<le> i \<and> i < dp_Desired d \<and> k = task_ID (NewTask cl td d i)))"
proof -
  let ?P = "\<lambda>p :: 'b progress. \<forall>k. tasks (pg_backend p) k \<noteq> tasks b k \<longrightarrow> (\<exists>t. tasks (pg_backend p) k = Some t \<and> own cl d t \<and>
    (issued cl d (tasks b) k \<noteq> None \<or> (\<exists>i. 0 \<le> i \<and> i < dp_Desired d \<and> k = task_ID (NewTask cl td d i))))"
  obtain p :: "'b progress" where "b' = pg_backend p" "?P p"
  proof (rule Schedule_invariant [OF run good keyed cl named sane, where P = ?P and Q = "\<lambda>_. ?P"])
    fix p k t
    assume t: "issued cl d (tasks b) k = Some t" and "mirror good tasks cl d p" and "?P p"
    moreover have "task_ID t = k" using t by (auto simp: issued_Some dest: tasks_key [OF good])
    moreover have "fine (t\<lparr>tk_Scheduled := False\<rparr>)" by (rule issued_fine [OF good t])
    ultimately show "?P (drop_task api k t p)"
      by (auto simp: mirror_def PutTask_tasks issued_Some)
  next
    fix s1 s2 p i t td'
    assume "GetTaskDefinition api (dp_TaskName d) (dp_TaskVersion d) b = Ok td'" and i: "0 \<le> i" "i < dp_Desired d"
      and "?P p" and "mirror good tasks cl d p" and pl: "placement cl td' d i s1 t s2" and "fine t"
    moreover have "task_ID t = task_ID (NewTask cl td' d i)" using pl by (rule placement_task)
    ultimately show "?P (issue_task api t p)"
      using placement_own [OF pl] td by (auto simp: mirror_def PutTask_tasks)
  qed auto
  with diff show ?thesis by blast
qed

lemma Schedule_config:
  assumes run: "Schedule api ch d s b = Returns (None, s', b')" and good: "good b"
    and keyed: "hosts_keyed s" and cl: "ds_cluster s = Some cl" and named: "named cl d" and sane: "sane d"
  shows "good b' \<and> GetTaskDefinition api n v b' = GetTaskDefinition api n v b \<and>
    GetDeployment api n b' = GetDeployment api n b \<and> GetCluster api n b' = GetCluster api n b \<and>
    ListHosts api n b' = ListHosts api n b"
proof -
  let ?P = "\<lambda>p :: 'b progress. GetTaskDefinition api n v (pg_backend p) = GetTaskDefinition api n v b \<and>
    GetDeployment api n (pg_backend p) = GetDeployment api n b \<and>
    GetCluster api n (pg_backend p) = GetCluster api n b \<and> ListHosts api n (pg_backend p) = ListHosts api n b"
  obtain p :: "'b progress" where "b' = pg_backend p" "mirror good tasks cl d p" "?P p"
    by (rule Schedule_invariant [OF run good keyed cl named sane, where P = ?P and Q = "\<lambda>_. ?P"])
      (auto simp: mirror_def PutTask_config issued_fine [OF good])
  then show ?thesis by (simp add: mirror_def)
qed

text \<open>What the new tasks of a call need of one figure fits into what each host had at the sync.\<close>

lemma Schedule_covers:
  assumes run: "Schedule api ch d s b = Returns (None, s', b')" and good: "good b"
    and keyed: "hosts_keyed s" and cl: "ds_cluster s = Some cl" and named: "named cl d" and sane: "sane d"
    and td: "GetTaskDefinition api (dp_TaskName d) (dp_TaskVersion d) b = Ok td"
    and sync: "syncHosts api b s = Returns (None, s1)"
    and fig: "charged figure need" "0 \<le> need td" and stock: "in_stock figure (ds_hosts s1)"
  shows "covers figure (need td) (ds_hosts s1) (ds_hosts s') (new_on cl d (tasks b) (tasks b')) \<and>
    in_stock figure (ds_hosts s')"
proof -
  let ?new = "\<lambda>p :: 'b progress. new_on cl d (tasks b) (tasks (pg_backend p))"
  let ?Q = "\<lambda>s (p :: 'b progress). covers figure (need td) (ds_hosts s1) (ds_hosts s) (?new p) \<and> in_stock figure (ds_hosts s)"
  obtain p :: "'b progress" where "b' = pg_backend p" "?Q s' p"
  proof (rule Schedule_invariant [OF run good keyed cl named sane, where P = "\<lambda>_. True" and Q = ?Q])
    fix p and s1' :: default_scheduler
    assume "syncHosts api b s = Returns (None, s1')" and "mirror good tasks cl d p"
      and le: "\<And>k t. lookup (pg_taskMap p) k = Some t \<Longrightarrow> issued cl d (tasks b) k = Some t \<and> in_place s1' t"
    moreover from this have "?new p n = {}" for n by (auto simp: new_on_def mirror_def)
    ultimately show "?Q s1' p" using sync stock by (simp add: covers_def)
  next
    fix s2 s3 p i t td'
    assume "GetTaskDefinition api (dp_TaskName d) (dp_TaskVersion d) b = Ok td'" and Q: "?Q s2 p"
      and mir: "mirror good tasks cl d p" and pl: "placement cl td' d i s2 t s3" and fine: "fine t"
    then have pl: "placement cl td d i s2 t s3" using td by simp
    have fin: "finite (?new p n)" for n
    proof (rule finite_subset)
      show "?new p n \<subseteq> dom (lookup (pg_taskMap p))" using mir by (auto simp: new_on_def mirror_def)
    qed (rule finite_dom_map_of)
    have eq: "tasks (fst (PutTask api t (pg_backend p))) = (tasks (pg_backend p))(task_ID t \<mapsto> t)"
      using mir fine by (simp add: mirror_def PutTask_tasks)
    show "?Q s3 (issue_task api t p)"
      by (rule covers_step [where extra = "?new p" and k = "task_ID t", OF _ _ fig(1) pl fig(2) _ fin])
        (use Q in \<open>auto simp: eq dest: subsetD [OF new_on_put [OF placement_own [OF pl]]] split: if_splits\<close>)
  qed auto
  then show ?thesis by simp
qed

end

end
