(* ===== verification/Example_Cluster.thy ===== *)
theory Example_Cluster
  imports Schedule_Returns Schedule_Counts Schedule_Effects
begin

text \<open>
  A small cluster on the in-memory backend, on which the theorems of the development are instantiated:
  one host, one task definition with one container, and a deployment with a minimum of one task, a
  maximum of two and a desired number chosen per example.
\<close>

section \<open>The cluster\<close>

definition box :: "int \<Rightarrow> resources" where
  "box n = \<lparr>rs_Memory = n, rs_CpuUnits = n, rs_DiskSpace = n, rs_MemUsePercent = 0\<rparr>"

definition ex_host :: "string \<Rightarrow> int \<Rightarrow> host" where
  "ex_host name n = \<lparr>ho_Name = name, ho_Address = '''', ho_Draining = False, ho_ReservedPorts = [], ho_HealthCheck = '''',
     ho_ObservedResources = box n, ho_CalculatedResources = box n, ho_BaseResources = box n, ho_Cluster = ''c'', ho_Tags = []\<rparr>"

definition ex_cluster :: cluster where "ex_cluster = \<lparr>cl_Name = ''c'', cl_Deployments = [''d''], cl_Hosts = []\<rparr>"

definition ex_deployment :: "int \<Rightarrow> deployment" where
  "ex_deployment n = \<lparr>dp_Name = ''d'', dp_Scheduler = '''', dp_TaskName = ''t'', dp_TaskVersion = 1,
     dp_Desired = n, dp_Min = 1, dp_Max = 2, dp_MaxAttempts = 3\<rparr>"

definition ex_container :: container where
  "ex_container = \<lparr>ct_Name = ''web'', ct_Type = ''bash'', ct_Executor = None, ct_Setup = [], ct_Teardown = [],
     ct_Checks = [], ct_Ports = [], ct_Memory = 100, ct_CpuUnits = 100, ct_DiskUse = 100, ct_Essential = True\<rparr>"

definition ex_definition :: "uint \<Rightarrow> task_definition" where
  "ex_definition v = \<lparr>td_Name = ''t'', td_Version = v, td_Tags = [], td_Containers = [ex_container], td_GracePeriod = 60 * second\<rparr>"

definition ex_task :: "uint \<Rightarrow> int \<Rightarrow> task" where
  "ex_task v i = (NewTask ex_cluster (ex_definition v) (ex_deployment 2) i)\<lparr>tk_Host := ''h'', tk_Scheduled := True\<rparr>"

definition ex_backend :: "task list \<Rightarrow> mock" where
  "ex_backend ts = NewMockApi\<lparr>mk_hosts := [(''h'', ex_host ''h'' 1000)], mk_taskDefinitions := [(''t'', ex_definition 1)],
      mk_tasks := map (\<lambda>t. (task_ID t, t)) ts\<rparr>"

definition ex_scheduler :: default_scheduler where "ex_scheduler = SetCluster ex_cluster NewDefaultScheduler"

definition ex_choices :: schedule_choices where
  "ex_choices = \<lparr>sc_tasks = listed_order, sc_hosts = (\<lambda>_. listed_order), sc_draws = (\<lambda>_. sconst 0)\<rparr>"

definition ex_run :: "int \<Rightarrow> task list \<Rightarrow> (go_error option \<times> default_scheduler \<times> mock) outcome" where
  "ex_run n ts = Schedule (mock_api listed_order) ex_choices (ex_deployment n) ex_scheduler (ex_backend ts)"

lemmas ex_defs = box_def ex_host_def ex_cluster_def ex_deployment_def ex_container_def ex_definition_def ex_backend_def
  ex_scheduler_def ex_choices_def ex_run_def NewMockApi_def

section \<open>Evaluating a call\<close>

lemma dec_nat_small: "dec_nat 0 = ''0''" "dec_nat 1 = ''1''" "dec_nat (Suc 0) = ''1''"  "dec_nat 2 = ''2''" "dec_nat 3 = ''3''"
  by (simp_all add: dec_nat.simps char_of_def bit_0)

lemma w64_small: "- (2^63) \<le> numeral n \<Longrightarrow> (numeral n :: int) < 2^63 \<Longrightarrow> w64 (numeral n) = numeral n"
  by (simp add: w64_id in_int64_def)

lemma upto_012: "[0..1] = [0,1::int]" "[0..0] = [0::int]"
  by (simp_all add: upto.simps)

lemmas ex_ids = task_ID_def task_Name_def MakeTaskId_def dec_int_def dec_nat_small NewTask_def ex_task_def

lemmas ex_sched = Schedule_def SetCluster_def NewDefaultScheduler_def syncHosts_def sync_host_def mock_api_def
  mock_list_defs mock_get_defs range_values_def range_keys_def key_list_def List.map_filter_simps
  rebalance_def cleanup_def cleanup_task_def Let_def scaled_down_def scale_down.simps task_map_def 
  mock_ListTasks_def list_query_def any_task_def place_task_def selectHost_def rankers_def SpreadRanker_def rank_def
  rank_insert_def select_loop.simps score_def matchHost_def Counts_sums task_ports_def provide_ports.simps updateHost_def
  issue_task_def drop_task_def place_on_def mock_put_defs mock_emit_def host_gone_def outdated_def AllPorts_def upto_012
  cpuWeight_def memWeight_def diskWeight_def

text \<open>What a call on the example leaves: the scheduler and the backend.\<close>

definition ex_after :: "int \<Rightarrow> task list \<Rightarrow> default_scheduler \<times> mock" where
  "ex_after n ts = (case ex_run n ts of Returns (_, s, b) \<Rightarrow> (s, b) | _ \<Rightarrow> (ex_scheduler, ex_backend ts))"

definition ex_flags :: "mock \<Rightarrow> (string \<times> bool) list" where
  "ex_flags b = map (\<lambda>(k, t). (k, tk_Scheduled t)) (mk_tasks b)"

lemmas ex_eval = ex_defs ex_sched ex_ids w64_id in_int64_def

end
