(* ===== verification/Schedule_Properties.thy ===== *)
theory Schedule_Properties
  imports Example_Cluster
begin

text \<open>
  The properties of one call of \<open>Schedule\<close> on the in-memory backend, each applied to the example cluster.
\<close>

section \<open>The calls of the examples\<close>

text \<open>Nothing issued yet, two tasks desired; two instances issued, one desired; all in order.\<close>

lemma ex_fresh: "ex_run 2 [] = Returns (None, ex_after 2 [])"
  by (simp add: ex_after_def ex_eval)

lemma ex_shrink: "ex_run 1 [ex_task 1 0, ex_task 1 1] = Returns (None, ex_after 1 [ex_task 1 0, ex_task 1 1])"
  by (simp add: ex_after_def ex_eval)

lemma ex_update: "ex_run 2 [ex_task 0 0, ex_task 0 1] = Returns (None, ex_after 2 [ex_task 0 0, ex_task 0 1])"
  by (simp add: ex_after_def ex_eval)

lemmas ex_calls = ex_fresh [unfolded ex_run_def] ex_shrink [unfolded ex_run_def] ex_update [unfolded ex_run_def]

lemma ex_premises:
  "hosts_keyed ex_scheduler" "ds_cluster ex_scheduler = Some ex_cluster"
  by (simp_all add: ex_scheduler_def SetCluster_def NewDefaultScheduler_def hosts_keyed_def)

text \<open>All tasks of an example are issued tasks of its deployment, on its host.\<close>

lemma ex_task_fields:
  "own ex_cluster (ex_deployment n) (ex_task v i)" "tk_Scheduled (ex_task v i)" "tk_Host (ex_task v i) = ''h''"
  "\<not> tk_Rejected (ex_task v i)" "td_Version (tk_TaskDefinition (ex_task v i)) = v"
  "task_ID (ex_task 1 i) = MakeTaskId ex_cluster (ex_deployment n) i"
  by (simp_all add: own_def ex_task_def NewTask_def ex_definition_def task_ID_def task_Name_def MakeTaskId_def ex_deployment_def)

lemma ex_issued:
  "issued ex_cluster (ex_deployment n) (lookup (mk_tasks (ex_backend (map (ex_task v) is)))) =
    lookup (map (\<lambda>t. (task_ID t, t)) (map (ex_task v) is))"
proof -
  have "issued ex_cluster (ex_deployment n) (lookup (map (\<lambda>t. (task_ID t, t)) (map (ex_task v) is))) =
      lookup (map (\<lambda>t. (task_ID t, t)) (map (ex_task v) is))"
    by (induction "is") (auto simp: issued_def ex_task_fields fun_eq_iff)
  then show ?thesis by (simp add: ex_backend_def)
qed

lemma ex_place:
  "\<forall>t \<in> ran (issued ex_cluster (ex_deployment n) (lookup (mk_tasks (ex_backend (map (ex_task v) is))))).
    in_place (ex_scheduler\<lparr>ds_hosts := [(''h'', ex_host ''h'' 1000)]\<rparr>) t \<and> td_Version (tk_TaskDefinition t) = v"
proof
  fix t
  assume "t \<in> ran (issued ex_cluster (ex_deployment n) (lookup (mk_tasks (ex_backend (map (ex_task v) is)))))"
  then obtain i where "t = ex_task v i" unfolding ex_issued ran_def by (auto dest!: map_of_SomeD)
  then show "in_place (ex_scheduler\<lparr>ds_hosts := [(''h'', ex_host ''h'' 1000)]\<rparr>) t \<and> td_Version (tk_TaskDefinition t) = v"
    by (simp add: in_place_def host_gone_def ex_task_fields)
qed

lemma ex_dom:
  "dom (issued ex_cluster (ex_deployment n) (lookup (mk_tasks (ex_backend (map (ex_task v) is))))) =
    (\<lambda>i. task_ID (ex_task v i)) ` set is"
  unfolding ex_issued dom_map_of_conv_image_fst by force

lemma ex_sync:
  "syncHosts (mock_api ord) (ex_backend ts) ex_scheduler =
    Returns (None, ex_scheduler\<lparr>ds_hosts := [(''h'', ex_host ''h'' 1000)]\<rparr>)"
  by (simp add: ex_eval arrange_single)

lemma ex_names: "cl_Name ex_cluster \<noteq> ''''" "dp_Name (ex_deployment n) \<noteq> ''''"
  "dp_Desired (ex_deployment n) = n" "dp_Min (ex_deployment n) = 1" "dp_TaskVersion (ex_deployment n) = 1"
  by (simp_all add: ex_cluster_def ex_deployment_def)

lemma ex_good: "mock_good (ex_backend ts)"
  by (induction ts)
    (auto simp: ex_backend_def mock_good_def NewMockApi_def keyed_by_def ex_host_def ex_definition_def)

section \<open>Where tasks stand\<close>

text \<open>
  C1. After a call, every task of the deployment that is scheduled stands on a host the scheduler
  knows and was not rejected, whatever was scheduled before.
\<close>

theorem schedule_in_place:
  assumes "Schedule (mock_api ord) ch d s b = Returns (None, s', b')"
    and "mock_good b" and "hosts_keyed s" and "ds_cluster s = Some cl" and "cl_Name cl \<noteq> ''''" and "dp_Name d \<noteq> ''''"
    and "lookup (mk_tasks b') k = Some t" and "tk_Cluster t = cl_Name cl" and "tk_Deployment t = dp_Name d"
    and "tk_Scheduled t"
  shows "(\<exists>h. lookup (ds_hosts s') (tk_Host t) = Some h) \<and> \<not> tk_Rejected t"
proof -
  have "issued cl d (lookup (mk_tasks b')) k = Some t" using assms by (simp add: issued_Some own_def)
  with assms have "in_place s' t"
    by (intro mock_tasks.Schedule_in_place [of ord ch d s b s' b' cl k t]) (simp_all add: named_def)
  then show ?thesis by (auto simp: in_place_def host_gone_def)
qed

theorem schedule_in_place_witness:
  "\<exists>t. lookup (mk_tasks (snd (ex_after 2 []))) ''c-d-1-1'' = Some t \<and> \<not> tk_Rejected t"
proof -
  have t: "\<exists>t. lookup (mk_tasks (snd (ex_after 2 []))) ''c-d-1-1'' = Some t \<and> tk_Cluster t = ''c'' \<and>
      tk_Deployment t = ''d'' \<and> tk_Scheduled t"
    by (simp add: ex_after_def ex_eval)
  have run: "Schedule (mock_api listed_order) ex_choices (ex_deployment 2) ex_scheduler (ex_backend []) =
      Returns (None, fst (ex_after 2 []), snd (ex_after 2 []))" using ex_calls by simp
  from t show ?thesis
    using schedule_in_place [OF run ex_good ex_premises(1,2)] by (auto simp: ex_cluster_def ex_deployment_def)
qed

section \<open>Capacity\<close>

text \<open>
  C2. No host is promised more than it has: what all new tasks on a host need of memory, CPU and disk,
  together with what is left there afterwards, is at most what the host had when the call read it,
  and what is left is not negative.
\<close>

theorem schedule_no_oversubscription:
  assumes "Schedule (mock_api ord) ch d s b = Returns (None, s', b')"
    and "mock_good b" and "hosts_keyed s" and "ds_cluster s = Some cl" and "cl_Name cl \<noteq> ''''" and "dp_Name d \<noteq> ''''"
    and "lookup (mk_taskDefinitions b) (dp_TaskName d) = Some td"
    and "syncHosts (mock_api ord) b s = Returns (None, s1)"
    and "(figure, need) \<in> {(rs_Memory, cn_Memory), (rs_CpuUnits, cn_CpuUnits), (rs_DiskSpace, cn_DiskUse)}"
    and "0 \<le> need (Counts td)"
    and "\<forall>h \<in> ran (lookup (ds_hosts s1)).
      0 \<le> figure (ho_CalculatedResources h) \<and> in_int64 (figure (ho_CalculatedResources h))"
    and "lookup (ds_hosts s') n = Some h'"
  shows "\<exists>h. lookup (ds_hosts s1) n = Some h \<and> 0 \<le> figure (ho_CalculatedResources h') \<and>
    figure (ho_CalculatedResources h') +
      int (card (new_on cl d (lookup (mk_tasks b)) (lookup (mk_tasks b')) n)) * need (Counts td)
    \<le> figure (ho_CalculatedResources h)"
proof -
  have "charged (\<lambda>h. figure (ho_CalculatedResources h)) (\<lambda>td. need (Counts td))"
    using assms(9) charged_resources [unfolded comp_def] by auto
  moreover have "GetTaskDefinition (mock_api ord) (dp_TaskName d) (dp_TaskVersion d) b = Ok td"
    using assms(7) by (simp add: mock_api_def mock_get_defs)
  ultimately have "covers (\<lambda>h. figure (ho_CalculatedResources h)) (need (Counts td)) (ds_hosts s1) (ds_hosts s')
      (new_on cl d (lookup (mk_tasks b)) (lookup (mk_tasks b'))) \<and>
      in_stock (\<lambda>h. figure (ho_CalculatedResources h)) (ds_hosts s')"
    using assms by (intro mock_tasks.Schedule_covers [of ord ch d s b s' b' cl td s1 _ "\<lambda>td. need (Counts td)"]) (simp_all add: named_def in_stock_def)
  then show ?thesis using assms(12) by (auto simp: covers_def in_stock_def ran_def)
qed

theorem schedule_no_oversubscription_witness:
  "\<exists>h'. lookup (ds_hosts (fst (ex_after 2 []))) ''h'' = Some h' \<and>
    rs_Memory (ho_CalculatedResources h') +
      int (card (new_on ex_cluster (ex_deployment 2) Map.empty (lookup (mk_tasks (snd (ex_after 2 [])))) ''h'')) * 100 \<le> 1000"
proof -
  have run: "Schedule (mock_api listed_order) ex_choices (ex_deployment 2) ex_scheduler (ex_backend []) =
      Returns (None, fst (ex_after 2 []), snd (ex_after 2 []))" using ex_calls by simp
  obtain h' where h': "lookup (ds_hosts (fst (ex_after 2 []))) ''h'' = Some h'"
    by (simp add: ex_after_def ex_eval)
  have need: "cn_Memory (Counts (ex_definition v)) = 100" for v by (simp add: ex_eval)
  show ?thesis
    using schedule_no_oversubscription [OF run ex_good ex_premises(1,2), of "ex_definition 1" _ rs_Memory cn_Memory, OF _ _ _ ex_sync _ _ _ h'] h'
    by (simp add: need ex_cluster_def ex_deployment_def ex_backend_def NewMockApi_def ex_host_def box_def in_int64_def)
qed

section \<open>How many tasks\<close>

text \<open>
  C4. A call leaves at least the desired number of tasks scheduled if some host has room for that many
  of them, the task definition is the one asked for and reserves no fixed ports.
\<close>

theorem schedule_reaches_desired:
  assumes "Schedule (mock_api ord) ch d s b = Returns (None, s', b')"
    and "mock_good b" and "hosts_keyed s" and "ds_cluster s = Some cl" and "cl_Name cl \<noteq> ''''" and "dp_Name d \<noteq> ''''"
    and "syncHosts (mock_api ord) b s = Returns (None, s1)"
    and "lookup (mk_taskDefinitions b) (dp_TaskName d) = Some td" and "td_Version td = dp_TaskVersion d"
    and "lookup (ds_hosts s1) n = Some h" and "room_for td (dp_Desired d) h" and "lookup (ds_hosts s1) '''' = None"
    and "modest td" and "0 \<le> dp_Desired d"
  shows "dp_Desired d \<le> int (card (dom (issued cl d (lookup (mk_tasks b')))))"
proof -
  have "GetTaskDefinition (mock_api ord) (dp_TaskName d) (dp_TaskVersion d) b = Ok td"
    using assms(8) by (simp add: mock_api_def mock_get_defs)
  moreover have "roomy td (dp_Desired d) s1" using assms(10-12) unfolding roomy_def by (meson ranI)
  ultimately show ?thesis
    using assms by (intro mock_tasks.Schedule_reaches_desired [of ord ch d s b s' b' cl s1 td]) (simp_all add: named_def)
qed

theorem schedule_reaches_desired_witness:
  "2 \<le> int (card (dom (issued ex_cluster (ex_deployment 2) (lookup (mk_tasks (snd (ex_after 2 [])))))))"
proof -
  have run: "Schedule (mock_api listed_order) ex_choices (ex_deployment 2) ex_scheduler (ex_backend []) =
      Returns (None, fst (ex_after 2 []), snd (ex_after 2 []))" using ex_calls by simp
  have "room_for (ex_definition 1) 2 (ex_host ''h'' 1000)" "modest (ex_definition 1)"
    by (simp_all add: room_for_def modest_def ex_eval)
  then show ?thesis
    using schedule_reaches_desired [OF run ex_good ex_premises(1,2), of _ "ex_definition 1" "''h''" "ex_host ''h'' 1000", OF _ _ ex_sync]
    by (simp add: ex_cluster_def ex_deployment_def ex_backend_def ex_definition_def NewMockApi_def)
qed

text \<open>
  C3. While no host is lost and no task was rejected, replacing old versions and scaling down keep at
  least the minimum of the deployment scheduled, or all that were scheduled if they were fewer.
\<close>

theorem schedule_keeps_minimum:
  assumes "Schedule (mock_api ord) ch d s b = Returns (None, s', b')"
    and "mock_good b" and "hosts_keyed s" and "ds_cluster s = Some cl" and "cl_Name cl \<noteq> ''''" and "dp_Name d \<noteq> ''''"
    and "syncHosts (mock_api ord) b s = Returns (None, s1)"
    and "\<forall>t \<in> ran (issued cl d (lookup (mk_tasks b))). in_place s1 t"
    and "dp_Min d \<le> dp_Desired d" and "in_int64 (dp_Desired d - 1)"
  shows "min (int (card (dom (issued cl d (lookup (mk_tasks b)))))) (dp_Min d)
    \<le> int (card (dom (issued cl d (lookup (mk_tasks b')))))"
  using assms by (intro mock_tasks.Schedule_minimum [of ord ch d s b s' b' cl s1]) (simp_all add: named_def)

theorem schedule_keeps_minimum_witness:
  "1 \<le> int (card (dom (issued ex_cluster (ex_deployment 2)
    (lookup (mk_tasks (snd (ex_after 2 [ex_task 0 0, ex_task 0 1])))))))"
proof -
  let ?ts = "[ex_task 0 0, ex_task 0 1]"
  have run: "Schedule (mock_api listed_order) ex_choices (ex_deployment 2) ex_scheduler (ex_backend ?ts) =
      Returns (None, fst (ex_after 2 ?ts), snd (ex_after 2 ?ts))"
    using ex_calls by simp
  note dom = ex_dom [of 2 0 "[0, 1]", unfolded list.map]
  have "task_ID (ex_task 0 0) \<noteq> task_ID (ex_task 0 1)"
    by (simp add: task_ID_def ex_task_def NewTask_def task_Name_def)
  then have two: "card (dom (issued ex_cluster (ex_deployment 2) (lookup (mk_tasks (ex_backend ?ts))))) = 2"
    unfolding dom by simp
  have "\<forall>t \<in> ran (issued ex_cluster (ex_deployment 2) (lookup (mk_tasks (ex_backend ?ts)))).
      in_place (ex_scheduler\<lparr>ds_hosts := [(''h'', ex_host ''h'' 1000)]\<rparr>) t"
    using ex_place [of 2 0 "[0, 1]", unfolded list.map] by blast
  from schedule_keeps_minimum [OF run ex_good ex_premises(1,2) ex_names(1,2) ex_sync this] show ?thesis
    by (simp add: two ex_names in_int64_def)
qed

text \<open>
  C6. A deployment whose instances \<open>0\<close> to \<open>n - 1\<close> are scheduled in the current version is scaled down to
  the desired number from the top: exactly the lower instances stay, unchanged.
\<close>

theorem schedule_scales_down:
  assumes "Schedule (mock_api ord) ch d s b = Returns (None, s', b')"
    and "mock_good b" and "hosts_keyed s" and "ds_cluster s = Some cl" and "cl_Name cl \<noteq> ''''" and "dp_Name d \<noteq> ''''"
    and "syncHosts (mock_api ord) b s = Returns (None, s1)"
    and "\<forall>t \<in> ran (issued cl d (lookup (mk_tasks b))).
      in_place s1 t \<and> td_Version (tk_TaskDefinition t) = dp_TaskVersion d"
    and "dom (issued cl d (lookup (mk_tasks b))) = MakeTaskId cl d ` {0..<n}"
    and "0 \<le> dp_Desired d" and "dp_Desired d < n" and "in_int64 (dp_Desired d - 1)"
  shows "issued cl d (lookup (mk_tasks b')) =
    issued cl d (lookup (mk_tasks b)) |` (MakeTaskId cl d ` {0..<dp_Desired d})"
  using assms by (intro mock_tasks.Schedule_scales_down [of ord ch d s b s' b' cl s1 n]) (simp_all add: named_def)

theorem schedule_scales_down_witness:
  "dom (issued ex_cluster (ex_deployment 1) (lookup (mk_tasks (snd (ex_after 1 [ex_task 1 0, ex_task 1 1]))))) =
    {''c-d-1-0''}"
proof -
  let ?ts = "[ex_task 1 0, ex_task 1 1]"
  have run: "Schedule (mock_api listed_order) ex_choices (ex_deployment 1) ex_scheduler (ex_backend ?ts) =
      Returns (None, fst (ex_after 1 ?ts), snd (ex_after 1 ?ts))"
    using ex_calls by simp
  have range: "{0..<2::int} = {0, 1}" "{0..<1::int} = {0}" by auto
  have dom: "dom (issued ex_cluster (ex_deployment 1) (lookup (mk_tasks (ex_backend ?ts)))) =
      MakeTaskId ex_cluster (ex_deployment 1) ` {0..<2}"
    unfolding range ex_dom [of 1 1 "[0, 1]", unfolded list.map] by (simp add: ex_task_fields(6) [of _ 1, simplified])
  have place: "\<forall>t \<in> ran (issued ex_cluster (ex_deployment 1) (lookup (mk_tasks (ex_backend ?ts)))).
      in_place (ex_scheduler\<lparr>ds_hosts := [(''h'', ex_host ''h'' 1000)]\<rparr>) t \<and>
      td_Version (tk_TaskDefinition t) = dp_TaskVersion (ex_deployment 1)"
    using ex_place [of 1 1 "[0, 1]", unfolded list.map] by (simp only: ex_names)
  have "MakeTaskId ex_cluster (ex_deployment 1) 0 = ''c-d-1-0''" by (simp add: ex_eval)
  with schedule_scales_down [OF run ex_good ex_premises(1,2) ex_names(1,2) ex_sync place dom] show ?thesis
    by (simp add: ex_names in_int64_def dom [unfolded One_nat_def] range)
qed

text \<open>
  C26. A settled deployment is left alone: with the desired number of tasks scheduled, all in the current
  version and on known hosts, the call returns without writing anything.
\<close>

theorem schedule_settled:
  assumes "mock_good b" and "ds_cluster s = Some cl" and "cl_Name cl \<noteq> ''''" and "dp_Name d \<noteq> ''''"
    and "syncHosts (mock_api ord) b s = Returns (None, s1)" and "lookup (ds_hosts s1) n \<noteq> None"
    and "lookup (mk_taskDefinitions b) (dp_TaskName d) \<noteq> None"
    and "\<forall>t \<in> ran (issued cl d (lookup (mk_tasks b))).
      in_place s1 t \<and> td_Version (tk_TaskDefinition t) = dp_TaskVersion d"
    and "int (card (dom (issued cl d (lookup (mk_tasks b))))) = dp_Desired d"
  shows "Schedule (mock_api ord) ch d s b = Returns (None, s1, b)"
proof -
  obtain td where "GetTaskDefinition (mock_api ord) (dp_TaskName d) (dp_TaskVersion d) b = Ok td"
    using assms(7) by (auto simp: mock_api_def mock_get_defs)
  then show ?thesis
    using assms by (intro mock_tasks.Schedule_settled) (auto simp: named_def)
qed

theorem schedule_settled_witness:
  "Schedule (mock_api reversed_order) ex_choices (ex_deployment 1) ex_scheduler (ex_backend [ex_task 1 5]) =
    Returns (None, ex_scheduler\<lparr>ds_hosts := [(''h'', ex_host ''h'' 1000)]\<rparr>, ex_backend [ex_task 1 5])"
proof -
  have place: "\<forall>t \<in> ran (issued ex_cluster (ex_deployment 1) (lookup (mk_tasks (ex_backend [ex_task 1 5])))).
      in_place (ex_scheduler\<lparr>ds_hosts := [(''h'', ex_host ''h'' 1000)]\<rparr>) t \<and>
      td_Version (tk_TaskDefinition t) = dp_TaskVersion (ex_deployment 1)"
    using ex_place [of 1 1 "[5]", unfolded list.map] by (simp only: ex_names)
  have "int (card (dom (issued ex_cluster (ex_deployment 1) (lookup (mk_tasks (ex_backend [ex_task 1 5])))))) = 1"
    unfolding ex_dom [of 1 1 "[5]", unfolded list.map] by simp
  then show ?thesis
    by (intro schedule_settled [OF ex_good ex_premises(2) ex_names(1,2) ex_sync, where n = "''h''"] place)
      (simp_all add: ex_deployment_def ex_backend_def NewMockApi_def)
qed

section \<open>What a call touches and how it ends\<close>





text \<open>With a table of hosts filed by name, no call panics, whatever a backend answers that does not
  itself panic.\<close>

theorem schedule_no_panic: "hosts_keyed s \<Longrightarrow> calm api b \<Longrightarrow> Schedule api ch d s b \<noteq> Panics"
  by (rule Schedule_no_panic)

theorem schedule_no_panic_witness:
  "Schedule (mock_api listed_order) ex_choices (ex_deployment 2) NewDefaultScheduler (ex_backend []) \<noteq> Panics"
  by (rule schedule_no_panic [OF hosts_keyed_new calm_mock])

end
