(* ===== verification/Selection_Properties.thy ===== *)
theory Selection_Properties
  imports Schedule_Properties
begin

text \<open>
  The properties of the parts of the scheduler (the choice of a host, of a port, the ranking, the sync of
  the hosts), and runs on the example cluster that show where a call does more or less than intended.
\<close>

section \<open>Hosts\<close>

text \<open>
  C36. The scheduler selects a host exactly when one fits: no host only if on every known host a figure
  would become negative or a port is reserved, and otherwise a host where none of this happens.
\<close>

theorem select_host_exact:
  assumes "keyed_by ho_Name hosts" and "lookup hosts '''' = None"
  shows "if fst (selectHost ord hosts name t) = ''''
    then \<forall>h \<in> ran (lookup hosts). \<not> nonneg (place_on t h) \<or>
      set (AllPorts (tk_TaskDefinition t)) \<inter> set (ho_ReservedPorts h) \<noteq> {}
    else \<exists>h. lookup hosts (fst (selectHost ord hosts name t)) = Some h \<and> nonneg (place_on t h) \<and>
      set (AllPorts (tk_TaskDefinition t)) \<inter> set (ho_ReservedPorts h) = {}"
proof -
  have fits: "matchHost t h = None \<longleftrightarrow> nonneg (place_on t h) \<and>
      set (AllPorts (tk_TaskDefinition t)) \<inter> set (ho_ReservedPorts h) = {}" for h
    by (simp add: matchHost_None_iff nonneg_def has_room_def Let_def)
  show ?thesis
  proof (cases "fst (selectHost ord hosts name t) = ''''")
    case True
    then have "\<forall>h \<in> ran (lookup hosts). matchHost t h \<noteq> None"
      using selectHost_none [OF assms(1) True _ assms(2)] by (auto simp: ran_def)
    with True show ?thesis unfolding fits by simp
  next
    case False
    then show ?thesis using selectHost_found [OF assms(1) False] unfolding fits by simp
  qed
qed

theorem select_host_exact_witness:
  "\<exists>h. lookup [(''h'', ex_host ''h'' 1000)] ''h'' = Some h \<and> nonneg (place_on (ex_task 1 0) h)"
proof -
  have "fst (selectHost listed_order [(''h'', ex_host ''h'' 1000)] ''spread'' (ex_task 1 0)) = ''h''"
    by (simp add: ex_eval)
  then show ?thesis
    using select_host_exact [of "[(''h'', ex_host ''h'' 1000)]" listed_order "''spread''" "ex_task 1 0"]
    by (simp add: keyed_by_def ex_host_def)
qed

text \<open>
  The sync takes over every listed host that is not draining as it is listed, and leaves the entry of
  every other host as it was: a host that was seen once stays in the table when it drains or is deleted.
\<close>

theorem sync_hosts_entries:
  assumes "syncHosts api b s = Returns (None, s')" and "ds_cluster s = Some cl"
    and "ListHosts api (cl_Name cl) b = Ok hs" and "distinct (map ho_Name hs)"
  shows "lookup (ds_hosts s') n =
    (case find (\<lambda>h. ho_Name h = n \<and> \<not> ho_Draining h) hs of Some h \<Rightarrow> Some h | None \<Rightarrow> lookup (ds_hosts s) n)"
proof -
  have s': "ds_hosts s' = fold sync_host hs (ds_hosts s)"
    using assms(1-3) by (auto simp: syncHosts_def)
  show ?thesis
  proof (cases "find (\<lambda>h. ho_Name h = n \<and> \<not> ho_Draining h) hs")
    case None
    then have "\<forall>h \<in> set hs. ho_Name h = n \<longrightarrow> ho_Draining h" by (auto simp: find_None_iff)
    then show ?thesis using None by (simp add: s' sync_hosts_lookup_other)
  next
    case (Some h)
    then have "h \<in> set hs" "ho_Name h = n" "\<not> ho_Draining h"
      by (auto simp: find_Some_iff)
    then show ?thesis using Some sync_hosts_lookup_live [OF assms(4), of h] by (simp add: s')
  qed
qed

theorem sync_hosts_entries_witness:
  "lookup (ds_hosts (ex_scheduler\<lparr>ds_hosts := [(''h'', ex_host ''h'' 1000)]\<rparr>)) ''h'' = Some (ex_host ''h'' 1000)"
proof -
  have "ListHosts (mock_api listed_order) (cl_Name ex_cluster) (ex_backend []) = Ok [ex_host ''h'' 1000]"
    by (simp add: ex_eval)
  from sync_hosts_entries [OF ex_sync ex_premises(2) this] show ?thesis
    by (simp add: ex_host_def)
qed

section \<open>Ports\<close>

text \<open>
  A port that is handed out is not among the reserved ports of the host of the task, is a port
  number from 8000 up, and is remembered as the highest of that host.
\<close>

theorem select_port_free:
  assumes "selectPort t s draws = Returns (p, s', draws')" and "lookup (ds_hosts s) (tk_Host t) = Some h"
    and "plausible_ports (ho_ReservedPorts h)" and "max_port s (ho_Name h) \<le> 65535"
  shows "p \<notin> set (ho_ReservedPorts h) \<and> 8000 \<le> p \<and> p \<le> 65535 \<and> max_port s' (ho_Name h) = p"
proof -
  from assms(1,2) have loop: "port_loop (first_port (max_port s (ho_Name h)) (shd draws)) (ho_ReservedPorts h) (stl draws) =
      Some (p, draws')" and s': "s' = s\<lparr>ds_maxPort := insert_key (ho_Name h) p (ds_maxPort s)\<rparr>"
    by (auto elim!: selectPort_cases)
  have "8000 \<le> first_port (max_port s (ho_Name h)) (shd draws)"
    using first_port_range [OF assms(4), of "shd draws"] by simp
  with port_loop_free [OF loop] port_loop_low [OF loop assms(3)] s' show ?thesis
    by (simp add: max_port_def)
qed

theorem select_port_free_witness:
  "\<exists>p s' draws'. selectPort (ex_task 1 0) (ex_scheduler\<lparr>ds_hosts := [(''h'', ex_host ''h'' 1000)]\<rparr>) (sconst 7) =
    Returns (p, s', draws') \<and> 8000 \<le> p \<and> p \<le> 65535"
proof -
  let ?s = "ex_scheduler\<lparr>ds_hosts := [(''h'', ex_host ''h'' 1000)]\<rparr>"
  have sane: "ports_sane ?s" by (simp add: ports_sane_def max_port_def ex_scheduler_def SetCluster_def NewDefaultScheduler_def)
  have h: "lookup (ds_hosts ?s) (tk_Host (ex_task 1 0)) = Some (ex_host ''h'' 1000)" by (simp add: ex_task_fields)
  have low: "\<forall>q \<in> set (ho_ReservedPorts (ex_host ''h'' 1000)). q < 8000" by (simp add: ex_host_def)
  obtain p s' draws' where r: "selectPort (ex_task 1 0) ?s (sconst 7) = Returns (p, s', draws')"
    using selectPort_returns [OF h sane low] by blast
  have "plausible_ports (ho_ReservedPorts (ex_host ''h'' 1000))" by (simp add: plausible_ports_def ex_host_def)
  with select_port_free [OF r h] sane r show ?thesis by (auto simp: ports_sane_def)
qed

text \<open>
  The search for a port comes back when no reserved port number is above 65535, port 8000 is free
  and no draw is zero: it moves up past the reserved ports and wraps around once at most.
\<close>

theorem port_search_returns:
  assumes "lookup (ds_hosts s) (tk_Host t) = Some h" and "\<forall>q \<in> set (ho_ReservedPorts h). q \<le> 65535"
    and "8000 \<notin> set (ho_ReservedPorts h)" and "\<forall>n. draws !! n mod 1000 \<noteq> 0"
  shows "\<exists>p s' draws'. selectPort t s draws = Returns (p, s', draws')"
proof -
  have "\<forall>n. stl draws !! n mod 1000 \<noteq> 0" using assms(4) by (metis snth.simps(2))
  then obtain r where "port_loop (first_port (max_port s (ho_Name h)) (shd draws)) (ho_ReservedPorts h) (stl draws) = Some r"
    using port_loop_returns [OF assms(2,3)] by blast
  with assms(1) show ?thesis by (cases r) (simp add: selectPort_def)
qed

theorem port_search_returns_witness:
  "\<exists>p s' draws'. selectPort (ex_task 1 0)
    (ex_scheduler\<lparr>ds_hosts := [(''h'', (ex_host ''h'' 1000)\<lparr>ho_ReservedPorts := [9000, 9001, 65535]\<rparr>)]\<rparr>) (sconst 1) =
    Returns (p, s', draws')"
  by (rule port_search_returns [where h = "(ex_host ''h'' 1000)\<lparr>ho_ReservedPorts := [9000, 9001, 65535]\<rparr>"])
    (simp_all add: ex_task_fields)

text \<open>
  With every port from 8000 up reserved the search never comes back, whatever is drawn, although the
  host may have free ports below; \<open>selectPort\<close> holds the lock of the scheduler meanwhile and reports no
  error.
\<close>

theorem port_search_exhausted:
  assumes "lookup (ds_hosts s) (tk_Host t) = Some h" and "{8000..65535} \<subseteq> set (ho_ReservedPorts h)"
    and "plausible_ports (ho_ReservedPorts h)" and "max_port s (ho_Name h) \<le> 65535"
  shows "selectPort t s draws = Hangs"
  using assms first_port_range [OF assms(4), of "shd draws"]
    port_loop_exhausted [OF assms(2,3), of "first_port (max_port s (ho_Name h)) (shd draws)" "stl draws"]
  by (simp add: selectPort_def)

theorem port_search_exhausted_witness:
  "selectPort (ex_task 1 0)
    (ex_scheduler\<lparr>ds_hosts := [(''h'', (ex_host ''h'' 1000)\<lparr>ho_ReservedPorts := sorted_list_of_set {8000..65535}\<rparr>)]\<rparr>) (sconst 1) = Hangs"
  by (rule port_search_exhausted [where h = "(ex_host ''h'' 1000)\<lparr>ho_ReservedPorts := sorted_list_of_set {8000..65535}\<rparr>"])
    (auto simp: ex_task_fields plausible_ports_def max_port_def ex_scheduler_def SetCluster_def NewDefaultScheduler_def)

text \<open>
  A port handed out before is not reserved: when the next draw is zero, the same port is handed out
  again on the same host.
\<close>

theorem select_port_repeats:
  assumes "selectPort t s draws = Returns (p, s', draws')" and "lookup (ds_hosts s) (tk_Host t) = Some h"
    and "shd next mod 2000 = 0" and "9000 \<le> p"
  shows "selectPort t s' next = Returns (p, s'\<lparr>ds_maxPort := insert_key (ho_Name h) p (ds_maxPort s')\<rparr>, stl next)"
proof -
  from assms(1,2) have loop: "port_loop (first_port (max_port s (ho_Name h)) (shd draws)) (ho_ReservedPorts h) (stl draws) =
      Some (p, draws')" and s': "s' = s\<lparr>ds_maxPort := insert_key (ho_Name h) p (ds_maxPort s)\<rparr>"
    by (auto elim!: selectPort_cases)
  have free: "p \<notin> set (ho_ReservedPorts h)" "p \<le> 65535" using port_loop_free [OF loop] by simp_all
  have "max_port s' (ho_Name h) = p" by (simp add: s' max_port_def)
  moreover have "first_port p (shd next) = p" using assms(3,4) free by (simp add: first_port_def Let_def u64_id)
  ultimately show ?thesis
    using assms(2) free by (simp add: selectPort_def s' port_loop_here)
qed

theorem select_port_repeats_witness:
  "\<exists>p s' s''. selectPort (ex_task 1 0) (ex_scheduler\<lparr>ds_hosts := [(''h'', ex_host ''h'' 1000)]\<rparr>) (sconst 0) =
      Returns (p, s', sconst 0) \<and> selectPort (ex_task 1 1) s' (sconst 0) = Returns (p, s'', sconst 0)"
proof -
  let ?s = "ex_scheduler\<lparr>ds_hosts := [(''h'', ex_host ''h'' 1000)]\<rparr>"
  have h: "lookup (ds_hosts ?s) (tk_Host (ex_task 1 0)) = Some (ex_host ''h'' 1000)" by (simp add: ex_task_fields)
  have n: "ho_Name (ex_host ''h'' 1000) = ''h''" "ho_ReservedPorts (ex_host ''h'' 1000) = []"
    and fp: "first_port 0 0 = 9000" by (simp_all add: ex_host_def first_port_def u64_id)
  have p: "max_port ?s ''h'' = 0" by (simp add: ex_scheduler_def SetCluster_def NewDefaultScheduler_def max_port_def)
  have "selectPort (ex_task 1 0) ?s (sconst 0) =
      Returns (9000, ?s\<lparr>ds_maxPort := insert_key ''h'' 9000 (ds_maxPort ?s)\<rparr>, sconst 0)"
    unfolding selectPort_def h by (simp add: n p fp port_loop_here)
  moreover from select_port_repeats [OF this h, of "sconst 0"]
  have "selectPort (ex_task 1 1) (?s\<lparr>ds_maxPort := insert_key ''h'' 9000 (ds_maxPort ?s)\<rparr>) (sconst 0) = 
      Returns (9000, ?s\<lparr>ds_maxPort := insert_key ''h'' 9000 (insert_key ''h'' 9000 (ds_maxPort ?s))\<rparr>, sconst 0)"
    by (simp add: selectPort_def ex_task_fields n)
  ultimately show ?thesis by blast
qed

section \<open>The ranking\<close>

text \<open>
  A ranking holds every known host exactly once with its score, and its last entry has the lowest
  score, in whatever order the map of hosts is visited.
\<close>

theorem rank_permutation:
  "mset (rank ord hosts f) = mset (map (\<lambda>h. \<lparr>rk_Name = ho_Name h, rk_Score = f h\<rparr>) (range_values ord hosts)) \<and>
   (\<forall>r \<in> set (rank ord hosts f). rk_Score (last (rank ord hosts f)) \<le> rk_Score r)"
  using mset_rank [of ord hosts f] last_lowest_rank [of ord hosts f] by (simp add: last_lowest_def)

theorem rank_permutation_witness:
  "rk_Name ` set (SpreadRanker listed_order [(''h'', ex_host ''h'' 1), (''g'', ex_host ''g'' 2)]) = {''g'', ''h''} \<and>
   rk_Score (last (SpreadRanker listed_order [(''h'', ex_host ''h'' 1), (''g'', ex_host ''g'' 2)])) = 13"
proof -
  let ?hosts = "[(''h'', ex_host ''h'' 1), (''g'', ex_host ''g'' 2)]"
  have "\<forall>r \<in> set (rank listed_order ?hosts score). rk_Score (last (rank listed_order ?hosts score)) \<le> rk_Score r"
    using rank_permutation [of listed_order ?hosts score] by blast
  then show ?thesis by (simp add: ex_eval)
qed

text \<open>
  Three hosts can come out of the ranking with the best one in the middle: the host visited last is
  put in front of the neighbour it should follow.
\<close>

theorem rank_misplaces:
  "map rk_Name (SpreadRanker listed_order
      [(''low'', ex_host ''low'' 100), (''high'', ex_host ''high'' 300), (''mid'', ex_host ''mid'' 200)]) =
    [''mid'', ''high'', ''low'']"
  by (simp add: ex_eval)

section \<open>Runs that do more or less than intended\<close>

text \<open>
  An update of two tasks to a new version, with at most two tasks allowed, leaves three scheduled:
  the minimum keeps one old task while both new ones are issued; the maximum is not looked at.
\<close>

theorem update_exceeds_maximum:
  "dp_Max (ex_deployment 2) = 2 \<and>
   ex_flags (snd (ex_after 2 [ex_task 0 0, ex_task 0 1])) =
     [(''c-d-0-0'', False), (''c-d-0-1'', True), (''c-d-1-0'', True), (''c-d-1-1'', True)]"
  by (simp add: ex_after_def ex_flags_def ex_eval)

text \<open>
  A task that was rejected on a host that is gone is counted as removed twice, so of four tasks with
  two desired, three stay scheduled: scaling down does not happen.
\<close>

theorem lost_and_rejected_counted_twice:
  "ex_flags (snd (ex_after 2
      [(ex_task 1 3)\<lparr>tk_Host := ''gone'', tk_Rejected := True\<rparr>, ex_task 1 0, ex_task 1 1, ex_task 1 2])) =
     [(''c-d-1-3'', False), (''c-d-1-0'', True), (''c-d-1-1'', True), (''c-d-1-2'', True)]"
  by (simp add: ex_after_def ex_flags_def ex_eval)

end
