(* ===== verification/Scheduler_Locks.thy ===== *)
theory Scheduler_Locks
  imports Mock_Api
begin

text \<open>
  The cluster-wide locks of the master (src/master/lockers.go): one lock object per deployment, made on
  first use and kept. The mutex of the struct makes \<open>Lock\<close> and \<open>Unlock\<close> one step each. The contract of
  the lock objects is the locale \<open>lock_service\<close>; the in-memory backend keeps it, and is shown to grant a
  lock that is already held.
\<close>

section \<open>Definitions\<close>

record 'l scheduler_locks =
  sl_locks :: "(string, 'l) gomap"

definition NewSchedulerLocks :: "'l scheduler_locks" where
  "NewSchedulerLocks = \<lparr>sl_locks = []\<rparr>"

text \<open>The object is stored also when locking it fails; the caller gets it in every case but the first.\<close>

definition lock_stored ::
  "('b, 'l) lock_api \<Rightarrow> string \<Rightarrow> 'l \<Rightarrow> 'l scheduler_locks \<times> 'b \<Rightarrow> ('l scheduler_locks \<times> 'b) \<times> 'l reply" where
  "lock_stored la name l = (\<lambda>(s, b).
     (case LockIt la l b of ((l', b'), err) \<Rightarrow>
        ((s\<lparr>sl_locks := insert_key name l' (sl_locks s)\<rparr>, b'),
         (case err of Some e \<Rightarrow> Fail e (Some l') | None \<Rightarrow> Ok l'))))"

definition SchedulerLocks_Lock ::
  "('b, 'l) lock_api \<Rightarrow> string \<Rightarrow> 'l scheduler_locks \<times> 'b \<Rightarrow> ('l scheduler_locks \<times> 'b) \<times> 'l reply" where
  "SchedulerLocks_Lock la serviceName = (\<lambda>(s, b).
     (case lookup (sl_locks s) serviceName of
        None \<Rightarrow>
          (case NewLock la (''schedulers/'' @ serviceName) False b of
             Ok l \<Rightarrow> lock_stored la serviceName l (s, b)
           | Fail e l \<Rightarrow> ((s, b), Fail e l)
           | Stops how \<Rightarrow> ((s, b), Stops how))
      | Some l \<Rightarrow> lock_stored la serviceName l (s, b)))"

definition SchedulerLocks_Unlock ::
  "('b, 'l) lock_api \<Rightarrow> string \<Rightarrow> 'l scheduler_locks \<times> 'b \<Rightarrow> 'l scheduler_locks \<times> 'b" where
  "SchedulerLocks_Unlock la serviceName = (\<lambda>(s, b).
     (case lookup (sl_locks s) serviceName of
        None \<Rightarrow> (s, b)
      | Some l \<Rightarrow>
          (case UnlockIt la l b of ((l', b'), _) \<Rightarrow>
             (s\<lparr>sl_locks := insert_key serviceName l' (sl_locks s)\<rparr>, b'))))"

definition SchedulerLocks_Stop ::
  "('b, 'l) lock_api \<Rightarrow> map_order \<Rightarrow> 'l scheduler_locks \<times> 'b \<Rightarrow> 'l scheduler_locks \<times> 'b" where
  "SchedulerLocks_Stop la ord = (\<lambda>(s, b).
     fold (SchedulerLocks_Unlock la) (range_keys ord (sl_locks s)) (s, b))"

definition holds :: "('b, 'l) lock_api \<Rightarrow> string \<Rightarrow> 'l scheduler_locks \<times> 'b \<Rightarrow> bool" where
  "holds la name = (\<lambda>(s, b). case lookup (sl_locks s) name of None \<Rightarrow> False | Some l \<Rightarrow> IsHeld la l b)"

section \<open>What a lock object promises\<close>

locale lock_service =
  fixes la :: "('b, 'l) lock_api"
    and key :: "'l \<Rightarrow> string"
  assumes new_key: "NewLock la k block b = Ok l \<Longrightarrow> key l = k"
    and lock_key: "LockIt la l b = ((l', b'), e) \<Longrightarrow> key l' = key l"
    and lock_other: "LockIt la l b = ((l', b'), e) \<Longrightarrow> key m \<noteq> key l \<Longrightarrow> IsHeld la m b' = IsHeld la m b"
    and unlocked: "UnlockIt la l b = ((l', b'), e) \<Longrightarrow> \<not> IsHeld la l' b'"
    and unlock_key: "UnlockIt la l b = ((l', b'), e) \<Longrightarrow> key l' = key l"
    and unlock_other: "UnlockIt la l b = ((l', b'), e) \<Longrightarrow> key m \<noteq> key l \<Longrightarrow> IsHeld la m b' = IsHeld la m b"
begin

text \<open>The stored objects belong to their names.\<close>

definition filed :: "'l scheduler_locks \<Rightarrow> bool" where
  "filed s \<longleftrightarrow> (\<forall>n l. lookup (sl_locks s) n = Some l \<longrightarrow> key l = ''schedulers/'' @ n)"

lemma filed_new: "filed NewSchedulerLocks"
  by (simp add: filed_def NewSchedulerLocks_def)

lemma lock_stored_filed:
  assumes "filed s" and "key l = ''schedulers/'' @ n"
  shows "filed (fst (fst (lock_stored la n l (s, b))))"
  using assms lock_key [of l b] by (auto simp: lock_stored_def filed_def split: prod.splits)

lemma Lock_filed: "filed s \<Longrightarrow> filed (fst (fst (SchedulerLocks_Lock la n (s, b))))"
  by (auto simp: SchedulerLocks_Lock_def new_key split: option.split reply.split intro!: lock_stored_filed)
    (auto simp: filed_def)

lemma lock_stored_other:
  assumes "filed s" and "key l = ''schedulers/'' @ n" and "m \<noteq> n"
  shows "holds la m (fst (lock_stored la n l (s, b))) = holds la m (s, b)"
proof -
  obtain l' b' e where r: "LockIt la l b = ((l', b'), e)" by (metis surj_pair)
  have "IsHeld la k b' = IsHeld la k b" if "lookup (sl_locks s) m = Some k" for k
    using lock_other [OF r, of k] that assms by (simp add: filed_def)
  then show ?thesis using assms(3) by (auto simp: lock_stored_def r holds_def split: option.split)
qed

lemma Lock_other:
  assumes "filed s" and "m \<noteq> n"
  shows "holds la m (fst (SchedulerLocks_Lock la n (s, b))) = holds la m (s, b)"
proof (cases "lookup (sl_locks s) n")
  case None
  then show ?thesis
    using assms by (auto simp: SchedulerLocks_Lock_def lock_stored_other new_key split: reply.split)
next
  case (Some l)
  with assms have "key l = ''schedulers/'' @ n" by (simp add: filed_def)
  with Some assms show ?thesis by (simp add: SchedulerLocks_Lock_def lock_stored_other)
qed

text \<open>After \<open>Unlock\<close> the lock is not held; the other locks are as before.\<close>

lemma Unlock_released: "\<not> holds la n (SchedulerLocks_Unlock la n (s, b))"
  by (auto simp: SchedulerLocks_Unlock_def holds_def split: option.split prod.split dest: unlocked)

lemma Unlock_filed: "filed s \<Longrightarrow> filed (fst (SchedulerLocks_Unlock la n (s, b)))"
  by (auto simp: SchedulerLocks_Unlock_def filed_def split: option.split prod.split dest: unlock_key)

lemma Unlock_other:
  assumes "filed s" and "m \<noteq> n"
  shows "holds la m (SchedulerLocks_Unlock la n (s, b)) = holds la m (s, b)"
proof (cases "lookup (sl_locks s) n")
  case (Some l)
  obtain l' b' e where r: "UnlockIt la l b = ((l', b'), e)" by (metis surj_pair)
  have "IsHeld la k b' = IsHeld la k b" if "lookup (sl_locks s) m = Some k" for k
    using unlock_other [OF r, of k] that assms Some by (simp add: filed_def)
  then show ?thesis using assms(2) Some by (auto simp: SchedulerLocks_Unlock_def r holds_def split: option.split)
qed (simp add: SchedulerLocks_Unlock_def)

text \<open>After \<open>Stop\<close> no lock is held.\<close>

lemma Stop_released:
  assumes "filed s"
  shows "\<not> holds la n (SchedulerLocks_Stop la ord (s, b))"
proof -
  have keep: "filed (fst st) \<Longrightarrow> n \<in> set ns \<or> \<not> holds la n st \<Longrightarrow>
      \<not> holds la n (fold (SchedulerLocks_Unlock la) ns st)" for ns st
  proof (induction ns arbitrary: st)
    case (Cons m ns)
    obtain t c where st: "st = (t, c)" by (cases st)
    have "n \<in> set ns \<or> \<not> holds la n (SchedulerLocks_Unlock la m st)"
    proof (cases "n = m")
      case True
      then show ?thesis using Unlock_released st by simp
    next
      case False
      then show ?thesis using Cons.prems Unlock_other [of t n m c] st by auto
    qed
    then show ?case using Cons.IH Cons.prems(1) Unlock_filed [of t m c] st by simp
  qed simp
  have "n \<in> set (range_keys ord (sl_locks s)) \<or> \<not> holds la n (s, b)"
    by (auto simp: holds_def split: option.split)
  then show ?thesis using keep [of "(s, b)"] assms by (simp add: SchedulerLocks_Stop_def)
qed

end

interpretation mock_lock_service: lock_service mock_locks ml_key
  by unfold_locales
    (auto simp: mock_locks_def mock_Lock_def NewMockLock_def mock_LockIt_def mock_UnlockIt_def mock_IsHeld_def
      split: option.splits if_splits)

section \<open>The in-memory backend\<close>

text \<open>Locking on the in-memory backend always succeeds, also when the lock is held already.\<close>

lemma mock_lock_granted:
  "\<exists>st l. SchedulerLocks_Lock mock_locks n (s, b) = (st, Ok l) \<and> IsHeld mock_locks l (snd st) \<and>
    mk_tasks (snd st) = mk_tasks b"
  by (auto simp: SchedulerLocks_Lock_def lock_stored_def mock_locks_def mock_Lock_def mock_LockIt_def mock_IsHeld_def
      split: option.split)

end
