(* ===== verification/Scheduler_Queue.thy ===== *)
theory Scheduler_Queue
  imports Go_Base
begin

text \<open>
  The queue of scheduling requests of src/master/queue.go: a goroutine that owns the list, fed by two
  buffered channels. \<open>doEnqueue\<close> removes an equal request in place while it ranges over the same array;
  it is modelled on the array, and shown to be a removal followed by an append on the queues that occur.
  The goroutine and its clients are a step relation; no request is lost in it.
\<close>

section \<open>The in-place loop of \<open>doEnqueue\<close>\<close>

text \<open>
  \<open>arr\<close> is the backing array as far as the \<open>range\<close> clause reads it (the length the slice had before the
  loop) and \<open>m\<close> the current length of \<open>s.queue\<close>. Removing index \<open>i\<close> copies the elements behind it one
  place down; the array keeps its old element in the last place. The slice expression panics when it
  starts behind the end of the slice.
\<close>

definition shift_down :: "nat \<Rightarrow> nat \<Rightarrow> 'v list \<Rightarrow> 'v list" where
  "shift_down i m arr = take i arr @ drop (Suc i) (take m arr) @ drop (m - 1) arr"

fun enqueue_loop :: "'v \<Rightarrow> nat list \<Rightarrow> 'v list \<Rightarrow> nat \<Rightarrow> 'v list outcome" where
  "enqueue_loop val [] arr m = Returns (take m arr)"
| "enqueue_loop val (i # is) arr m =
     (if arr ! i = val then
        if Suc i > m then Panics else enqueue_loop val is (shift_down i m arr) (m - 1)
      else enqueue_loop val is arr m)"

definition doEnqueue :: "'v \<Rightarrow> 'v list \<Rightarrow> 'v list outcome" where
  "doEnqueue val queue =
     bind_outcome (enqueue_loop val [0..<length queue] queue (length queue)) (\<lambda>q. Returns (q @ [val]))"

lemma enqueue_loop_skip:
  "\<forall>i \<in> set is. arr ! i \<noteq> val \<Longrightarrow> enqueue_loop val (is @ js) arr m = enqueue_loop val js arr m"
  by (induction "is") auto

text \<open>On a queue without duplicates the loop removes the request, and nothing else.\<close>

lemma enqueue_loop_removes:
  assumes "val \<notin> set xs" and "val \<notin> set ys"
  shows "enqueue_loop val [0..<length (xs @ val # ys)] (xs @ val # ys) (length (xs @ val # ys)) = Returns (xs @ ys)"
proof -
  let ?q = "xs @ val # ys" and ?i = "length xs" and ?n = "length (xs @ val # ys)"
  let ?arr = "shift_down ?i ?n ?q"
  have "[0..<?n] = [0..<?i] @ ?i # [Suc ?i..<?n]"
    by (metis upt_add_eq_append upt_conv_Cons le_add1 length_append length_Cons less_add_Suc1 add_Suc_right le0)
  moreover have "\<forall>i \<in> set [0..<?i]. ?q ! i \<noteq> val" using assms(1) by (auto simp: nth_append)
  ultimately have "enqueue_loop val [0..<?n] ?q ?n = enqueue_loop val ([Suc ?i..<?n] @ []) ?arr (?n - 1)"
    by (simp add: enqueue_loop_skip)
  also have "\<dots> = enqueue_loop val [] ?arr (?n - 1)"
  proof (rule enqueue_loop_skip)
    have arr: "?arr = xs @ ys @ drop (length ys) (val # ys)" by (simp add: shift_down_def)
    show "\<forall>j \<in> set [Suc ?i..<?n]. ?arr ! j \<noteq> val"
    proof
      fix j
      assume j: "j \<in> set [Suc ?i..<?n]"
      then have "ys \<noteq> []" and le: "j - ?i \<le> length ys" "Suc ?i \<le> j" by auto
      then have "drop (length ys) (val # ys) = [last ys]"
        by (cases ys rule: rev_cases) auto
      then have "?arr ! j = (ys @ [last ys]) ! (j - ?i)" using le unfolding arr by (simp add: nth_append)
      moreover have "(ys @ [last ys]) ! (j - ?i) \<in> set (ys @ [last ys])" using le by (intro nth_mem) simp
      ultimately show "?arr ! j \<noteq> val" using assms(2) \<open>ys \<noteq> []\<close> by auto
    qed
  qed
  finally show ?thesis by (simp add: shift_down_def)
qed

lemma doEnqueue_distinct:
  assumes "distinct q"
  shows "doEnqueue val q = Returns (remove1 val q @ [val])"
proof (cases "val \<in> set q")
  case True
  then obtain xs ys where q: "q = xs @ val # ys" and "val \<notin> set xs" by (meson split_list_first)
  moreover from this assms have "val \<notin> set ys" by simp
  ultimately have "enqueue_loop val [0..<length q] q (length q) = Returns (xs @ ys)"
    unfolding q by (intro enqueue_loop_removes)
  then show ?thesis using q \<open>val \<notin> set xs\<close> by (simp add: doEnqueue_def remove1_append)
next
  case False
  then have "\<forall>i \<in> set [0..<length q]. q ! i \<noteq> val" by (metis atLeastLessThan_iff atLeastLessThan_upt nth_mem)
  from enqueue_loop_skip [OF this, of "[]" "length q"] False show ?thesis
    by (simp add: doEnqueue_def remove1_idem)
qed

section \<open>What the clients of a queue rely on\<close>

locale request_queue =
  fixes wf :: "'q \<Rightarrow> bool"
    and contents :: "'q \<Rightarrow> 'v list"
    and enqueue :: "'v \<Rightarrow> 'q \<Rightarrow> 'q outcome"
  assumes enqueue_contents:
    "wf q \<Longrightarrow> \<exists>q'. enqueue v q = Returns q' \<and> wf q' \<and> contents q' = remove1 v (contents q) @ [v]"
begin

fun enqueue_all :: "'v list \<Rightarrow> 'q \<Rightarrow> 'q outcome" where
  "enqueue_all [] q = Returns q"
| "enqueue_all (v # vs) q = bind_outcome (enqueue v q) (enqueue_all vs)"

text \<open>Enqueuing a list returns; everything enqueued is there, and what was there stays.\<close>

lemma enqueue_all_returns:
  "wf q \<Longrightarrow> \<exists>q'. enqueue_all vs q = Returns q' \<and> wf q' \<and> set (contents q') = set (contents q) \<union> set vs"
proof (induction vs arbitrary: q)
  case (Cons v vs)
  obtain q1 where q1: "enqueue v q = Returns q1" "wf q1" "contents q1 = remove1 v (contents q) @ [v]"
    using enqueue_contents [OF Cons.prems] by blast
  have "set (contents q1) = insert v (set (contents q))"
    unfolding q1(3) using in_set_remove1 set_remove1_subset by fastforce
  with q1 Cons.IH [OF q1(2)] show ?case by auto
qed simp

lemma enqueue_last:
  "wf q \<Longrightarrow> \<exists>q'. enqueue v q = Returns q' \<and> last (contents q') = v \<and> contents q' \<noteq> []"
  using enqueue_contents [of q v] by auto

end

interpretation scheduler_queue: request_queue distinct "\<lambda>q. q" doEnqueue
  by unfold_locales (auto simp: doEnqueue_distinct distinct_remove1 dest: notin_set_remove1)

section \<open>The goroutine and its channels\<close>

record ('v, 'w) queue_state =
  qs_queue :: "'v list"
  qs_enqueue :: "'v list"
  qs_dequeue :: "'w list"
  qs_closed :: bool
  qs_listening :: bool

definition NewSchedulerQueue :: "('v, 'w) queue_state" where
  "NewSchedulerQueue = \<lparr>qs_queue = [], qs_enqueue = [], qs_dequeue = [], qs_closed = False, qs_listening = True\<rparr>"

text \<open>
  \<open>Push\<close> and \<open>Pop\<close> are the sends of a client, which wait while the channel holds 50 values. \<open>Take\<close> and
  \<open>Serve\<close> are the two ready cases of the \<open>select\<close> in \<open>listen\<close>; \<open>Serve w v\<close> hands \<open>v\<close> to the client \<open>w\<close>,
  which waits for it. \<open>Close\<close> is \<open>Stop\<close>, \<open>Halt\<close> the return of \<open>listen\<close>.
\<close>

datatype ('v, 'w) queue_event = Push 'v | Pop 'w | Take 'v | Serve 'w 'v | Close | Halt

inductive queue_step :: "('v, 'w) queue_state \<Rightarrow> ('v, 'w) queue_event \<Rightarrow> ('v, 'w) queue_state \<Rightarrow> bool" where
  push: "length (qs_enqueue s) < 50 \<Longrightarrow> queue_step s (Push v) (s\<lparr>qs_enqueue := qs_enqueue s @ [v]\<rparr>)"
| pop: "length (qs_dequeue s) < 50 \<Longrightarrow> queue_step s (Pop w) (s\<lparr>qs_dequeue := qs_dequeue s @ [w]\<rparr>)"
| take_up: "qs_listening s \<Longrightarrow> qs_enqueue s = v # rest \<Longrightarrow> doEnqueue v (qs_queue s) = Returns q \<Longrightarrow>
    queue_step s (Take v) (s\<lparr>qs_queue := q, qs_enqueue := rest\<rparr>)"
| serve: "qs_listening s \<Longrightarrow> qs_queue s \<noteq> [] \<Longrightarrow> qs_dequeue s = w # ws \<Longrightarrow>
    queue_step s (Serve w (last (qs_queue s))) (s\<lparr>qs_queue := butlast (qs_queue s), qs_dequeue := ws\<rparr>)"
| close: "\<not> qs_closed s \<Longrightarrow> queue_step s Close (s\<lparr>qs_closed := True\<rparr>)"
| halt: "qs_listening s \<Longrightarrow> qs_closed s \<Longrightarrow> queue_step s Halt (s\<lparr>qs_listening := False\<rparr>)"

inductive_cases queue_stepE: "queue_step s e s'"
inductive_simps queue_step_Serve: "queue_step s (Serve w v) s'"

inductive queue_run :: "('v, 'w) queue_event list \<Rightarrow> ('v, 'w) queue_state \<Rightarrow> bool" where
  start: "queue_run [] NewSchedulerQueue"
| step: "queue_run es s \<Longrightarrow> queue_step s e s' \<Longrightarrow> queue_run (es @ [e]) s'"

text \<open>No request is twice in the queue.\<close>

lemma queue_run_distinct: "queue_run es s \<Longrightarrow> distinct (qs_queue s)"
proof (induction rule: queue_run.induct)
  case (step es s e s')
  from step.hyps(2) step.IH show ?case
    by (cases rule: queue_step.cases) (auto simp: doEnqueue_distinct distinct_remove1 distinct_butlast)
qed (simp add: NewSchedulerQueue_def)

definition served_since :: "'v \<Rightarrow> ('v, 'w) queue_event list \<Rightarrow> bool" where
  "served_since v es \<longleftrightarrow> (\<exists>es1 w es2. es = es1 @ Serve w v # es2 \<and> Push v \<notin> set es2)"

lemma served_since_snoc:
  "served_since v (es @ [e]) \<longleftrightarrow> (\<exists>w. e = Serve w v) \<or> (e \<noteq> Push v \<and> served_since v es)"
proof
  assume "served_since v (es @ [e])"
  then obtain es1 w es2 where es: "es @ [e] = es1 @ Serve w v # es2" "Push v \<notin> set es2"
    by (auto simp: served_since_def)
  show "(\<exists>w. e = Serve w v) \<or> (e \<noteq> Push v \<and> served_since v es)"
  proof (cases es2 rule: rev_cases)
    case Nil
    with es show ?thesis by auto
  next
    case (snoc ys y)
    with es have "es = es1 @ Serve w v # ys" "e = y" "Push v \<notin> set ys" "e \<noteq> Push v" by auto
    then show ?thesis unfolding served_since_def by blast
  qed
next
  assume "(\<exists>w. e = Serve w v) \<or> (e \<noteq> Push v \<and> served_since v es)"
  then show "served_since v (es @ [e])"
  proof
    assume "\<exists>w. e = Serve w v"
    then show ?thesis unfolding served_since_def by (metis empty_iff empty_set)
  next
    assume e: "e \<noteq> Push v \<and> served_since v es"
    then obtain es1 w es2 where "es = es1 @ Serve w v # es2" "Push v \<notin> set es2" by (auto simp: served_since_def)
    with e have "es @ [e] = es1 @ Serve w v # (es2 @ [e])" "Push v \<notin> set (es2 @ [e])" by auto
    then show ?thesis unfolding served_since_def by blast
  qed
qed

lemma queue_run_nothing_lost:
  "queue_run es s \<Longrightarrow> Push v \<in> set es \<Longrightarrow>
   v \<in> set (qs_queue s) \<or> v \<in> set (qs_enqueue s) \<or> served_since v es"
proof (induction rule: queue_run.induct)
  case (step es s e s')
  have dist: "distinct (qs_queue s)" using step.hyps(1) by (rule queue_run_distinct)
  from step.hyps(2) show ?case
  proof (cases rule: queue_step.cases)
    case (take_up u rest q)
    then have "q = remove1 u (qs_queue s) @ [u]" using dist by (simp add: doEnqueue_distinct)
    with take_up step.IH step.prems show ?thesis
      by (auto simp: served_since_snoc in_set_remove1)
  next
    case (serve w ws)
    have "set (qs_queue s) \<subseteq> insert (last (qs_queue s)) (set (butlast (qs_queue s)))"
      using serve(4) by (cases "qs_queue s" rule: rev_cases) auto
    with serve step.IH step.prems show ?thesis by (auto simp: served_since_snoc)
  qed (use step in \<open>auto simp: served_since_snoc\<close>)
qed simp

text \<open>The goroutine never panics, and what is ready can happen.\<close>

lemma queue_run_no_panic: "queue_run es s \<Longrightarrow> doEnqueue v (qs_queue s) \<noteq> Panics"
  by (simp add: doEnqueue_distinct queue_run_distinct)

lemma queue_run_progress:
  assumes "queue_run es s" and "qs_listening s" and "qs_enqueue s \<noteq> [] \<or> (qs_queue s \<noteq> [] \<and> qs_dequeue s \<noteq> [])"
  shows "\<exists>s'. (\<exists>v. queue_step s (Take v) s') \<or> (\<exists>w v. queue_step s (Serve w v) s')"
proof (cases "qs_enqueue s")
  case (Cons v rest)
  then show ?thesis
    using queue_step.take_up [OF assms(2) Cons] doEnqueue_distinct [OF queue_run_distinct [OF assms(1)]] by metis
next
  case Nil
  with assms(3) obtain w ws where "qs_dequeue s = w # ws" "qs_queue s \<noteq> []" by (cases "qs_dequeue s") auto
  then show ?thesis using queue_step.serve [OF assms(2)] by metis
qed

end
