(* ===== verification/Master.thy ===== *)
theory Master
  imports Schedule_Laws Scheduler_Locks Scheduler_Queue
begin

text \<open>
  The master (src/master/master.go) and the table of schedulers (src/scheduler/schedulers.go): it turns
  events into scheduling requests, runs the requests under a cluster-wide lock, and takes the tasks of
  removed deployments off. A scheduler is an object shared under several names; the table maps a name
  to the number of an object.
\<close>

section \<open>The table of schedulers\<close>

record schedulers =
  ss_names :: "(string, nat) gomap"
  ss_objects :: "(nat, default_scheduler) gomap"

definition NewSchedulerMap :: schedulers where
  "NewSchedulerMap = \<lparr>ss_names = [], ss_objects = []\<rparr>"

definition Schedulers_Get :: "string \<Rightarrow> schedulers \<Rightarrow> (nat \<times> default_scheduler) option" where
  "Schedulers_Get name s =
     (case lookup (ss_names s) name of None \<Rightarrow> None
      | Some n \<Rightarrow> map_option (Pair n) (lookup (ss_objects s) n))"

definition Schedulers_Use :: "string \<Rightarrow> nat \<Rightarrow> schedulers \<Rightarrow> schedulers" where
  "Schedulers_Use name n s = s\<lparr>ss_names := insert_key name n (ss_names s)\<rparr>"

definition put_object :: "nat \<Rightarrow> default_scheduler \<Rightarrow> schedulers \<Rightarrow> schedulers" where
  "put_object n sked s = s\<lparr>ss_objects := insert_key n sked (ss_objects s)\<rparr>"

section \<open>State\<close>

record master_config =
  mc_Runners :: int
  mc_SyncInterval :: duration
  mc_Cluster :: string

record 'l master =
  ms_schedulers :: schedulers
  ms_locks :: "'l scheduler_locks"
  ms_Config :: master_config

definition NewMaster :: "master_config \<Rightarrow> 'l master" where
  "NewMaster conf = \<lparr>ms_schedulers = NewSchedulerMap, ms_locks = NewSchedulerLocks, ms_Config = conf\<rparr>"

text \<open>A request names a cluster and a deployment (the field \<open>service\<close>).\<close>

record scheduleReq =
  rq_cluster :: string
  rq_service :: string

definition Master_Cluster :: "'b scheduler_api \<Rightarrow> 'b \<Rightarrow> 'l master \<Rightarrow> cluster reply" where
  "Master_Cluster api b s = GetCluster api (mc_Cluster (ms_Config s)) b"

section \<open>Starting\<close>

definition run_defaults :: "master_config \<Rightarrow> master_config" where
  "run_defaults c = c\<lparr>
     mc_Runners := (if mc_Runners c = 0 then 3 else mc_Runners c),
     mc_Cluster := (if mc_Cluster c = '''' then ''default'' else mc_Cluster c),
     mc_SyncInterval := (if IsNone (mc_SyncInterval c) then 30 * second else mc_SyncInterval c)\<rparr>"

text \<open>The part of \<open>Run\<close> before its goroutines start: one new scheduler under three names.\<close>

definition Master_Run_setup :: "nat \<Rightarrow> 'l master \<Rightarrow> 'l master" where
  "Master_Run_setup n s = s\<lparr>
     ms_Config := run_defaults (ms_Config s),
     ms_schedulers := Schedulers_Use ''binpack'' n (Schedulers_Use ''spread'' n (Schedulers_Use '''' n
       (put_object n NewDefaultScheduler (ms_schedulers s))))\<rparr>"

text \<open>\<open>Use\<close> ignores the error of \<open>Cluster\<close> and hands over the pointer it came with.\<close>

definition reply_pointer :: "'a reply \<Rightarrow> 'a option" where
  "reply_pointer r = (case r of Ok v \<Rightarrow> Some v | Fail _ p \<Rightarrow> p | Stops _ \<Rightarrow> None)"

definition Master_Use ::
  "'b scheduler_api \<Rightarrow> 'b \<Rightarrow> string \<Rightarrow> nat \<Rightarrow> default_scheduler \<Rightarrow> 'l master \<Rightarrow> 'l master" where
  "Master_Use api b name n sked s = s\<lparr>ms_schedulers :=
     put_object n (sked\<lparr>ds_cluster := reply_pointer (Master_Cluster api b s)\<rparr>)
       (Schedulers_Use name n (ms_schedulers s))\<rparr>"

section \<open>Dispatching requests\<close>

text \<open>The requests pushed, in order, and the error that ended the loop, if any.\<close>

fun dispatch_names ::
  "'b scheduler_api \<Rightarrow> 'b \<Rightarrow> string \<Rightarrow> string list \<Rightarrow> (go_error option \<times> scheduleReq list) outcome" where
  "dispatch_names api b cl [] = Returns (None, [])"
| "dispatch_names api b cl (name # names) =
     (case GetDeployment api name b of
        Stops how \<Rightarrow> stopped how
      | Fail e _ \<Rightarrow> Returns (Some e, [])
      | Ok d \<Rightarrow> bind_outcome (dispatch_names api b cl names) (\<lambda>(err, reqs).
          Returns (err, \<lparr>rq_cluster = cl, rq_service = dp_Name d\<rparr> # reqs)))"

definition dispatchAll :: "'b scheduler_api \<Rightarrow> 'b \<Rightarrow> 'l master \<Rightarrow> (go_error option \<times> scheduleReq list) outcome" where
  "dispatchAll api b s =
     (case Master_Cluster api b s of
        Stops how \<Rightarrow> stopped how
      | Fail e _ \<Rightarrow> Returns (Some e, [])
      | Ok cl \<Rightarrow> dispatch_names api b (cl_Name cl) (cl_Deployments cl))"

text \<open>
  The loop of \<open>monitor\<close>: an event on the configuration also asks for a garbage collection, an event on
  the health of a node and the minute timer only dispatch; the error is logged.
\<close>

definition master_subscriptions :: "(string \<times> string) list" where
  "master_subscriptions = [(''dispatch-config'', ''config::*''), (''dispatch-health'', ''health::node:failing:*'')]"

text \<open>The names \<open>monitor\<close> gives back on its way out.\<close>

definition master_unsubscribed :: "string list" where
  "master_unsubscribed = [''dispatch'', ''dispatch'']"

datatype master_event = ConfigEvent | HealthEvent | Timer | Quit

definition monitor_step ::
  "'b scheduler_api \<Rightarrow> 'b \<Rightarrow> 'l master \<Rightarrow> master_event \<Rightarrow> (scheduleReq list \<times> bool) outcome" where
  "monitor_step api b s ev =
     (case ev of
        ConfigEvent \<Rightarrow> bind_outcome (dispatchAll api b s) (\<lambda>(_, reqs). Returns (reqs, True))
      | HealthEvent \<Rightarrow> bind_outcome (dispatchAll api b s) (\<lambda>(_, reqs). Returns (reqs, False))
      | Timer \<Rightarrow> bind_outcome (dispatchAll api b s) (\<lambda>(_, reqs). Returns (reqs, False))
      | Quit \<Rightarrow> Returns ([], False))"

section \<open>Running a request\<close>

text \<open>
  The body of \<open>schedule\<close> while the lock is held. When \<open>GetCluster\<close> fails, the log line reads the name of
  the cluster: a panic if the pointer is nil.
\<close>

definition schedule_locked ::
  "'b scheduler_api \<Rightarrow> schedule_choices \<Rightarrow> string \<Rightarrow> string \<Rightarrow> schedulers \<Rightarrow> 'b \<Rightarrow> (schedulers \<times> 'b) outcome" where
  "schedule_locked api ch clusterName depName sk b =
     (case GetCluster api clusterName b of
        Stops how \<Rightarrow> stopped how
      | Fail _ None \<Rightarrow> Panics
      | Fail _ (Some _) \<Rightarrow> Returns (sk, b)
      | Ok cluster \<Rightarrow>
         (case GetDeployment api depName b of
            Stops how \<Rightarrow> stopped how
          | Fail _ _ \<Rightarrow> Returns (sk, b)
          | Ok deploy \<Rightarrow>
             (case Schedulers_Get (dp_Scheduler deploy) sk of
                None \<Rightarrow> Returns (sk, b)
              | Some (n, sked) \<Rightarrow>
                  bind_outcome (Schedule api ch deploy (SetCluster cluster sked) b) (\<lambda>(_, sked', b').
                    Returns (put_object n sked' sk, b')))))"

text \<open>The lock is released by a deferred call, so on every way out that returns.\<close>

definition Master_schedule ::
  "'b scheduler_api \<Rightarrow> ('b, 'l) lock_api \<Rightarrow> schedule_choices \<Rightarrow> string \<Rightarrow> string \<Rightarrow> 'l master \<times> 'b \<Rightarrow>
   ('l master \<times> 'b) outcome" where
  "Master_schedule api la ch clusterName depName = (\<lambda>(s, b).
     let name = clusterName @ '':'' @ depName in
     (case SchedulerLocks_Lock la name (ms_locks s, b) of
        (_, Stops how) \<Rightarrow> stopped how
      | ((ls, b1), Fail _ _) \<Rightarrow> Returns (s\<lparr>ms_locks := ls\<rparr>, b1)
      | ((ls, b1), Ok lock) \<Rightarrow>
          bind_outcome
            (if IsHeld la lock b1 then schedule_locked api ch clusterName depName (ms_schedulers s) b1
             else Returns (ms_schedulers s, b1))
            (\<lambda>(sk, b2). case SchedulerLocks_Unlock la name (ls, b2) of (ls', b3) \<Rightarrow>
               Returns (s\<lparr>ms_locks := ls', ms_schedulers := sk\<rparr>, b3))))"

lemma Master_schedule_locked:
  assumes run: "Master_schedule api la ch c n (s, b) = Returns (s', b')"
    and lock: "SchedulerLocks_Lock la (c @ '':'' @ n) (ms_locks s, b) = ((ls, b1), Ok l)"
  obtains sk b2 ls' where "(if IsHeld la l b1 then schedule_locked api ch c n (ms_schedulers s) b1
      else Returns (ms_schedulers s, b1)) = Returns (sk, b2)"
    and "SchedulerLocks_Unlock la (c @ '':'' @ n) (ls, b2) = (ls', b')" and "s' = s\<lparr>ms_locks := ls', ms_schedulers := sk\<rparr>"
proof (cases "if IsHeld la l b1 then schedule_locked api ch c n (ms_schedulers s) b1 else Returns (ms_schedulers s, b1)")
  case (Returns r)
  obtain sk b2 where r: "r = (sk, b2)" by (cases r)
  obtain ls' b3 where un: "SchedulerLocks_Unlock la (c @ '':'' @ n) (ls, b2) = (ls', b3)" by (metis surj_pair)
  have "s' = s\<lparr>ms_locks := ls', ms_schedulers := sk\<rparr>" "b' = b3"
    using run lock Returns [unfolded r] un by (simp_all add: Master_schedule_def Let_def)
  with that Returns r un show ?thesis by simp
qed (use run lock in \<open>simp_all add: Master_schedule_def Let_def\<close>)

section \<open>Garbage collection\<close>

definition inArrayStr :: "string \<Rightarrow> string list \<Rightarrow> bool" where
  "inArrayStr key arr = list_ex (\<lambda>v. v = key) arr"

definition gc_task :: "'b scheduler_api \<Rightarrow> cluster \<Rightarrow> task \<Rightarrow> 'b \<times> int \<Rightarrow> 'b \<times> int" where
  "gc_task api cl t = (\<lambda>(b, removed).
     if \<not> inArrayStr (tk_Deployment t) (cl_Deployments cl)
     then (fst (PutTask api (t\<lparr>tk_Scheduled := False\<rparr>) b), removed + 1) else (b, removed))"

definition runGarbageCollect ::
  "'b scheduler_api \<Rightarrow> 'l master \<Rightarrow> 'b \<Rightarrow> (go_error option \<times> 'b \<times> int) outcome" where
  "runGarbageCollect api s b =
     (case Master_Cluster api b s of
        Stops how \<Rightarrow> stopped how
      | Fail e _ \<Rightarrow> Returns (Some e, b, 0)
      | Ok cl \<Rightarrow>
         (case ListTasks api (any_task\<lparr>tq_ByCluster := mc_Cluster (ms_Config s)\<rparr>) b of
            Stops how \<Rightarrow> stopped how
          | Fail e _ \<Rightarrow> Returns (Some e, b, 0)
          | Ok ts \<Rightarrow> (case fold (gc_task api cl) ts (b, 0) of (b', removed) \<Rightarrow> Returns (None, b', removed))))"

section \<open>A worker\<close>

text \<open>What \<open>worker\<close> does with the requests it is handed, one after the other.\<close>

fun run_requests ::
  "'b scheduler_api \<Rightarrow> ('b, 'l) lock_api \<Rightarrow> (nat \<Rightarrow> schedule_choices) \<Rightarrow> scheduleReq list \<Rightarrow> 'l master \<times> 'b \<Rightarrow>
   ('l master \<times> 'b) outcome" where
  "run_requests api la ch [] st = Returns st"
| "run_requests api la ch (r # rs) st =
     bind_outcome (Master_schedule api la (ch (length rs)) (rq_cluster r) (rq_service r) st) (run_requests api la ch rs)"

section \<open>Garbage collection takes off exactly the tasks of removed deployments\<close>

definition gc_view :: "cluster \<Rightarrow> string \<Rightarrow> (string \<Rightarrow> task option) \<Rightarrow> string \<Rightarrow> task option" where
  "gc_view cl c v k = map_option (\<lambda>t. if tk_Cluster t = c \<and> tk_Deployment t \<notin> set (cl_Deployments cl)
     then t\<lparr>tk_Scheduled := False\<rparr> else t) (v k)"

lemma inArrayStr_iff [simp]: "inArrayStr x xs \<longleftrightarrow> x \<in> set xs"
  by (auto simp: inArrayStr_def list_ex_iff)

context task_backend begin

lemma gc_fold:
  assumes "good b" and "distinct (map task_ID ts)" and "\<forall>t \<in> set ts. tasks b (task_ID t) = Some t"
  shows "\<exists>b' n. fold (gc_task api cl) ts (b, m) = (b', n) \<and> good b' \<and>
    (\<forall>k. tasks b' k = (if k \<in> task_ID ` {t \<in> set ts. tk_Deployment t \<notin> set (cl_Deployments cl)}
       then map_option (\<lambda>t. t\<lparr>tk_Scheduled := False\<rparr>) (tasks b k) else tasks b k))"
  using assms
proof (induction ts arbitrary: b m)
  case (Cons t ts)
  let ?b = "if tk_Deployment t \<notin> set (cl_Deployments cl) then fst (PutTask api (t\<lparr>tk_Scheduled := False\<rparr>) b) else b"
  let ?m = "if tk_Deployment t \<notin> set (cl_Deployments cl) then m + 1 else m"
  have step: "gc_task api cl t (b, m) = (?b, ?m)" by (simp add: gc_task_def)
  have fine: "fine (t\<lparr>tk_Scheduled := False\<rparr>)"
    using Cons.prems by (intro fine_unscheduled tasks_fine [of b "task_ID t"]) simp_all
  have good: "good ?b" using Cons.prems(1) fine by (simp add: PutTask_good)
  have view: "tasks ?b k = (if k = task_ID t \<and> tk_Deployment t \<notin> set (cl_Deployments cl)
      then Some (t\<lparr>tk_Scheduled := False\<rparr>) else tasks b k)" for k
    using Cons.prems(1) fine by (simp add: PutTask_tasks)
  have rest: "\<forall>u \<in> set ts. tasks ?b (task_ID u) = Some u" "distinct (map task_ID ts)"
    using Cons.prems(2,3) by (simp_all only: view) (force simp: image_iff)+
  from Cons.IH [OF good rest(2,1), of ?m] obtain b' n where
    r: "fold (gc_task api cl) ts (?b, ?m) = (b', n)" "good b'"
      "\<And>k. tasks b' k = (if k \<in> task_ID ` {t \<in> set ts. tk_Deployment t \<notin> set (cl_Deployments cl)}
       then map_option (\<lambda>t. t\<lparr>tk_Scheduled := False\<rparr>) (tasks ?b k) else tasks ?b k)" by blast
  have "tasks b (task_ID t) = Some t" "task_ID t \<notin> task_ID ` set ts" using Cons.prems(2,3) by simp_all
  moreover from this have "task_ID t \<notin> task_ID ` {u \<in> set ts. tk_Deployment u \<notin> set (cl_Deployments cl)}" by blast
  moreover have "task_ID ` {u \<in> set (t # ts). tk_Deployment u \<notin> set (cl_Deployments cl)} =
      (if tk_Deployment t \<notin> set (cl_Deployments cl) then {task_ID t} else {}) \<union>
      task_ID ` {u \<in> set ts. tk_Deployment u \<notin> set (cl_Deployments cl)}" by auto
  ultimately have "tasks b' k = (if k \<in> task_ID ` {u \<in> set (t # ts). tk_Deployment u \<notin> set (cl_Deployments cl)}
       then map_option (\<lambda>t. t\<lparr>tk_Scheduled := False\<rparr>) (tasks b k) else tasks b k)" for k
    unfolding r(3) view by simp
  with r step show ?case by simp
qed simp

lemma garbage_collected:
  assumes good: "good b" and c: "mc_Cluster (ms_Config s) \<noteq> ''''"
    and cl: "GetCluster api (mc_Cluster (ms_Config s)) b = Ok cl"
  shows "\<exists>b' n. runGarbageCollect api s b = Returns (None, b', n) \<and> good b' \<and>
    tasks b' = gc_view cl (mc_Cluster (ms_Config s)) (tasks b)"
proof -
  let ?q = "any_task\<lparr>tq_ByCluster := mc_Cluster (ms_Config s)\<rparr>"
  obtain ts where ts: "ListTasks api ?q b = Ok ts" "distinct (map task_ID ts)"
    "set ts = {t \<in> ran (tasks b). mc_Cluster (ms_Config s) = tk_Cluster t}"
    using ListTasks_selects [OF good, of ?q] c by (auto simp: any_task_def selects_def)
  have stored: "\<forall>t \<in> set ts. tasks b (task_ID t) = Some t" using ts(3) stored_task_ID [OF good] by simp
  obtain b' n where r: "fold (gc_task api cl) ts (b, 0) = (b', n)" "good b'"
    "\<And>k. tasks b' k = (if k \<in> task_ID ` {t \<in> set ts. tk_Deployment t \<notin> set (cl_Deployments cl)}
       then map_option (\<lambda>t. t\<lparr>tk_Scheduled := False\<rparr>) (tasks b k) else tasks b k)"
    using gc_fold [OF good ts(2) stored] by blast
  have "tasks b' k = gc_view cl (mc_Cluster (ms_Config s)) (tasks b) k" for k
  proof (cases "tasks b k")
    case (Some t)
    then have "task_ID t = k" "t \<in> ran (tasks b)" using tasks_key [OF good] by (auto intro: ranI)
    then have "k \<in> task_ID ` {t \<in> set ts. tk_Deployment t \<notin> set (cl_Deployments cl)} \<longleftrightarrow>
        tk_Cluster t = mc_Cluster (ms_Config s) \<and> tk_Deployment t \<notin> set (cl_Deployments cl)"
    proof -
      have "u = t" if "u \<in> set ts" "task_ID u = k" for u
        using bspec [OF stored that(1)] that(2) Some by simp
      moreover have "t \<in> set ts \<longleftrightarrow> tk_Cluster t = mc_Cluster (ms_Config s)"
        unfolding ts(3) using \<open>t \<in> ran (tasks b)\<close> by auto
      ultimately show ?thesis unfolding image_iff using \<open>task_ID t = k\<close> by blast
    qed
    with Some show ?thesis by (simp add: r(3) gc_view_def)
  qed (simp add: r(3) gc_view_def)
  then have "tasks b' = gc_view cl (mc_Cluster (ms_Config s)) (tasks b)" by blast
  with r cl ts(1) show ?thesis by (simp add: runGarbageCollect_def Master_Cluster_def)
qed

end

section \<open>The table of schedulers stays in order\<close>

text \<open>Every object a name refers to exists, and its hosts are filed by name.\<close>

definition schedulers_ok :: "schedulers \<Rightarrow> bool" where
  "schedulers_ok s \<longleftrightarrow>
     (\<forall>n. lookup (ss_names s) n \<noteq> None \<longrightarrow> Schedulers_Get n s \<noteq> None) \<and>
     (\<forall>k sked. lookup (ss_objects s) k = Some sked \<longrightarrow> hosts_keyed sked)"

lemma schedulers_ok_put: "schedulers_ok s \<Longrightarrow> hosts_keyed sked \<Longrightarrow> schedulers_ok (put_object n sked s)"
  by (auto simp: schedulers_ok_def put_object_def Schedulers_Get_def split: option.splits)

lemma schedulers_ok_setup: "schedulers_ok (ms_schedulers (Master_Run_setup n (NewMaster conf)))"
  by (auto simp: schedulers_ok_def Master_Run_setup_def NewMaster_def NewSchedulerMap_def Schedulers_Use_def
      put_object_def Schedulers_Get_def split: if_splits)

lemma Schedulers_Get_keyed: "schedulers_ok s \<Longrightarrow> Schedulers_Get n s = Some (k, sked) \<Longrightarrow> hosts_keyed sked"
  by (auto simp: schedulers_ok_def Schedulers_Get_def split: option.splits)

lemma hosts_keyed_SetCluster [simp]: "hosts_keyed (SetCluster c s) = hosts_keyed s"
  by (simp add: hosts_keyed_def SetCluster_def)

lemma scale_up_keyed: "scale_up api ch cl td d is (s, p) = Returns (s', p') \<Longrightarrow> hosts_keyed s \<Longrightarrow> hosts_keyed s'"
  using scale_up_invariant [of api ch cl td d "is" s p s' p' "\<lambda>_ _. True"] by simp

lemma Schedule_keyed:
  assumes "Schedule api ch d s b = Returns (e, s', b')" and "hosts_keyed s"
  shows "hosts_keyed s'"
proof -
  have reb: "hosts_keyed s2" if "rebalance api ch cl td d ts s1 b = Returns (s2, p)" "hosts_keyed s1" for cl td ts s1 s2 p
    using that by (auto simp: rebalance_def Let_def split: if_splits intro: scale_up_keyed)
  from assms show ?thesis
    by (auto simp: Schedule_def bind_outcome_Returns_iff split: option.splits if_splits reply.splits
        intro: reb syncHosts_keyed)
qed

lemma schedule_locked_ok:
  assumes "schedulers_ok sk" and "schedule_locked api ch c n sk b = Returns (sk', b')"
  shows "schedulers_ok sk'"
proof -
  have "hosts_keyed s'"
    if "Schedulers_Get m sk = Some (k, sked)" "Schedule api ch d (SetCluster cl sked) b = Returns (e, s', b')" for m k sked d cl e s'
    using Schedule_keyed [OF that(2)] Schedulers_Get_keyed [OF assms(1) that(1)] by simp
  with assms show ?thesis
    by (auto simp: schedule_locked_def bind_outcome_Returns_iff split: reply.splits option.splits
        intro!: schedulers_ok_put)
qed

lemma schedule_locked_no_panic:
  assumes "schedulers_ok sk" and "\<And>e. GetCluster api c b \<noteq> Fail e None" and "calm api b"
  shows "schedule_locked api ch c n sk b \<noteq> Panics"
proof -
  have "Schedule api ch d (SetCluster cl sked) b \<noteq> Panics" if "Schedulers_Get m sk = Some (k, sked)" for m k sked d cl
    using Schedulers_Get_keyed [OF assms(1) that] assms(3) by (intro Schedule_no_panic) simp_all
  with assms(2,3) show ?thesis
    by (auto simp: calm_def schedule_locked_def bind_outcome_Panics_iff split: reply.splits option.splits)
qed

text \<open>
  What the writes of tasks keep, a request keeps, if the tasks it lists may be written, taken off, and
  those it makes as well (\<open>F\<close>).
\<close>

lemma task_map_entry: "lookup (task_map ts) k = Some t \<Longrightarrow> t \<in> set ts"
  by (auto simp: task_map_map_of dest: map_of_SomeD)

lemma Schedule_backend:
  assumes "Schedule api ch d s b = Returns (e, s', b')" and "hosts_keyed s" and "R b"
    and put: "\<And>t b. R b \<Longrightarrow> F t \<Longrightarrow> R (fst (PutTask api t b))"
    and listed: "\<And>q ts t. ListTasks api q b = Ok ts \<Longrightarrow> t \<in> set ts \<Longrightarrow> F (t\<lparr>tk_Scheduled := False\<rparr>)"
    and new: "\<And>n v td cl i s t s'. GetTaskDefinition api n v b = Ok td \<Longrightarrow> 0 \<le> i \<Longrightarrow> i < dp_Desired d \<Longrightarrow>
      placement cl td d i s t s' \<Longrightarrow> F t"
  shows "R b'"
proof (cases e)
  case None
  from assms(1) [unfolded None] obtain cl td ts s1 p where sync: "syncHosts api b s = Returns (None, s1)"
    and td: "GetTaskDefinition api (dp_TaskName d) (dp_TaskVersion d) b = Ok td" and ts: "ListTasks api (list_query cl d) b = Ok ts"
    and reb: "rebalance api ch cl td d ts s1 b = Returns (s', p)" and b': "b' = pg_backend p"
    by (rule Schedule_run)
  have "R (pg_backend p) \<and> hosts_keyed s'"
  proof (rule rebalance_invariant [OF reb syncHosts_keyed [OF sync assms(2)], where P = "\<lambda>p. R (pg_backend p)"])
    show "drops_keep api (lookup (task_map ts)) (\<lambda>p. R (pg_backend p))"
      using put listed [OF ts task_map_entry] by (simp add: drops_keep_def)
  next
    fix s1 s2 i t and q :: "'a progress"
    assume "0 \<le> i" and "i < dp_Desired d" and "R (pg_backend q)" and "placement cl td d i s1 t s2"
    then show "R (pg_backend (issue_task api t q))" using put new [OF td] by simp
  qed (use assms(3) in simp_all)
  then show ?thesis by (simp add: b')
next
  case (Some err)
  from assms(1) [unfolded Some] have "b' = b" by (rule Schedule_error_frame)
  then show ?thesis using assms(3) by simp
qed

lemma schedule_locked_backend:
  assumes "schedule_locked api ch c n sk b = Returns (sk', b')" and "schedulers_ok sk" and "R b"
    and put: "\<And>t b. R b \<Longrightarrow> F t \<Longrightarrow> R (fst (PutTask api t b))"
    and listed: "\<And>q ts t. ListTasks api q b = Ok ts \<Longrightarrow> t \<in> set ts \<Longrightarrow> F (t\<lparr>tk_Scheduled := False\<rparr>)"
    and new: "\<And>d n' v td cl i s t s'. GetDeployment api n b = Ok d \<Longrightarrow> GetTaskDefinition api n' v b = Ok td \<Longrightarrow>
      0 \<le> i \<Longrightarrow> i < dp_Desired d \<Longrightarrow> placement cl td d i s t s' \<Longrightarrow> F t"
  shows "R b'"
proof (cases "b' = b")
  case False
  then obtain cs d m sked err sked' where d: "GetDeployment api n b = Ok d"
    and get: "Schedulers_Get (dp_Scheduler d) sk = Some (m, sked)"
    and sched: "Schedule api ch d (SetCluster cs sked) b = Returns (err, sked', b')"
    using assms(1) by (auto simp: schedule_locked_def bind_outcome_Returns_iff split: reply.splits option.splits)
  have "hosts_keyed (SetCluster cs sked)" using Schedulers_Get_keyed [OF assms(2) get] by simp
  from Schedule_backend [OF sched this, of R F, OF assms(3) put listed new [OF d]] show ?thesis .
qed (use assms(3) in simp)

end
