(* ===== verification/Reconcile.thy ===== *)
theory Reconcile
  imports Master Schedule_Effects
begin

text \<open>
  The master as a whole on the in-memory backend: the requests of a dispatch, run one after the other,
  leave every scheduled task of every requested deployment on a known host and not rejected.
\<close>

section \<open>Locks do not touch what is stored\<close>

definition same_store :: "mock \<Rightarrow> mock \<Rightarrow> bool" where
  "same_store a b \<longleftrightarrow>
     mk_tasks a = mk_tasks b \<and> mk_clusters a = mk_clusters b \<and> mk_deployments a = mk_deployments b \<and>
     mk_taskDefinitions a = mk_taskDefinitions b \<and> mk_hosts a = mk_hosts b \<and> mk_services a = mk_services b"

lemma same_store_good: "same_store a b \<Longrightarrow> mock_good a = mock_good b"
  by (simp add: same_store_def mock_good_def)

lemma mock_lock_step:
  "\<exists>ls b1 l. SchedulerLocks_Lock mock_locks n (s, b) = ((ls, b1), Ok l) \<and> IsHeld mock_locks l b1 \<and> same_store b1 b"
  by (auto simp: SchedulerLocks_Lock_def lock_stored_def mock_locks_def mock_Lock_def mock_LockIt_def mock_IsHeld_def
      same_store_def split: option.split)

lemma mock_unlock_step: "SchedulerLocks_Unlock mock_locks n (s, b) = (s', b') \<Longrightarrow> same_store b' b"
  by (auto simp: SchedulerLocks_Unlock_def mock_locks_def mock_UnlockIt_def same_store_def split: option.splits if_splits)

text \<open>A request on the in-memory backend is a call of \<open>schedule_locked\<close> between two steps on the locks.\<close>

lemma Master_schedule_mock:
  assumes "Master_schedule api mock_locks ch c n (s, b) = Returns (s', b')"
  obtains b1 b2 where "same_store b1 b" and "same_store b' b2"
    and "schedule_locked api ch c n (ms_schedulers s) b1 = Returns (ms_schedulers s', b2)"
    and "ms_Config s' = ms_Config s"
proof -
  obtain ls b1 l where lock: "SchedulerLocks_Lock mock_locks (c @ '':'' @ n) (ms_locks s, b) = ((ls, b1), Ok l)"
    "IsHeld mock_locks l b1" "same_store b1 b"
    using mock_lock_step by blast
  obtain sk b2 ls' where "schedule_locked api ch c n (ms_schedulers s) b1 = Returns (sk, b2)"
    and un: "SchedulerLocks_Unlock mock_locks (c @ '':'' @ n) (ls, b2) = (ls', b')"
    and "s' = s\<lparr>ms_locks := ls', ms_schedulers := sk\<rparr>"
    using assms lock(1) by (rule Master_schedule_locked) (simp add: lock(2))
  then show ?thesis by (intro that [OF lock(3) mock_unlock_step [OF un]]) simp_all
qed

section \<open>One call of \<open>Schedule\<close>\<close>

lemma Schedule_hosts_grow:
  assumes "Schedule api ch d s b = Returns (None, s', b')" and "hosts_keyed s"
  shows "dom (lookup (ds_hosts s)) \<subseteq> dom (lookup (ds_hosts s'))"
proof -
  obtain cl td ts s1 p where sync: "syncHosts api b s = Returns (None, s1)"
    and reb: "rebalance api ch cl td d ts s1 b = Returns (s', p)"
    using assms(1) by (rule Schedule_run)
  have s1: "hosts_keyed s1" by (rule syncHosts_keyed [OF sync assms(2)])
  have sub: "dom (lookup (ds_hosts s)) \<subseteq> dom (lookup (ds_hosts s1))"
    using sync by (rule syncHosts_run) (simp add: sync_hosts_dom)
  have "dom (lookup (ds_hosts s)) \<subseteq> dom (lookup (ds_hosts s')) \<and> hosts_keyed s'"
    by (rule rebalance_invariant [OF reb s1, where P = "\<lambda>_. True"
          and Q = "\<lambda>s' _. dom (lookup (ds_hosts s)) \<subseteq> dom (lookup (ds_hosts s'))"])
      (use sub in \<open>simp_all add: drops_keep_def placement_dom\<close>)
  then show ?thesis by simp
qed

lemma sync_host_nonempty: "m \<noteq> [] \<Longrightarrow> sync_host h m \<noteq> []"
  by (cases m) (auto simp: sync_host_def)

lemma sync_hosts_nonempty: "\<exists>h \<in> set hs. \<not> ho_Draining h \<Longrightarrow> fold sync_host hs m \<noteq> []"
proof (induction hs arbitrary: m)
  case (Cons h hs)
  have keep: "m \<noteq> [] \<Longrightarrow> fold sync_host hs m \<noteq> []" for m
    by (rule fold_invariant [where P = "\<lambda>m. m \<noteq> []"]) (auto dest: sync_host_nonempty)
  show ?case
  proof (cases "ho_Draining h")
    case True
    with Cons show ?thesis by simp
  next
    case False
    have "insert_key (ho_Name h) h m \<noteq> []" by (cases m) auto
    with False have "sync_host h m \<noteq> []" by (simp add: sync_host_def)
    then show ?thesis by (simp add: keep)
  qed
qed simp

lemma Schedule_succeeds:
  assumes "Schedule (mock_api ord) ch d s b = Returns (err, s', b')" and "ds_cluster s = Some cl"
    and "lookup (mk_hosts b) n = Some h" and "\<not> ho_Draining h"
    and "lookup (mk_taskDefinitions b) (dp_TaskName d) \<noteq> None" and "mock_good b"
  shows "err = None"
proof -
  have "h \<in> set (range_values ord (mk_hosts b))" using assms(3) by (auto intro: ranI)
  then have "fold sync_host (range_values ord (mk_hosts b)) (ds_hosts s) \<noteq> []"
    using assms(4) sync_hosts_nonempty by blast
  moreover obtain ts where "ListTasks (mock_api ord) (list_query cl d) b = Ok ts"
    using mock_tasks.ListTasks_selects [OF assms(6), of "list_query cl d"] by (auto simp: list_query_def any_task_def)
  ultimately show ?thesis
    using assms(1,2,5)
    by (auto simp: Schedule_def syncHosts_def bind_outcome_Returns_iff mock_api_def mock_list_defs mock_get_defs
        split: option.splits)
qed

section \<open>All requests\<close>

text \<open>The tasks of the deployments \<open>ds\<close> of cluster \<open>c\<close> that are scheduled stand where they should.\<close>

definition settled :: "string \<Rightarrow> string set \<Rightarrow> default_scheduler \<Rightarrow> mock \<Rightarrow> bool" where
  "settled c ds sked b \<longleftrightarrow>
     (\<forall>k t. lookup (mk_tasks b) k = Some t \<longrightarrow> tk_Cluster t = c \<longrightarrow> tk_Deployment t \<in> ds \<longrightarrow> tk_Scheduled t \<longrightarrow>
        in_place sked t)"

lemma settled_same: "same_store a b \<Longrightarrow> settled c ds sked a = settled c ds sked b"
  by (simp add: settled_def same_store_def)

lemma settled_step:
  assumes run: "Schedule (mock_api ord) ch d s b = Returns (None, s', b')" and good: "mock_good b"
    and keyed: "hosts_keyed s" and cl: "ds_cluster s = Some cl" and named: "named cl d"
    and td: "lookup (mk_taskDefinitions b) (dp_TaskName d) = Some td"
    and set: "settled (cl_Name cl) ds s b"
  shows "settled (cl_Name cl) (insert (dp_Name d) ds) s' b'"
  unfolding settled_def
proof (intro allI impI)
  fix k t
  assume t: "lookup (mk_tasks b') k = Some t" "tk_Cluster t = cl_Name cl" "tk_Deployment t \<in> insert (dp_Name d) ds"
    "tk_Scheduled t"
  show "in_place s' t"
  proof (cases "tk_Deployment t = dp_Name d")
    case True
    then have "issued cl d (lookup (mk_tasks b')) k = Some t" using t by (simp add: issued_Some own_def)
    then show ?thesis by (rule mock_tasks.Schedule_in_place [OF run good keyed cl named TrueI])
  next
    case False
    have def: "GetTaskDefinition (mock_api ord) (dp_TaskName d) (dp_TaskVersion d) b = Ok td"
      using td by (simp add: mock_api_def mock_get_defs)
    have "lookup (mk_tasks b') k = lookup (mk_tasks b) k"
      using mock_tasks.Schedule_frame [OF run good keyed cl named TrueI def, of k] t False by (auto simp: own_def)
    with t False set have "in_place s t" by (auto simp: settled_def)
    then show ?thesis
      using Schedule_hosts_grow [OF run keyed] by (auto simp: in_place_def host_gone_def)
  qed
qed

text \<open>The scheduler object behind every name.\<close>

definition one_object :: "nat \<Rightarrow> string set \<Rightarrow> default_scheduler \<Rightarrow> schedulers \<Rightarrow> bool" where
  "one_object n names sked s \<longleftrightarrow> (\<forall>m \<in> names. lookup (ss_names s) m = Some n) \<and> lookup (ss_objects s) n = Some sked"

text \<open>What the configuration needs for a request to go through.\<close>

definition configured :: "string \<Rightarrow> string set \<Rightarrow> mock \<Rightarrow> scheduleReq \<Rightarrow> bool" where
  "configured c names b r \<longleftrightarrow> rq_cluster r = c \<and> rq_service r \<noteq> '''' \<and>
     (\<exists>d. lookup (mk_deployments b) (rq_service r) = Some d \<and> dp_Scheduler d \<in> names \<and>
        lookup (mk_taskDefinitions b) (dp_TaskName d) \<noteq> None)"

definition same_config :: "mock \<Rightarrow> mock \<Rightarrow> bool" where
  "same_config a b \<longleftrightarrow>
     (\<forall>n v. mock_GetTaskDefinition n v a = mock_GetTaskDefinition n v b \<and> mock_GetDeployment n a = mock_GetDeployment n b \<and>
        mock_GetCluster n a = mock_GetCluster n b) \<and> ran (lookup (mk_hosts a)) = ran (lookup (mk_hosts b))"

lemma same_config_refl [simp]: "same_config b b"
  by (simp add: same_config_def)

lemma same_config_trans: "same_config a b \<Longrightarrow> same_config b c \<Longrightarrow> same_config a c"
  by (simp add: same_config_def)

lemma same_store_config: "same_store a b \<Longrightarrow> same_config a b"
  by (simp add: same_config_def same_store_def mock_get_defs)

lemma get_or_not_found_inject: "get_or_not_found m k = get_or_not_found m' k \<longleftrightarrow> lookup m k = lookup m' k"
  by (auto simp: get_or_not_found_def split: option.splits)

lemma same_config_lookup:
  assumes "same_config a b"
  shows "lookup (mk_deployments a) n = lookup (mk_deployments b) n"
    and "lookup (mk_taskDefinitions a) n = lookup (mk_taskDefinitions b) n"
    and "lookup (mk_clusters a) n = lookup (mk_clusters b) n"
  using assms
  by (simp_all add: same_config_def mock_GetDeployment_def mock_GetTaskDefinition_def mock_GetCluster_def get_or_not_found_inject)

lemma Schedule_same_config:
  assumes "Schedule (mock_api ord) ch d s b = Returns (None, s', b')" and "mock_good b"
    and "hosts_keyed s" and "ds_cluster s = Some cl" and "named cl d"
  shows "same_config b' b" and "mock_good b'"
proof -
  note c = mock_tasks.Schedule_config [OF assms TrueI]
  have "mock_ListHosts ord n b' = mock_ListHosts ord n b" for n using c [of n] by (simp add: mock_api_def)
  then have "set (range_values ord (mk_hosts b')) = set (range_values ord (mk_hosts b))" by (simp add: mock_ListHosts_def)
  then show "same_config b' b" using c by (simp add: same_config_def mock_api_def)
  show "mock_good b'" using c by blast
qed

text \<open>The state between two requests, for the requests already run.\<close>

definition between ::
  "string \<Rightarrow> nat \<Rightarrow> string set \<Rightarrow> mock \<Rightarrow> string set \<Rightarrow> 'l master \<times> mock \<Rightarrow> bool" where
  "between c n names b0 ds = (\<lambda>(s, b).
     mock_good b \<and> same_config b b0 \<and> schedulers_ok (ms_schedulers s) \<and>
     (\<exists>sked. one_object n names sked (ms_schedulers s) \<and> settled c ds sked b))"

lemma between_setup:
  assumes "mock_good b"
  shows "between c n {'''', ''spread'', ''binpack''} b {} (Master_Run_setup n (NewMaster conf), b)"
proof -
  have "one_object n {'''', ''spread'', ''binpack''} NewDefaultScheduler (ms_schedulers (Master_Run_setup n (NewMaster conf)))"
    by (simp add: one_object_def Master_Run_setup_def Schedulers_Use_def put_object_def NewMaster_def NewSchedulerMap_def)
  with assms show ?thesis by (auto simp: between_def schedulers_ok_setup settled_def)
qed

lemma request_step:
  assumes run: "Master_schedule (mock_api ord) mock_locks ch (rq_cluster r) (rq_service r) (s, b) = Returns (s', b')"
    and between: "between c n names b0 ds (s, b)" and req: "configured c names b0 r"
    and c: "c \<noteq> ''''" "lookup (mk_clusters b0) c \<noteq> None" "mock_good b0"
    and host: "\<exists>h \<in> ran (lookup (mk_hosts b0)). \<not> ho_Draining h"
  shows "between c n names b0 (insert (rq_service r) ds) (s', b')"
proof -
  obtain sked where inv: "mock_good b" "same_config b b0" "schedulers_ok (ms_schedulers s)"
    and obj: "one_object n names sked (ms_schedulers s)" and set: "settled c ds sked b"
    using between by (auto simp: between_def)
  obtain b1 b2 where b1: "same_store b1 b" and b2: "same_store b' b2"
    and call: "schedule_locked (mock_api ord) ch (rq_cluster r) (rq_service r) (ms_schedulers s) b1 =
      Returns (ms_schedulers s', b2)"
    using run by (rule Master_schedule_mock)
  have b1': "mock_good b1" "same_config b1 b0" "settled c ds sked b1"
    using b1 inv set same_store_good settled_same same_config_trans [OF same_store_config [OF b1]] by auto
  obtain cl d td where cl: "lookup (mk_clusters b1) c = Some cl" and d: "lookup (mk_deployments b1) (rq_service r) = Some d"
    "dp_Scheduler d \<in> names" and td: "lookup (mk_taskDefinitions b1) (dp_TaskName d) = Some td"
    and r: "rq_cluster r = c" "rq_service r \<noteq> ''''"
    using req c(2) same_config_lookup [OF b1'(2)] by (auto simp: configured_def)
  have names: "cl_Name cl = c" "dp_Name d = rq_service r"
    using b1'(1) cl d(1) by (auto simp: mock_good_def dest: keyed_by_lookup)
  have get: "Schedulers_Get (dp_Scheduler d) (ms_schedulers s) = Some (n, sked)"
    using obj d(2) by (simp add: Schedulers_Get_def one_object_def)
  have keyed: "hosts_keyed (SetCluster cl sked)" using Schedulers_Get_keyed [OF inv(3) get] by simp
  have sc: "ds_cluster (SetCluster cl sked) = Some cl" "named cl d"
    using names r(2) c(1) by (simp_all add: SetCluster_def named_def)
  obtain err sked' where sched: "Schedule (mock_api ord) ch d (SetCluster cl sked) b1 = Returns (err, sked', b2)"
    and s': "ms_schedulers s' = put_object n sked' (ms_schedulers s)"
    using call cl d(1) get
    by (auto simp: schedule_locked_def mock_api_def mock_get_defs r bind_outcome_Returns_iff)
  have "ran (lookup (mk_hosts b1)) = ran (lookup (mk_hosts b0))" using b1'(2) by (simp add: same_config_def)
  then obtain h where "h \<in> ran (lookup (mk_hosts b1))" "\<not> ho_Draining h" using host by auto
  then obtain m where "lookup (mk_hosts b1) m = Some h" "\<not> ho_Draining h" by (auto simp: ran_def)
  then have "err = None" using Schedule_succeeds [OF sched sc(1)] td b1'(1) by blast
  with sched have sched: "Schedule (mock_api ord) ch d (SetCluster cl sked) b1 = Returns (None, sked', b2)" by simp
  have "settled c ds (SetCluster cl sked) b1"
    using b1'(3) by (simp add: settled_def in_place_def host_gone_def SetCluster_def)
  then have "settled c (insert (rq_service r) ds) sked' b2"
    using settled_step [OF sched b1'(1) keyed sc td] names by simp
  moreover have "same_config b2 b0" "mock_good b2"
    using Schedule_same_config [OF sched b1'(1) keyed sc] b1'(2) by (auto intro: same_config_trans)
  moreover have "schedulers_ok (ms_schedulers s')"
    using s' inv(3) Schedule_keyed [OF sched keyed] by (simp add: schedulers_ok_put)
  moreover have "one_object n names sked' (ms_schedulers s')" using obj by (simp add: s' one_object_def put_object_def)
  ultimately show ?thesis
    using b2 same_store_good settled_same same_config_trans [OF same_store_config [OF b2]] by (auto simp: between_def)
qed

lemma run_requests_between:
  assumes "run_requests (mock_api ord) mock_locks ch reqs (s, b) = Returns (s', b')"
    and "between c n names b0 ds (s, b)" and "\<forall>r \<in> set reqs. configured c names b0 r"
    and "c \<noteq> ''''" "lookup (mk_clusters b0) c \<noteq> None" "mock_good b0"
    and "\<exists>h \<in> ran (lookup (mk_hosts b0)). \<not> ho_Draining h"
  shows "between c n names b0 (ds \<union> rq_service ` set reqs) (s', b')"
  using assms(1-3)
proof (induction reqs arbitrary: s b ds)
  case (Cons r reqs)
  obtain s1 b1 where r: "Master_schedule (mock_api ord) mock_locks (ch (length reqs)) (rq_cluster r) (rq_service r) (s, b) =
      Returns (s1, b1)" and rest: "run_requests (mock_api ord) mock_locks ch reqs (s1, b1) = Returns (s', b')"
    using Cons.prems(1) by (auto simp: bind_outcome_Returns_iff)
  have "between c n names b0 (insert (rq_service r) ds) (s1, b1)"
    using request_step [OF r Cons.prems(2) _ assms(4-7)] Cons.prems(3) by simp
  from Cons.IH [OF rest this] Cons.prems(3) show ?case by simp
qed simp

end
