(* ===== verification/Master_Properties.thy ===== *)
theory Master_Properties
  imports Reconcile Schedule_Properties
begin

text \<open>
  The properties of the master, its queue, its locks and the garbage collection, with their instances on
  the example cluster.
\<close>

section \<open>An example\<close>

definition ex_conf :: master_config where
  "ex_conf = \<lparr>mc_Runners = 1, mc_SyncInterval = 0, mc_Cluster = ''c''\<rparr>"

definition ex_master :: "mock_lock master" where
  "ex_master = Master_Run_setup 0 (NewMaster ex_conf)"

text \<open>The example backend with the cluster and the deployment stored in it.\<close>

definition ex_stored :: "task list \<Rightarrow> mock" where
  "ex_stored ts = (ex_backend ts)\<lparr>mk_clusters := [(''c'', ex_cluster)], mk_deployments := [(''d'', ex_deployment 2)]\<rparr>"

lemma ex_stored_good: "mock_good (ex_stored ts)"
  using ex_good [of ts] by (simp add: mock_good_def ex_stored_def keyed_by_def ex_cluster_def ex_deployment_def)

section \<open>Reconciliation\<close>

text \<open>
  Once the requests for some deployments of a cluster have been run, one after the other and in any
  order, every scheduled task of every one of them stands on a host that the scheduler knows and was
  not rejected; a later request does not spoil an earlier one.
\<close>

theorem requests_settle:
  assumes "run_requests (mock_api ord) mock_locks ch reqs (Master_Run_setup n (NewMaster conf), b) = Returns (s', b')"
    and "mock_good b" and "c \<noteq> ''''" and "lookup (mk_clusters b) c \<noteq> None"
    and "\<exists>h \<in> ran (lookup (mk_hosts b)). \<not> ho_Draining h"
    and "\<forall>r \<in> set reqs. rq_cluster r = c \<and> rq_service r \<noteq> '''' \<and>
      (\<exists>d. lookup (mk_deployments b) (rq_service r) = Some d \<and> dp_Scheduler d \<in> {'''', ''spread'', ''binpack''} \<and>
        lookup (mk_taskDefinitions b) (dp_TaskName d) \<noteq> None)"
    and "lookup (mk_tasks b') k = Some t" and "tk_Cluster t = c" and "tk_Deployment t \<in> rq_service ` set reqs"
    and "tk_Scheduled t"
  shows "\<exists>sked. Schedulers_Get '''' (ms_schedulers s') = Some (n, sked) \<and>
    (\<exists>h. lookup (ds_hosts sked) (tk_Host t) = Some h) \<and> \<not> tk_Rejected t"
proof -
  let ?names = "{'''', ''spread'', ''binpack''}"
  have "between c n ?names b {} (Master_Run_setup n (NewMaster conf), b)"
    using assms(2) by (rule between_setup)
  moreover have "\<forall>r \<in> set reqs. configured c ?names b r" using assms(6) by (simp add: configured_def)
  ultimately have "between c n ?names b ({} \<union> rq_service ` set reqs) (s', b')"
    by (rule run_requests_between [OF assms(1) _ _ assms(3,4,2,5)])
  then obtain sked where "one_object n ?names sked (ms_schedulers s')" "settled c (rq_service ` set reqs) sked b'"
    by (auto simp: between_def)
  then show ?thesis
    using assms(7-10) by (auto simp: settled_def one_object_def Schedulers_Get_def in_place_def host_gone_def)
qed

lemmas ex_master_eval = ex_eval run_requests.simps Master_schedule_def SchedulerLocks_Lock_def lock_stored_def mock_locks_def
  mock_Lock_def mock_LockIt_def mock_IsHeld_def mock_UnlockIt_def SchedulerLocks_Unlock_def NewSchedulerLocks_def
  schedule_locked_def Schedulers_Get_def Schedulers_Use_def put_object_def NewSchedulerMap_def ex_master_def
  Master_Run_setup_def NewMaster_def ex_stored_def NewMockLock_def

definition ex_ran :: "mock_lock master \<times> mock" where
  "ex_ran = (case run_requests (mock_api listed_order) mock_locks (\<lambda>_. ex_choices) [\<lparr>rq_cluster = ''c'', rq_service = ''d''\<rparr>]
     (ex_master, ex_stored []) of Returns r \<Rightarrow> r | _ \<Rightarrow> (ex_master, ex_stored []))"

lemma ex_ran_returns:
  "run_requests (mock_api listed_order) mock_locks (\<lambda>_. ex_choices) [\<lparr>rq_cluster = ''c'', rq_service = ''d''\<rparr>]
     (ex_master, ex_stored []) = Returns ex_ran"
  by (simp add: ex_ran_def ex_master_eval)

lemma ex_ran_tasks: "map (\<lambda>(k, t). (k, tk_Cluster t, tk_Deployment t, tk_Scheduled t)) (mk_tasks (snd ex_ran)) =
    [(''c-d-1-0'', ''c'', ''d'', True), (''c-d-1-1'', ''c'', ''d'', True)]"
  by (simp add: ex_ran_def ex_master_eval)

theorem requests_settle_witness:
  "\<exists>t sked h. lookup (mk_tasks (snd ex_ran)) ''c-d-1-1'' = Some t \<and>
    Schedulers_Get '''' (ms_schedulers (fst ex_ran)) = Some (0, sked) \<and> lookup (ds_hosts sked) (tk_Host t) = Some h"
proof -
  obtain t where t: "lookup (mk_tasks (snd ex_ran)) ''c-d-1-1'' = Some t"
    "tk_Cluster t = ''c''" "tk_Deployment t = ''d''" "tk_Scheduled t"
    using ex_ran_tasks by (auto simp: map_eq_Cons_conv)
  have run: "run_requests (mock_api listed_order) mock_locks (\<lambda>_. ex_choices) [\<lparr>rq_cluster = ''c'', rq_service = ''d''\<rparr>]
     (Master_Run_setup 0 (NewMaster ex_conf), ex_stored []) = Returns (fst ex_ran, snd ex_ran)"
    using ex_ran_returns by (simp add: ex_master_def)
  have "\<exists>h \<in> ran (lookup (mk_hosts (ex_stored []))). \<not> ho_Draining h"
    by (simp add: ex_stored_def ex_backend_def ex_host_def)
  from requests_settle [OF run ex_stored_good _ _ this _ t(1), of "''c''"] t show ?thesis
    by (auto simp: ex_stored_def ex_backend_def ex_deployment_def)
qed

section \<open>Running one request\<close>

text \<open>
  C34. A request never panics when its cluster is stored and the table of schedulers is in order, keeps
  the table in order, and releases its lock on every way out that returns.
\<close>

theorem request_safe:
  assumes "schedulers_ok (ms_schedulers s)" and "lookup (mk_clusters b) c \<noteq> None"
  shows "case Master_schedule (mock_api ord) mock_locks ch c n (s, b) of
      Returns (s', b') \<Rightarrow> schedulers_ok (ms_schedulers s') \<and> \<not> holds mock_locks (c @ '':'' @ n) (ms_locks s', b')
    | Panics \<Rightarrow> False
    | Hangs \<Rightarrow> True"
proof -
  obtain ls b1 l where lock: "SchedulerLocks_Lock mock_locks (c @ '':'' @ n) (ms_locks s, b) = ((ls, b1), Ok l)"
    and held: "IsHeld mock_locks l b1" and same: "same_store b1 b"
    using mock_lock_step by blast
  have "GetCluster (mock_api ord) c b1 \<noteq> Fail e None" for e
    using assms(2) same by (auto simp: mock_api_def mock_get_defs same_store_def)
  then have no_panic: "schedule_locked (mock_api ord) ch c n (ms_schedulers s) b1 \<noteq> Panics"
    using assms(1) calm_mock by (intro schedule_locked_no_panic)
  show ?thesis
  proof (cases "schedule_locked (mock_api ord) ch c n (ms_schedulers s) b1")
    case (Returns r)
    obtain sk b2 where r: "r = (sk, b2)" by (cases r)
    obtain ls' b3 where un: "SchedulerLocks_Unlock mock_locks (c @ '':'' @ n) (ls, b2) = (ls', b3)" by (metis surj_pair)
    have "Master_schedule (mock_api ord) mock_locks ch c n (s, b) = Returns (s\<lparr>ms_locks := ls', ms_schedulers := sk\<rparr>, b3)"
      using lock held Returns r un by (simp add: Master_schedule_def Let_def)
    moreover have "schedulers_ok sk" using schedule_locked_ok [OF assms(1)] Returns r by simp
    moreover have "\<not> holds mock_locks (c @ '':'' @ n) (ls', b3)"
      using mock_lock_service.Unlock_released [of "c @ '':'' @ n" ls b2] un by simp
    ultimately show ?thesis by simp
  next
    case Hangs
    with lock held show ?thesis by (simp add: Master_schedule_def Let_def)
  qed (use no_panic in simp)
qed

theorem request_safe_witness:
  "\<not> holds mock_locks ''c:d'' (ms_locks (fst ex_ran), snd ex_ran)"
proof -
  have "Master_schedule (mock_api listed_order) mock_locks ex_choices ''c'' ''d'' (ex_master, ex_stored []) =
      Returns (fst ex_ran, snd ex_ran)"
    using ex_ran_returns by (auto simp: bind_outcome_Returns_iff)
  moreover have "schedulers_ok (ms_schedulers ex_master)" by (simp add: ex_master_def schedulers_ok_setup)
  moreover have "lookup (mk_clusters (ex_stored [])) ''c'' \<noteq> None" by (simp add: ex_stored_def)
  ultimately show ?thesis
    using request_safe [where s = ex_master and b = "ex_stored []" and c = "''c''" and n = "''d''" and ord = listed_order and ch = ex_choices] by (simp add: case_prod_beta)
qed

text \<open>
  A request for a cluster that is not stored panics on the in-memory backend: the log line of the
  error reads the name of the nil cluster.
\<close>

theorem missing_cluster_panics:
  "Master_schedule (mock_api ord) mock_locks ch c n (s, NewMockApi) = Panics"
proof -
  obtain ls b1 l where lock: "SchedulerLocks_Lock mock_locks (c @ '':'' @ n) (ms_locks s, NewMockApi) = ((ls, b1), Ok l)"
    "IsHeld mock_locks l b1" "same_store b1 NewMockApi"
    using mock_lock_step by blast
  then have "schedule_locked (mock_api ord) ch c n (ms_schedulers s) b1 = Panics"
    by (simp add: schedule_locked_def mock_api_def mock_get_defs same_store_def NewMockApi_def)
  with lock show ?thesis by (simp add: Master_schedule_def Let_def)
qed

text \<open>
  On the in-memory backend a lock does not exclude: locking one that is held already succeeds and
  reports it as held, so two workers can schedule one deployment at the same time.
\<close>

theorem memory_lock_not_exclusive:
  "holds mock_locks n (fst (SchedulerLocks_Lock mock_locks n (s, b))) \<and>
   (\<exists>st l. SchedulerLocks_Lock mock_locks n (fst (SchedulerLocks_Lock mock_locks n (s, b))) = (st, Ok l) \<and>
      IsHeld mock_locks l (snd st))"
proof
  show "holds mock_locks n (fst (SchedulerLocks_Lock mock_locks n (s, b)))"
    by (auto simp: holds_def SchedulerLocks_Lock_def lock_stored_def mock_locks_def mock_Lock_def mock_LockIt_def
        mock_IsHeld_def split: option.split)
  show "\<exists>st l. SchedulerLocks_Lock mock_locks n (fst (SchedulerLocks_Lock mock_locks n (s, b))) = (st, Ok l) \<and>
      IsHeld mock_locks l (snd st)"
    by (metis mock_lock_granted surj_pair)
qed

section \<open>Dispatching and garbage collection\<close>

text \<open>
  A dispatch pushes one request per deployment of the cluster, in the order the cluster lists them,
  if all of them are stored, and otherwise the requests before the first missing one with an error.
\<close>

theorem dispatch_requests:
  assumes "mock_good b" and "lookup (mk_clusters b) (mc_Cluster (ms_Config s)) = Some cl"
  shows "dispatchAll (mock_api ord) b s = Returns
    (if \<forall>n \<in> set (cl_Deployments cl). lookup (mk_deployments b) n \<noteq> None then None else Some ErrNotFound,
     map (\<lambda>n. \<lparr>rq_cluster = mc_Cluster (ms_Config s), rq_service = n\<rparr>)
       (takeWhile (\<lambda>n. lookup (mk_deployments b) n \<noteq> None) (cl_Deployments cl)))"
proof -
  have name: "dp_Name d = n" if "lookup (mk_deployments b) n = Some d" for n d
    using assms(1) that by (auto simp: mock_good_def dest: keyed_by_lookup)
  have "dispatch_names (mock_api ord) b c ns = Returns
      (if \<forall>n \<in> set ns. lookup (mk_deployments b) n \<noteq> None then None else Some ErrNotFound,
       map (\<lambda>n. \<lparr>rq_cluster = c, rq_service = n\<rparr>) (takeWhile (\<lambda>n. lookup (mk_deployments b) n \<noteq> None) ns))" for c ns
    by (induction ns) (auto simp: mock_api_def mock_get_defs name split: option.splits)
  moreover have "cl_Name cl = mc_Cluster (ms_Config s)"
    using assms by (auto simp: mock_good_def dest: keyed_by_lookup)
  ultimately show ?thesis
    using assms(2) by (simp add: dispatchAll_def Master_Cluster_def mock_api_def mock_get_defs)
qed

theorem dispatch_requests_witness:
  "dispatchAll (mock_api listed_order) (ex_stored []) ex_master = Returns (None, [\<lparr>rq_cluster = ''c'', rq_service = ''d''\<rparr>])"
proof -
  have "lookup (mk_clusters (ex_stored [])) (mc_Cluster (ms_Config ex_master)) = Some ex_cluster"
    by (simp add: ex_stored_def ex_master_def Master_Run_setup_def run_defaults_def NewMaster_def ex_conf_def)
  from dispatch_requests [OF ex_stored_good this] show ?thesis
    by (simp add: ex_stored_def ex_master_def Master_Run_setup_def run_defaults_def NewMaster_def ex_conf_def ex_cluster_def)
qed

text \<open>
  A garbage collection unschedules exactly the tasks of the cluster whose deployment the cluster no
  longer lists; every other task, and every other field, stays.
\<close>

theorem garbage_collection_exact:
  assumes "mock_good b" and "mc_Cluster (ms_Config s) \<noteq> ''''"
    and "lookup (mk_clusters b) (mc_Cluster (ms_Config s)) = Some cl"
  shows "\<exists>b' n. runGarbageCollect (mock_api ord) s b = Returns (None, b', n) \<and>
    (\<forall>k. lookup (mk_tasks b') k = map_option
      (\<lambda>t. if tk_Cluster t = mc_Cluster (ms_Config s) \<and> tk_Deployment t \<notin> set (cl_Deployments cl)
        then t\<lparr>tk_Scheduled := False\<rparr> else t) (lookup (mk_tasks b) k))"
proof -
  have "GetCluster (mock_api ord) (mc_Cluster (ms_Config s)) b = Ok cl"
    using assms(3) by (simp add: mock_api_def mock_get_defs)
  from mock_tasks.garbage_collected [OF assms(1,2) this] show ?thesis
    by (auto simp: gc_view_def fun_eq_iff)
qed

theorem garbage_collection_exact_witness:
  "\<exists>b' n t. runGarbageCollect (mock_api listed_order) ex_master
      ((ex_stored [ex_task 1 0])\<lparr>mk_clusters := [(''c'', ex_cluster\<lparr>cl_Deployments := []\<rparr>)]\<rparr>) = Returns (None, b', n) \<and>
    lookup (mk_tasks b') (task_ID (ex_task 1 0)) = Some t \<and> \<not> tk_Scheduled t"
proof -
  let ?b = "(ex_stored [ex_task 1 0])\<lparr>mk_clusters := [(''c'', ex_cluster\<lparr>cl_Deployments := []\<rparr>)]\<rparr>"
  have c: "mc_Cluster (ms_Config ex_master) = ''c''"
    by (simp add: ex_master_def Master_Run_setup_def run_defaults_def NewMaster_def ex_conf_def)
  then have c': "mc_Cluster (ms_Config ex_master) \<noteq> ''''" by simp
  have good: "mock_good ?b"
    using ex_stored_good [of "[ex_task 1 0]"] by (simp add: mock_good_def keyed_by_def ex_cluster_def)
  have cl: "lookup (mk_clusters ?b) (mc_Cluster (ms_Config ex_master)) = Some (ex_cluster\<lparr>cl_Deployments := []\<rparr>)"
    by (simp add: c)
  obtain b' n where "runGarbageCollect (mock_api listed_order) ex_master ?b = Returns (None, b', n)"
    and view: "\<forall>k. lookup (mk_tasks b') k = map_option
      (\<lambda>t. if tk_Cluster t = mc_Cluster (ms_Config ex_master) \<and> tk_Deployment t \<notin> set (cl_Deployments (ex_cluster\<lparr>cl_Deployments := []\<rparr>))
        then t\<lparr>tk_Scheduled := False\<rparr> else t) (lookup (mk_tasks ?b) k)"
    using garbage_collection_exact [OF good c' cl, of listed_order] by blast
  moreover have "lookup (mk_tasks ?b) (task_ID (ex_task 1 0)) = Some (ex_task 1 0)"
    by (simp add: ex_stored_def ex_backend_def)
  moreover have "tk_Cluster (ex_task 1 0) = ''c''" using ex_task_fields(1) [of 2 1 0] by (simp add: own_def ex_cluster_def)
  ultimately show ?thesis by (auto simp: c)
qed

section \<open>The queue\<close>

text \<open>
  C35. The in-place loop of \<open>doEnqueue\<close> computes a removal followed by an append: on a queue without
  duplicates it never indexes out of range, moves a request that is queued already to the end, keeps
  the others in order, and leaves no duplicates.
\<close>

theorem enqueue_moves_to_end:
  assumes "distinct q"
  shows "doEnqueue v q = Returns (filter (\<lambda>u. u \<noteq> v) q @ [v]) \<and> distinct (filter (\<lambda>u. u \<noteq> v) q @ [v])"
  using assms by (simp add: doEnqueue_distinct filter_removeAll distinct_removeAll_remove1 distinct_remove1 distinct_filter)

theorem enqueue_moves_to_end_witness: "doEnqueue (1::nat) [3, 1, 2] = Returns [3, 2, 1]"
  using enqueue_moves_to_end [of "[3, 1, 2::nat]" 1] by simp

text \<open>
  C22. No request is lost: in every run of the queue and its clients, a request that was pushed is still
  waiting in the channel or the queue, or was handed to a worker after it was last pushed; the goroutine
  never panics, and while something can be taken up or served it can make a step.
\<close>

theorem queue_nothing_lost:
  assumes "queue_run es s"
  shows "(\<forall>v. Push v \<in> set es \<longrightarrow> v \<in> set (qs_queue s) \<or> v \<in> set (qs_enqueue s) \<or>
      (\<exists>es1 w es2. es = es1 @ Serve w v # es2 \<and> Push v \<notin> set es2)) \<and>
    (\<forall>v. doEnqueue v (qs_queue s) \<noteq> Panics) \<and>
    (qs_listening s \<and> (qs_enqueue s \<noteq> [] \<or> (qs_queue s \<noteq> [] \<and> qs_dequeue s \<noteq> [])) \<longrightarrow>
      (\<exists>e s'. queue_step s e s' \<and> ((\<exists>v. e = Take v) \<or> (\<exists>w v. e = Serve w v))))"
  using queue_run_nothing_lost [OF assms] queue_run_no_panic [OF assms] queue_run_progress [OF assms]
  unfolding served_since_def by blast

theorem queue_nothing_lost_witness:
  "\<exists>s'. queue_step ((NewSchedulerQueue :: (nat, nat) queue_state)\<lparr>qs_enqueue := [5]\<rparr>) (Take 5) s'"
proof -
  let ?s = "(NewSchedulerQueue :: (nat, nat) queue_state)\<lparr>qs_enqueue := [5]\<rparr>"
  have "queue_run ([] @ [Push 5]) ?s"
    using queue_run.step [OF queue_run.start queue_step.push [of NewSchedulerQueue 5]] by (simp add: NewSchedulerQueue_def)
  moreover have "qs_listening ?s" "qs_enqueue ?s \<noteq> []" by (simp_all add: NewSchedulerQueue_def)
  ultimately obtain e s' where step: "queue_step ?s e s'" and e: "(\<exists>v. e = Take v) \<or> (\<exists>w v. e = Serve w v)"
    using queue_nothing_lost by blast
  from step e have "e = Take 5" by (cases rule: queue_step.cases) (auto simp: NewSchedulerQueue_def)
  with step show ?thesis by blast
qed

end
