(* ===== verification/Executors.thy ===== *)
theory Executors
  imports Api_Types
begin

text \<open>
  The executors of src/api/executors.go, which turn the containers of a task into commands, the set-up
  and tear-down commands of a container (src/api/task_definition.go) and \<open>tools.Exec\<close>. What a command
  does is outside the program: it is a step \<open>sys\<close> on the state \<open>'w\<close> of the machine, which may fail.
\<close>

section \<open>Commands (src/tools/exec.go)\<close>

text \<open>An environment that is nil is that of the agent itself.\<close>

record exec_command =
  cm_env :: "string list option"
  cm_timeout :: duration
  cm_main :: string
  cm_args :: "string list"

type_synonym 'w system = "exec_command \<Rightarrow> 'w \<Rightarrow> go_error option \<times> 'w"

definition Exec ::
  "'w system \<Rightarrow> string list option \<Rightarrow> duration \<Rightarrow> string \<Rightarrow> string list \<Rightarrow> 'w \<Rightarrow> go_error option \<times> 'w" where
  "Exec sys env timeout main cmds w =
     sys \<lparr>cm_env = env, cm_timeout = timeout, cm_main = main, cm_args = cmds\<rparr> w"

text \<open>Commands run in order until one fails.\<close>

fun exec_all :: "'w system \<Rightarrow> exec_command list \<Rightarrow> 'w \<Rightarrow> go_error option \<times> 'w" where
  "exec_all sys [] w = (None, w)"
| "exec_all sys (c # cs) w =
     (case sys c w of (Some e, w') \<Rightarrow> (Some e, w') | (None, w') \<Rightarrow> exec_all sys cs w')"

definition shell :: "string \<Rightarrow> exec_command" where
  "shell cmd = \<lparr>cm_env = None, cm_timeout = 20 * second, cm_main = ''sh'', cm_args = [''-c'', cmd]\<rparr>"

definition RunSetup :: "'w system \<Rightarrow> container \<Rightarrow> 'w \<Rightarrow> go_error option \<times> 'w" where
  "RunSetup sys c = exec_all sys (map shell (ct_Setup c))"

text \<open>The tear-down runs the list \<open>Setup\<close>, as the code does.\<close>

definition RunTeardown :: "'w system \<Rightarrow> container \<Rightarrow> 'w \<Rightarrow> go_error option \<times> 'w" where
  "RunTeardown sys c = exec_all sys (map shell (ct_Setup c))"

section \<open>Executors\<close>

record bash_executor =
  ba_Ports :: "uint list"
  ba_Env :: "string list option"
  ba_Start :: string
  ba_Stop :: string
  ba_Artifact :: string
  ba_DownloadDir :: string

record docker_executor =
  do_Image :: string
  do_Cmd :: string
  do_Entry :: string
  do_Env :: "string list option"
  do_WorkDir :: string
  do_Net :: string
  do_NetAlias :: string
  do_Volumes :: "string list"
  do_VolumeDriver :: string
  do_Flags :: "string list"

datatype executor = Bash bash_executor | Docker docker_executor

section \<open>Decoding an executor\<close>

text \<open>
  \<open>json.Unmarshal\<close> into a struct: keys match field names up to (ASCII) case, unknown keys are skipped, a
  value of the wrong type is an error, null leaves a string as it is and makes a slice nil.
\<close>

definition lower :: "char \<Rightarrow> char" where
  "lower c = (if 65 \<le> (of_char c :: nat) \<and> (of_char c :: nat) \<le> 90 then char_of ((of_char c :: nat) + 32) else c)"

definition decode_string :: "json \<Rightarrow> string \<Rightarrow> string option" where
  "decode_string j old = (case j of JStr s \<Rightarrow> Some s | JNull \<Rightarrow> Some old | _ \<Rightarrow> None)"

definition decode_list :: "(json \<Rightarrow> 'a option) \<Rightarrow> json \<Rightarrow> 'a list option option" where
  "decode_list f j =
     (case j of JNull \<Rightarrow> Some None | JArr js \<Rightarrow> map_option Some (those (map f js)) | _ \<Rightarrow> None)"

definition decode_strings :: "json \<Rightarrow> string list option option" where
  "decode_strings = decode_list (\<lambda>j. decode_string j '''')"

definition decode_uint :: "json \<Rightarrow> uint option" where
  "decode_uint j = (case j of JNum n \<Rightarrow> if 0 \<le> n \<and> n < 2 ^ 64 then Some (nat n) else None | JNull \<Rightarrow> Some 0 | _ \<Rightarrow> None)"

definition plain :: "'a list option \<Rightarrow> 'a list" where
  "plain xs = (case xs of None \<Rightarrow> [] | Some ys \<Rightarrow> ys)"

definition bash_field :: "string \<Rightarrow> json \<Rightarrow> bash_executor \<Rightarrow> bash_executor option" where
  "bash_field k j b =
     (if k = ''ports'' then map_option (\<lambda>v. b\<lparr>ba_Ports := plain v\<rparr>) (decode_list decode_uint j)
      else if k = ''env'' then map_option (\<lambda>v. b\<lparr>ba_Env := v\<rparr>) (decode_strings j)
      else if k = ''start'' then map_option (\<lambda>v. b\<lparr>ba_Start := v\<rparr>) (decode_string j (ba_Start b))
      else if k = ''stop'' then map_option (\<lambda>v. b\<lparr>ba_Stop := v\<rparr>) (decode_string j (ba_Stop b))
      else if k = ''artifact'' then map_option (\<lambda>v. b\<lparr>ba_Artifact := v\<rparr>) (decode_string j (ba_Artifact b))
      else if k = ''download_dir'' then map_option (\<lambda>v. b\<lparr>ba_DownloadDir := v\<rparr>) (decode_string j (ba_DownloadDir b))
      else Some b)"

definition docker_field :: "string \<Rightarrow> json \<Rightarrow> docker_executor \<Rightarrow> docker_executor option" where
  "docker_field k j d =
     (if k = ''image'' then map_option (\<lambda>v. d\<lparr>do_Image := v\<rparr>) (decode_string j (do_Image d))
      else if k = ''cmd'' then map_option (\<lambda>v. d\<lparr>do_Cmd := v\<rparr>) (decode_string j (do_Cmd d))
      else if k = ''entry'' then map_option (\<lambda>v. d\<lparr>do_Entry := v\<rparr>) (decode_string j (do_Entry d))
      else if k = ''env'' then map_option (\<lambda>v. d\<lparr>do_Env := v\<rparr>) (decode_strings j)
      else if k = ''work_dir'' then map_option (\<lambda>v. d\<lparr>do_WorkDir := v\<rparr>) (decode_string j (do_WorkDir d))
      else if k = ''net'' then map_option (\<lambda>v. d\<lparr>do_Net := v\<rparr>) (decode_string j (do_Net d))
      else if k = ''net_alias'' then map_option (\<lambda>v. d\<lparr>do_NetAlias := v\<rparr>) (decode_string j (do_NetAlias d))
      else if k = ''volumes'' then map_option (\<lambda>v. d\<lparr>do_Volumes := plain v\<rparr>) (decode_strings j)
      else if k = ''volume_driver'' then map_option (\<lambda>v. d\<lparr>do_VolumeDriver := v\<rparr>) (decode_string j (do_VolumeDriver d))
      else if k = ''flags'' then map_option (\<lambda>v. d\<lparr>do_Flags := plain v\<rparr>) (decode_strings j)
      else Some d)"

fun decode_fields :: "(string \<Rightarrow> json \<Rightarrow> 'e \<Rightarrow> 'e option) \<Rightarrow> (string \<times> json) list \<Rightarrow> 'e \<Rightarrow> 'e option" where
  "decode_fields f [] e = Some e"
| "decode_fields f ((k, j) # kvs) e =
     (case f (map lower k) j e of None \<Rightarrow> None | Some e' \<Rightarrow> decode_fields f kvs e')"

definition decode_struct :: "(string \<Rightarrow> json \<Rightarrow> 'e \<Rightarrow> 'e option) \<Rightarrow> 'e \<Rightarrow> json option \<Rightarrow> 'e option" where
  "decode_struct f zero doc =
     (case doc of None \<Rightarrow> None
      | Some JNull \<Rightarrow> Some zero
      | Some (JObj kvs) \<Rightarrow> decode_fields f kvs zero
      | Some _ \<Rightarrow> None)"

definition zero_bash :: bash_executor where
  "zero_bash = \<lparr>ba_Ports = [], ba_Env = None, ba_Start = '''', ba_Stop = '''', ba_Artifact = '''', ba_DownloadDir = ''''\<rparr>"

definition zero_docker :: docker_executor where
  "zero_docker = \<lparr>do_Image = '''', do_Cmd = '''', do_Entry = '''', do_Env = None, do_WorkDir = '''', do_Net = '''',
     do_NetAlias = '''', do_Volumes = [], do_VolumeDriver = '''', do_Flags = []\<rparr>"

definition ExecutorBuilders :: "(string, container \<Rightarrow> executor option) gomap" where
  "ExecutorBuilders = [
     (''docker'', \<lambda>c. map_option Docker (decode_struct docker_field zero_docker (ct_Executor c))),
     (''bash'', \<lambda>c. map_option Bash (decode_struct bash_field zero_bash (ct_Executor c)))]"

definition GetExecutor :: "container \<Rightarrow> executor option" where
  "GetExecutor c = (case lookup ExecutorBuilders (ct_Type c) of Some builder \<Rightarrow> builder c | None \<Rightarrow> None)"

section \<open>The bash executor\<close>

definition executorDownloadTimeout :: duration where "executorDownloadTimeout = 30 * second"
definition executorStopTaskTimeout :: duration where "executorStopTaskTimeout = 20 * second"
definition executorDockerPullTimeout :: duration where "executorDockerPullTimeout = 900 * second"

definition bash_StartTask :: "'w system \<Rightarrow> bash_executor \<Rightarrow> task \<Rightarrow> 'w \<Rightarrow> go_error option \<times> 'w" where
  "bash_StartTask sys bash t w =
     (let run = Exec sys (ba_Env bash) (td_GracePeriod (tk_TaskDefinition t)) ''sh'' [''-c'', ba_Start bash] in
      if ba_Artifact bash \<noteq> '''' then
        (case Exec sys (ba_Env bash) executorDownloadTimeout ''curl'' [''-o'', ba_DownloadDir bash, ba_Artifact bash] w of
           (Some e, w') \<Rightarrow> (Some e, w')
         | (None, w') \<Rightarrow> run w')
      else run w)"

definition bash_StopTask :: "'w system \<Rightarrow> bash_executor \<Rightarrow> 'w \<Rightarrow> go_error option \<times> 'w" where
  "bash_StopTask sys bash = Exec sys (ba_Env bash) executorStopTaskTimeout ''sh'' [''-c'', ba_Stop bash]"

section \<open>The docker executor\<close>

definition docker_run_args :: "docker_executor \<Rightarrow> task \<Rightarrow> container \<Rightarrow> string list" where
  "docker_run_args docker t cont =
     [''run''] @ [''--name'', task_ID t] @
     (if do_Entry docker \<noteq> '''' then [''--entrypoint'', do_Entry docker] else []) @
     (if do_WorkDir docker \<noteq> '''' then [''-w'', do_WorkDir docker] else []) @
     (if do_VolumeDriver docker \<noteq> '''' then [''--volume-driver'', do_VolumeDriver docker] else []) @
     (if do_NetAlias docker \<noteq> '''' then [''--net-alias'', do_NetAlias docker] else []) @
     (if do_Net docker \<noteq> '''' then [''--net'', do_Net docker] else []) @
     do_Flags docker @
     concat (map (\<lambda>v. [''-v'', v]) (do_Volumes docker)) @
     concat (map (\<lambda>e. [''-e'', e]) (plain (do_Env docker))) @
     concat (map (\<lambda>p. [''-p'', dec_nat (pm_Host p) @ '':'' @ dec_nat (pm_Container p)]) (PortsForTask cont t)) @
     [''-d'', do_Image docker]"

definition docker_StartTask ::
  "'w system \<Rightarrow> docker_executor \<Rightarrow> task \<Rightarrow> container \<Rightarrow> 'w \<Rightarrow> go_error option \<times> 'w" where
  "docker_StartTask sys docker t cont w =
     (case Exec sys (do_Env docker) executorDockerPullTimeout ''docker'' [''pull'', do_Image docker] w of
        (Some e, w1) \<Rightarrow> (Some e, w1)
      | (None, w1) \<Rightarrow>
          (case Exec sys (do_Env docker) (5 * second) ''docker'' [''rm'', ''-f'', task_ID t] w1 of
             (_, w2) \<Rightarrow> Exec sys (do_Env docker) (td_GracePeriod (tk_TaskDefinition t)) ''docker'' (docker_run_args docker t cont) w2))"

definition docker_StopTask :: "'w system \<Rightarrow> docker_executor \<Rightarrow> task \<Rightarrow> 'w \<Rightarrow> go_error option \<times> 'w" where
  "docker_StopTask sys docker t = Exec sys (do_Env docker) executorStopTaskTimeout ''docker'' [''stop'', task_ID t]"

section \<open>The interface\<close>

definition StartTask :: "'w system \<Rightarrow> executor \<Rightarrow> task \<Rightarrow> container \<Rightarrow> 'w \<Rightarrow> go_error option \<times> 'w" where
  "StartTask sys ex t cont = (case ex of Bash b \<Rightarrow> bash_StartTask sys b t | Docker d \<Rightarrow> docker_StartTask sys d t cont)"

definition StopTask :: "'w system \<Rightarrow> executor \<Rightarrow> task \<Rightarrow> 'w \<Rightarrow> go_error option \<times> 'w" where
  "StopTask sys ex t = (case ex of Bash b \<Rightarrow> bash_StopTask sys b | Docker d \<Rightarrow> docker_StopTask sys d t)"

text \<open>
  The answer is a flag and an error: the bash executor cannot tell; the docker executor reports that the
  container runs if \<open>docker inspect\<close> succeeds, and never an error.
\<close>

definition bash_IsRunning :: "'w \<Rightarrow> (bool \<times> go_error option) \<times> 'w" where
  "bash_IsRunning w = ((False, Some (OtherError ''cannot determine state'')), w)"

definition docker_IsRunning :: "'w system \<Rightarrow> task \<Rightarrow> 'w \<Rightarrow> (bool \<times> go_error option) \<times> 'w" where
  "docker_IsRunning sys t w =
     (case Exec sys None executorStopTaskTimeout ''docker'' [''inspect'', ''-f'', ''{{.State.Running}}'', task_ID t] w of
        (err, w') \<Rightarrow> ((err = None, None), w'))"

definition IsRunning :: "'w system \<Rightarrow> executor \<Rightarrow> task \<Rightarrow> 'w \<Rightarrow> (bool \<times> go_error option) \<times> 'w" where
  "IsRunning sys ex t w = (case ex of Bash _ \<Rightarrow> bash_IsRunning w | Docker _ \<Rightarrow> docker_IsRunning sys t w)"

section \<open>Lemmas\<close>

lemma exec_all_append:
  "exec_all sys (cs @ ds) w = (case exec_all sys cs w of (Some e, w') \<Rightarrow> (Some e, w') | (None, w') \<Rightarrow> exec_all sys ds w')"
  by (induction cs arbitrary: w) (auto split: prod.splits option.splits)

text \<open>A machine that logs the commands it is given and never fails.\<close>

definition log_system :: "exec_command list system" where
  "log_system c w = (None, w @ [c])"

lemma exec_all_log [simp]: "exec_all log_system cs w = (None, w @ cs)"
  by (induction cs arbitrary: w) (simp_all add: log_system_def)

lemma GetExecutor_type: "GetExecutor c = Some ex \<Longrightarrow> ct_Type c = ''docker'' \<or> ct_Type c = ''bash''"
  by (auto simp: GetExecutor_def ExecutorBuilders_def split: option.splits if_splits)

end
