(* ===== verification/Agent.thy ===== *)
theory Agent
  imports Executors Mock_Api
begin

text \<open>
  The agent (src/agent/agent.go, src/agent/state.go, src/agent/helpers.go): it keeps what it knows of the
  tasks of its host, compares it with what is scheduled, and starts, stops or rejects tasks. Outside the
  program are the commands it runs (\<open>sys\<close>), the ports it can bind (\<open>bindable\<close>), the clock and the figures
  of the machine; they are arguments.
\<close>

section \<open>What the agent knows of a task (src/agent/state.go)\<close>

text \<open>
  A point in time counts nanoseconds from the zero value of \<open>time.Time\<close>. The entries of the map are
  pointers; an entry is changed through the map, under its key.
\<close>

type_synonym time = int

record task_entry =
  te_StartedAt :: time
  te_Attempts :: int
  te_Failure :: "go_error option"
  te_State :: task_state
  te_Task :: "task option"

type_synonym agent_state = "(string, task_entry) gomap"

definition new_entry :: task_entry where
  "new_entry = \<lparr>te_StartedAt = 0, te_Attempts = 0, te_Failure = None, te_State = PENDING, te_Task = None\<rparr>"

definition state_get :: "string \<Rightarrow> task \<Rightarrow> agent_state \<Rightarrow> task_entry \<times> agent_state" where
  "state_get key t st =
     (let e = (case lookup st key of Some e \<Rightarrow> e | None \<Rightarrow> new_entry);
          e' = (if te_Task e = None then e\<lparr>te_Task := Some t\<rparr> else e)
      in (e', insert_key key e' st))"

definition state_del :: "string \<Rightarrow> agent_state \<Rightarrow> agent_state" where
  "state_del key st = (case lookup st key of Some _ \<Rightarrow> delete_key key st | None \<Rightarrow> st)"

definition state_has :: "string \<Rightarrow> agent_state \<Rightarrow> bool" where
  "state_has key st \<longleftrightarrow> lookup st key \<noteq> None"

text \<open>
  \<open>load\<close> reads the file the last session saved: \<open>None\<close> when it cannot be read, otherwise what it decodes
  to over the map. The states are not trusted.
\<close>

definition state_load :: "agent_state option \<Rightarrow> agent_state \<Rightarrow> agent_state" where
  "state_load file st =
     (case file of None \<Rightarrow> st | Some decoded \<Rightarrow> map (\<lambda>(k, e). (k, e\<lparr>te_State := PENDING\<rparr>)) decoded)"

section \<open>State\<close>

record agent_config =
  ac_Runners :: int
  ac_SyncInterval :: duration
  ac_Resources :: "resources option"
  ac_Cluster :: string
  ac_Address :: string
  ac_Advertise :: string

datatype action = Start task | Stop task

record agent =
  ag_Host :: string
  ag_LastState :: "host option"
  ag_TaskState :: agent_state
  ag_Config :: agent_config
  ag_queue :: "action list"

text \<open>The agent with its backend and its machine.\<close>

record ('b, 'w) node =
  nd_agent :: agent
  nd_backend :: 'b
  nd_machine :: 'w

definition megabyte :: int where "megabyte = 1048576"

text \<open>Division of Go truncates; the figures are not negative.\<close>

definition ToMb :: "int64 \<Rightarrow> int64" where
  "ToMb v = (if v = 0 then v else if v < 0 then - (- v div megabyte) else v div megabyte)"

record figures =
  fg_memory :: int64
  fg_disk :: int64
  fg_cpus :: int

definition default_figure :: "int64 \<Rightarrow> int64 \<Rightarrow> int64" where
  "default_figure x d = (if x = 0 then d else x)"

definition config_defaults :: "figures \<Rightarrow> agent_config \<Rightarrow> agent_config" where
  "config_defaults f c =
     (let r = (case ac_Resources c of Some r \<Rightarrow> r
               | None \<Rightarrow> \<lparr>rs_Memory = 0, rs_CpuUnits = 0, rs_DiskSpace = 0, rs_MemUsePercent = 0\<rparr>)
      in c\<lparr>
        ac_Runners := (if ac_Runners c = 0 then 3 else ac_Runners c),
        ac_SyncInterval := (if IsNone (ac_SyncInterval c) then 30 * second else ac_SyncInterval c),
        ac_Resources := Some (r\<lparr>
          rs_Memory := default_figure (rs_Memory r) (ToMb (fg_memory f)),
          rs_DiskSpace := default_figure (rs_DiskSpace r) (ToMb (fg_disk f)),
          rs_CpuUnits := default_figure (rs_CpuUnits r) (w64 (fg_cpus f * 1024))\<rparr>)\<rparr>)"

definition NewAgent :: "figures \<Rightarrow> agent_config \<Rightarrow> agent" where
  "NewAgent f conf = \<lparr>ag_Host = '''', ag_LastState = None, ag_TaskState = [], ag_Config = config_defaults f conf, ag_queue = []\<rparr>"

section \<open>Starting and stopping a task\<close>

definition set_entry :: "string \<Rightarrow> (task_entry \<Rightarrow> task_entry) \<Rightarrow> ('b, 'w) node \<Rightarrow> ('b, 'w) node" where
  "set_entry key f n = n\<lparr>nd_agent := (nd_agent n)\<lparr>ag_TaskState :=
     (case lookup (ag_TaskState (nd_agent n)) key of
        Some e \<Rightarrow> insert_key key (f e) (ag_TaskState (nd_agent n))
      | None \<Rightarrow> ag_TaskState (nd_agent n))\<rparr>\<rparr>"

definition touch_entry :: "task \<Rightarrow> ('b, 'w) node \<Rightarrow> ('b, 'w) node" where
  "touch_entry t n = n\<lparr>nd_agent := (nd_agent n)\<lparr>ag_TaskState := snd (state_get (task_ID t) t (ag_TaskState (nd_agent n)))\<rparr>\<rparr>"

text \<open>Calls of the backend and of the machine from a node.\<close>

definition on_backend :: "('b \<Rightarrow> 'b \<times> go_error option) \<Rightarrow> ('b, 'w) node \<Rightarrow> ('b, 'w) node \<times> go_error option" where
  "on_backend cmd n = (case cmd (nd_backend n) of (b, err) \<Rightarrow> (n\<lparr>nd_backend := b\<rparr>, err))"

definition on_machine :: "('w \<Rightarrow> go_error option \<times> 'w) \<Rightarrow> ('b, 'w) node \<Rightarrow> ('b, 'w) node \<times> go_error option" where
  "on_machine run n = (case run (nd_machine n) of (err, w) \<Rightarrow> (n\<lparr>nd_machine := w\<rparr>, err))"

text \<open>The loop over the containers: set-up (its error is dropped), start, and the first error ends it.\<close>

fun start_containers ::
  "'w system \<Rightarrow> task \<Rightarrow> container list \<Rightarrow> ('b, 'w) node \<Rightarrow> ('b, 'w) node \<times> go_error option" where
  "start_containers sys t [] n = (n, None)"
| "start_containers sys t (cont # conts) n =
     (case GetExecutor cont of
        None \<Rightarrow> (set_entry (task_ID t) (\<lambda>e. e\<lparr>te_Failure := Some NoExecutorErr\<rparr>) n, Some NoExecutorErr)
      | Some ex \<Rightarrow>
          (case on_machine (StartTask sys ex t cont) (fst (on_machine (RunSetup sys cont) n)) of
             (n', Some err) \<Rightarrow> (set_entry (task_ID t) (\<lambda>e. e\<lparr>te_Failure := Some err\<rparr>) n', Some err)
           | (n', None) \<Rightarrow> start_containers sys t conts n'))"

definition agent_start ::
  "'b scheduler_api \<Rightarrow> 'w system \<Rightarrow> time \<Rightarrow> task \<Rightarrow> ('b, 'w) node \<Rightarrow> ('b, 'w) node \<times> go_error option" where
  "agent_start api sys now t n =
     (case on_backend (PutTaskState api (task_ID t) STARTING) n of
        (n1, Some err) \<Rightarrow> (n1, Some err)
      | (n1, None) \<Rightarrow>
          (let n2 = set_entry (task_ID t)
                 (\<lambda>e. e\<lparr>te_State := STARTING, te_StartedAt := now, te_Attempts := w64 (te_Attempts e + 1)\<rparr>)
                 (touch_entry t n1) in
           case start_containers sys t (td_Containers (tk_TaskDefinition t)) n2 of
             (n3, Some err) \<Rightarrow> (n3, Some err)
           | (n3, None) \<Rightarrow> on_backend (PutTaskState api (task_ID t) STARTED) n3))"

fun stop_containers ::
  "'w system \<Rightarrow> task \<Rightarrow> container list \<Rightarrow> ('b, 'w) node \<Rightarrow> ('b, 'w) node \<times> go_error option" where
  "stop_containers sys t [] n = (n, None)"
| "stop_containers sys t (cont # conts) n =
     (case GetExecutor cont of
        None \<Rightarrow> stop_containers sys t conts n
      | Some ex \<Rightarrow>
          (case on_machine (StopTask sys ex t) n of
             (n', Some err) \<Rightarrow> (n', Some err)
           | (n', None) \<Rightarrow> stop_containers sys t conts (fst (on_machine (RunTeardown sys cont) n'))))"

definition del_entry :: "string \<Rightarrow> ('b, 'w) node \<Rightarrow> ('b, 'w) node" where
  "del_entry key n = n\<lparr>nd_agent := (nd_agent n)\<lparr>ag_TaskState := state_del key (ag_TaskState (nd_agent n))\<rparr>\<rparr>"

definition agent_stop ::
  "'b scheduler_api \<Rightarrow> 'w system \<Rightarrow> task \<Rightarrow> ('b, 'w) node \<Rightarrow> ('b, 'w) node \<times> go_error option" where
  "agent_stop api sys t n =
     (case on_backend (PutTaskState api (task_ID t) STOPPING) n of
        (n1, Some err) \<Rightarrow> (n1, Some err)
      | (n1, None) \<Rightarrow>
          (case stop_containers sys t (td_Containers (tk_TaskDefinition t)) n1 of
             (n2, Some err) \<Rightarrow> (n2, Some err)
           | (n2, None) \<Rightarrow>
               on_backend (PutTaskState api (task_ID t) STOPPED)
                 (del_entry (task_ID t) (fst (on_backend (DelTask api t) n2)))))"

definition run_action ::
  "'b scheduler_api \<Rightarrow> 'w system \<Rightarrow> time \<Rightarrow> action \<Rightarrow> ('b, 'w) node \<Rightarrow> ('b, 'w) node \<times> go_error option" where
  "run_action api sys now act n = (case act of Start t \<Rightarrow> agent_start api sys now t n | Stop t \<Rightarrow> agent_stop api sys t n)"

text \<open>A runner takes the first action of the queue; its error is logged.\<close>

definition runner_step :: "'b scheduler_api \<Rightarrow> 'w system \<Rightarrow> time \<Rightarrow> ('b, 'w) node \<Rightarrow> ('b, 'w) node" where
  "runner_step api sys now n =
     (case ag_queue (nd_agent n) of
        [] \<Rightarrow> n
      | act # rest \<Rightarrow> fst (run_action api sys now act (n\<lparr>nd_agent := (nd_agent n)\<lparr>ag_queue := rest\<rparr>\<rparr>)))"

section \<open>Publishing the state of the host\<close>

record usage =
  us_reserved :: "uint list"
  us_memory :: int64
  us_disk :: int64
  us_cpu :: int64

text \<open>The body of the loop over the entries; an entry without a task would be a nil dereference.\<close>

definition add_usage :: "task \<Rightarrow> usage \<Rightarrow> usage" where
  "add_usage t u =
     (let cn = Counts (tk_TaskDefinition t) in
      u\<lparr>us_reserved := us_reserved u @ filter (\<lambda>p. p \<noteq> 0) (AllPorts (tk_TaskDefinition t)),
        us_memory := w64 (us_memory u + cn_Memory cn),
        us_disk := w64 (us_disk u + cn_DiskUse cn),
        us_cpu := w64 (us_cpu u + cn_CpuUnits cn)\<rparr>)"

fun sum_usage :: "task_entry list \<Rightarrow> usage \<Rightarrow> usage outcome" where
  "sum_usage [] u = Returns u"
| "sum_usage (e # es) u = (case te_Task e of None \<Rightarrow> Panics | Some t \<Rightarrow> sum_usage es (add_usage t u))"

definition no_resources :: resources where
  "no_resources = \<lparr>rs_Memory = 0, rs_CpuUnits = 0, rs_DiskSpace = 0, rs_MemUsePercent = 0\<rparr>"

definition base_resources :: "agent \<Rightarrow> resources" where
  "base_resources ag = (case ac_Resources (ag_Config ag) of Some r \<Rightarrow> r | None \<Rightarrow> no_resources)"

definition last_state :: "agent \<Rightarrow> host" where
  "last_state ag = (case ag_LastState ag of Some h \<Rightarrow> h
     | None \<Rightarrow> \<lparr>ho_Name = ag_Host ag, ho_Address = '''', ho_Draining = False, ho_ReservedPorts = [],
          ho_HealthCheck = ''http://'' @ ac_Advertise (ag_Config ag) @ ''/agent/health'',
          ho_ObservedResources = no_resources, ho_CalculatedResources = no_resources,
          ho_BaseResources = base_resources ag, ho_Cluster = ac_Cluster (ag_Config ag), ho_Tags = []\<rparr>)"

definition published :: "figures \<Rightarrow> usage \<Rightarrow> agent \<Rightarrow> host" where
  "published f u ag =
     (let h = last_state ag; base = base_resources ag in
      h\<lparr>ho_CalculatedResources := (ho_CalculatedResources h)\<lparr>
          rs_Memory := w64 (rs_Memory base - us_memory u),
          rs_DiskSpace := w64 (rs_DiskSpace base - us_disk u),
          rs_CpuUnits := w64 (rs_CpuUnits base - us_cpu u)\<rparr>,
        ho_ReservedPorts := us_reserved u,
        ho_ObservedResources := (ho_ObservedResources h)\<lparr>
          rs_Memory := ToMb (fg_memory f), rs_DiskSpace := ToMb (fg_disk f),
          rs_CpuUnits := w64 (fg_cpus f * 1024)\<rparr>\<rparr>)"

definition PublishState ::
  "'b scheduler_api \<Rightarrow> map_order \<Rightarrow> figures \<Rightarrow> ('b, 'w) node \<Rightarrow> ('b, 'w) node outcome" where
  "PublishState api ord f n =
     bind_outcome (sum_usage (range_values ord (ag_TaskState (nd_agent n)))
         \<lparr>us_reserved = [], us_memory = 0, us_disk = 0, us_cpu = 0\<rparr>) (\<lambda>u.
       let h = published f u (nd_agent n) in
       Returns (n\<lparr>nd_agent := (nd_agent n)\<lparr>ag_LastState := Some h\<rparr>,
                  nd_backend := fst (PutHost api h (nd_backend n))\<rparr>))"

section \<open>Deciding on one task\<close>

definition IsTCPPortAvailable :: "(uint \<Rightarrow> 'w \<Rightarrow> bool) \<Rightarrow> uint \<Rightarrow> 'w \<Rightarrow> bool" where
  "IsTCPPortAvailable bindable port w = (if port > 65535 then False else bindable port w)"

text \<open>
  The loop over the essential containers: one that is not running makes the task \<open>EXITED\<close>, in the
  backend and in the local variable the decision looks at.
\<close>

fun check_running ::
  "'b scheduler_api \<Rightarrow> 'w system \<Rightarrow> task \<Rightarrow> container list \<Rightarrow> task_state \<Rightarrow> ('b, 'w) node \<Rightarrow> task_state \<times> ('b, 'w) node" where
  "check_running api sys t [] st n = (st, n)"
| "check_running api sys t (cont # conts) st n =
     (case (if ct_Essential cont then GetExecutor cont else None) of
        None \<Rightarrow> check_running api sys t conts st n
      | Some ex \<Rightarrow>
          (case IsRunning sys ex t (nd_machine n) of
             ((ok, err), w) \<Rightarrow>
               (let n' = n\<lparr>nd_machine := w\<rparr> in
                if err \<noteq> None \<or> ok then check_running api sys t conts st n'
                else check_running api sys t conts EXITED (fst (on_backend (PutTaskState api (task_ID t) EXITED) n')))))"

definition reject ::
  "'b scheduler_api \<Rightarrow> string \<Rightarrow> task \<Rightarrow> ('b, 'w) node \<Rightarrow> ('b, 'w) node" where
  "reject api reason t n =
     fst (on_backend (PutTask api (t\<lparr>tk_RejectReason := reason, tk_Rejected := True\<rparr>))
       (set_entry (task_ID t) (\<lambda>e. e\<lparr>te_Failure := Some (OtherError reason)\<rparr>) n))"

definition sync_entry :: "task_state \<Rightarrow> task_entry \<Rightarrow> task_entry" where
  "sync_entry st e = (let e' = e\<lparr>te_State := st\<rparr> in
     if Healthy st then e'\<lparr>te_Failure := None, te_Attempts := 0\<rparr> else e')"

text \<open>The condition under which a task is started, on the entry and the state from the checks.\<close>

definition wants_start :: "task \<Rightarrow> task_entry \<Rightarrow> task_state \<Rightarrow> bool" where
  "wants_start t e st \<longleftrightarrow>
     tk_Scheduled t \<and> \<not> tk_Rejected t \<and> te_State e \<noteq> STARTING \<and>
     ((\<not> Healthy st \<and> HasChecks t) \<or> (\<not> HasChecks t \<and> te_Attempts e = 0))"

definition decide_start ::
  "'b scheduler_api \<Rightarrow> (uint \<Rightarrow> 'w \<Rightarrow> bool) \<Rightarrow> time \<Rightarrow> deployment \<Rightarrow> task \<Rightarrow> task_entry \<Rightarrow> ('b, 'w) node \<Rightarrow>
   ('b, 'w) node \<times> action option" where
  "decide_start api bindable now d t e n =
     (if te_StartedAt e + td_GracePeriod (tk_TaskDefinition t) > now then (n, None)
      else if te_Attempts e > dp_MaxAttempts d then (reject api ''too many attempts'' t n, None)
      else (case find (\<lambda>p. \<not> IsTCPPortAvailable bindable p (nd_machine n)) (AllPorts (tk_TaskDefinition t)) of
              Some p \<Rightarrow> (reject api (''port not available: '' @ dec_nat p) t n, None)
            | None \<Rightarrow>
                (set_entry (task_ID t) (\<lambda>e. e\<lparr>te_StartedAt := now, te_State := STARTING\<rparr>) n, Some (Start t))))"

definition syncTask ::
  "'b scheduler_api \<Rightarrow> 'w system \<Rightarrow> (uint \<Rightarrow> 'w \<Rightarrow> bool) \<Rightarrow> time \<Rightarrow> task \<Rightarrow> ('b, 'w) node \<Rightarrow>
   (('b, 'w) node \<times> action option) outcome" where
  "syncTask api sys bindable now t n =
     (case GetTaskState api t (nd_backend n) of
        Stops how \<Rightarrow> stopped how
      | Fail _ _ \<Rightarrow> Returns (n, None)
      | Ok st0 \<Rightarrow>
         (let n1 = set_entry (task_ID t) (sync_entry st0) (touch_entry t n) in
          case check_running api sys t (td_Containers (tk_TaskDefinition t)) st0 n1 of
            (st, n2) \<Rightarrow>
             (case GetDeployment api (tk_Deployment t) (nd_backend n2) of
                Stops how \<Rightarrow> stopped how
              | Fail err _ \<Rightarrow> Returns (if err = ErrNotFound then reject api ''no deployment found'' t n2 else n2, None)
              | Ok d \<Rightarrow>
                  (case lookup (ag_TaskState (nd_agent n2)) (task_ID t) of
                     None \<Rightarrow> Panics
                   | Some e \<Rightarrow>
                       if wants_start t e st then Returns (decide_start api bindable now d t e n2)
                       else if \<not> tk_Scheduled t then Returns (n2, Some (Stop t))
                       else Returns (n2, None)))))"

section \<open>Deciding on all tasks of the host\<close>

text \<open>The queue holds 500 actions; an offer that finds it full for 15 seconds is dropped.\<close>

definition offer_action :: "action option \<Rightarrow> ('b, 'w) node \<Rightarrow> ('b, 'w) node" where
  "offer_action act n =
     (case act of None \<Rightarrow> n
      | Some a \<Rightarrow>
          if length (ag_queue (nd_agent n)) < 500
          then n\<lparr>nd_agent := (nd_agent n)\<lparr>ag_queue := ag_queue (nd_agent n) @ [a]\<rparr>\<rparr> else n)"

fun sync_tasks ::
  "'b scheduler_api \<Rightarrow> 'w system \<Rightarrow> (uint \<Rightarrow> 'w \<Rightarrow> bool) \<Rightarrow> time \<Rightarrow> task list \<Rightarrow> ('b, 'w) node \<Rightarrow> ('b, 'w) node outcome" where
  "sync_tasks api sys bindable now [] n = Returns n"
| "sync_tasks api sys bindable now (t # ts) n =
     bind_outcome (syncTask api sys bindable now t n) (\<lambda>(n', act).
       sync_tasks api sys bindable now ts (offer_action act n'))"

definition agent_query :: "agent \<Rightarrow> task_query" where
  "agent_query ag = any_task\<lparr>tq_ByHost := ag_Host ag, tq_ByCluster := ac_Cluster (ag_Config ag)\<rparr>"

definition agent_sync ::
  "'b scheduler_api \<Rightarrow> 'w system \<Rightarrow> (uint \<Rightarrow> 'w \<Rightarrow> bool) \<Rightarrow> time \<Rightarrow> ('b, 'w) node \<Rightarrow> ('b, 'w) node outcome" where
  "agent_sync api sys bindable now n =
     (case ListTasks api (agent_query (nd_agent n)) (nd_backend n) of
        Stops how \<Rightarrow> stopped how
      | Fail _ _ \<Rightarrow> Returns n
      | Ok ts \<Rightarrow> sync_tasks api sys bindable now ts n)"

section \<open>The main loop\<close>

datatype agent_event = StateEvent | HealthEvent | Timeout

text \<open>Every event syncs and publishes.\<close>

definition agent_step ::
  "'b scheduler_api \<Rightarrow> 'w system \<Rightarrow> (uint \<Rightarrow> 'w \<Rightarrow> bool) \<Rightarrow> map_order \<Rightarrow> figures \<Rightarrow> time \<Rightarrow> agent_event \<Rightarrow>
   ('b, 'w) node \<Rightarrow> ('b, 'w) node outcome" where
  "agent_step api sys bindable ord f now ev n =
     bind_outcome (agent_sync api sys bindable now n) (PublishState api ord f)"

definition agent_subscriptions :: "agent \<Rightarrow> (string \<times> string) list" where
  "agent_subscriptions ag = [
     (''agent-state'', ''state::state/hosts/'' @ ag_Host ag),
     (''agent-health'', ''health::task:'' @ ag_Host ag @ '':failing:*'')]"

text \<open>
  \<open>GetHostName\<close> asks until the backend knows the name or the agent is told to stop: the rounds of its
  loop, each with whether \<open>stopCh\<close> was closed and what \<open>HostName\<close> answered. \<open>None\<close> while it still waits.
\<close>

fun agent_GetHostName :: "string \<Rightarrow> (bool \<times> string reply) list \<Rightarrow> string option" where
  "agent_GetHostName old [] = None"
| "agent_GetHostName old ((told, answer) # rounds) =
     (if told then Some old
      else (case answer of Ok name \<Rightarrow> Some name | Fail _ _ \<Rightarrow> agent_GetHostName old rounds | Stops _ \<Rightarrow> None))"

text \<open>The part of \<open>Run\<close> before its loop, with the name \<open>GetHostName\<close> came back with.\<close>

definition agent_begin ::
  "'b scheduler_api \<Rightarrow> map_order \<Rightarrow> figures \<Rightarrow> agent_state option \<Rightarrow> string \<Rightarrow> ('b, 'w) node \<Rightarrow> ('b, 'w) node outcome" where
  "agent_begin api ord f file name n =
     (let ag = nd_agent n;
          ag' = ag\<lparr>ag_Config := (ag_Config ag)\<lparr>ac_Cluster :=
                     (if ac_Cluster (ag_Config ag) = '''' then ''default'' else ac_Cluster (ag_Config ag))\<rparr>,
                   ag_TaskState := state_load file (ag_TaskState ag), ag_Host := name\<rparr>
      in PublishState api ord f (n\<lparr>nd_agent := ag'\<rparr>))"

text \<open>
  The deferred calls on the way out. The arguments of a deferred call are evaluated where it is deferred,
  which is before \<open>GetHostName\<close>: \<open>host\<close> is the name the agent had when \<open>Run\<close> was called.
\<close>

definition agent_end :: "'b scheduler_api \<Rightarrow> string \<Rightarrow> ('b, 'w) node \<Rightarrow> ('b, 'w) node" where
  "agent_end api host n = fst (on_backend (DelHost api (ac_Cluster (ag_Config (nd_agent n))) host) n)"

end
