(* ===== verification/Agent_Laws.thy ===== *)
theory Agent_Laws
  imports Agent
begin

text \<open>
  What the parts of the agent change: the entries of its table, the state of a task in the backend, and
  the conditions under which a task is started, stopped or rejected.
\<close>

section \<open>Entries\<close>

lemma lookup_set_entry [simp]:
  "lookup (ag_TaskState (nd_agent (set_entry k f n))) j =
    (if j = k then map_option f (lookup (ag_TaskState (nd_agent n)) k) else lookup (ag_TaskState (nd_agent n)) j)"
  by (auto simp: set_entry_def split: option.split)

lemma set_entry_frame [frame_simps, simp]:
  "nd_backend (set_entry k f n) = nd_backend n" "nd_machine (set_entry k f n) = nd_machine n"
  "ag_queue (nd_agent (set_entry k f n)) = ag_queue (nd_agent n)"
  "ag_Config (nd_agent (set_entry k f n)) = ag_Config (nd_agent n)"
  "ag_Host (nd_agent (set_entry k f n)) = ag_Host (nd_agent n)"
  by (simp_all add: set_entry_def)

definition entry_of :: "task \<Rightarrow> ('b, 'w) node \<Rightarrow> task_entry" where
  "entry_of t n = fst (state_get (task_ID t) t (ag_TaskState (nd_agent n)))"

lemma lookup_touch_entry [simp]:
  "lookup (ag_TaskState (nd_agent (touch_entry t n))) j =
    (if j = task_ID t then Some (entry_of t n) else lookup (ag_TaskState (nd_agent n)) j)"
  by (simp add: touch_entry_def state_get_def entry_of_def Let_def)

lemma touch_entry_frame [frame_simps, simp]:
  "nd_backend (touch_entry t n) = nd_backend n" "nd_machine (touch_entry t n) = nd_machine n"
  "ag_queue (nd_agent (touch_entry t n)) = ag_queue (nd_agent n)"
  "ag_Config (nd_agent (touch_entry t n)) = ag_Config (nd_agent n)"
  "ag_Host (nd_agent (touch_entry t n)) = ag_Host (nd_agent n)"
  by (simp_all add: touch_entry_def)

lemma entry_of_new: "lookup (ag_TaskState (nd_agent n)) (task_ID t) = None \<Longrightarrow> entry_of t n = new_entry\<lparr>te_Task := Some t\<rparr>"
  by (simp add: entry_of_def state_get_def Let_def new_entry_def)

lemma entry_of_entry:
  "lookup (ag_TaskState (nd_agent n)) (task_ID t) = Some e \<Longrightarrow> te_Task e \<noteq> None \<Longrightarrow> entry_of t n = e"
  by (simp add: entry_of_def state_get_def Let_def)

text \<open>The table never holds an entry without a task.\<close>

definition entries_known :: "('b, 'w) node \<Rightarrow> bool" where
  "entries_known n \<longleftrightarrow> (\<forall>k e. lookup (ag_TaskState (nd_agent n)) k = Some e \<longrightarrow> te_Task e \<noteq> None)"

lemma entry_of_known: "te_Task (entry_of t n) \<noteq> None"
  by (auto simp: entry_of_def state_get_def Let_def split: option.split)

lemma entries_known_touch: "entries_known n \<Longrightarrow> entries_known (touch_entry t n)"
  using entry_of_known [of t n] by (simp add: entries_known_def)

lemma entries_known_set:
  "entries_known n \<Longrightarrow> (\<And>e. te_Task (f e) = te_Task e) \<Longrightarrow> entries_known (set_entry k f n)"
  by (auto simp: entries_known_def)

section \<open>Calls\<close>

lemma on_backend_frame [frame_simps, simp]:
  "nd_agent (fst (on_backend c n)) = nd_agent n" "nd_machine (fst (on_backend c n)) = nd_machine n"
  "nd_backend (fst (on_backend c n)) = fst (c (nd_backend n))" "snd (on_backend c n) = snd (c (nd_backend n))"
  by (simp_all add: on_backend_def split: prod.split)

lemma on_machine_frame [frame_simps, simp]:
  "nd_agent (fst (on_machine r n)) = nd_agent n" "nd_backend (fst (on_machine r n)) = nd_backend n"
  "nd_machine (fst (on_machine r n)) = snd (r (nd_machine n))" "snd (on_machine r n) = fst (r (nd_machine n))"
  by (simp_all add: on_machine_def split: prod.split)

lemma on_machine_Pair: "on_machine r n = (n', err) \<Longrightarrow> nd_agent n' = nd_agent n \<and> nd_backend n' = nd_backend n"
  using on_machine_frame [of r n] by simp

lemma on_backend_Pair: "on_backend c n = (n', err) \<Longrightarrow> nd_agent n' = nd_agent n \<and> nd_backend n' = fst (c (nd_backend n))"
  using on_backend_frame [of c n] by simp

text \<open>The loop that starts the containers leaves the backend alone; an error is remembered in the entry.\<close>

lemma start_containers_frame:
  "start_containers sys t cs n = (n', err) \<Longrightarrow>
   nd_backend n' = nd_backend n \<and>
   (\<forall>k. k \<noteq> task_ID t \<longrightarrow> lookup (ag_TaskState (nd_agent n')) k = lookup (ag_TaskState (nd_agent n)) k) \<and>
   lookup (ag_TaskState (nd_agent n')) (task_ID t) =
     map_option (\<lambda>e. case err of None \<Rightarrow> e | Some x \<Rightarrow> e\<lparr>te_Failure := Some x\<rparr>) (lookup (ag_TaskState (nd_agent n)) (task_ID t))"
proof (induction sys t cs n rule: start_containers.induct)
  case (1 sys t n)
  then show ?case by (cases "lookup (ag_TaskState (nd_agent n)) (task_ID t)") auto
next
  case (2 sys t cont conts n)
  show ?case
  proof (cases "GetExecutor cont")
    case None
    with "2.prems" show ?thesis by auto
  next
    case (Some ex)
    let ?n = "fst (on_machine (RunSetup sys cont) n)"
    obtain n1 e1 where r: "on_machine (StartTask sys ex t cont) ?n = (n1, e1)" by (metis surj_pair)
    have f: "nd_agent n1 = nd_agent n \<and> nd_backend n1 = nd_backend n" using on_machine_Pair [OF r] by simp
    show ?thesis
    proof (cases e1)
      case None
      then show ?thesis using "2.prems" "2.IH" [OF Some r [symmetric] None] Some r f by simp
    next
      case (Some x)
      then show ?thesis using "2.prems" \<open>GetExecutor cont = Some ex\<close> r f by auto
    qed
  qed
qed

lemma stop_containers_frame:
  "stop_containers sys t cs n = (n', err) \<Longrightarrow> nd_backend n' = nd_backend n \<and> nd_agent n' = nd_agent n"
proof (induction sys t cs n rule: stop_containers.induct)
  case (2 sys t cont conts n)
  show ?case
  proof (cases "GetExecutor cont")
    case None
    with 2 show ?thesis by simp
  next
    case (Some ex)
    obtain n1 e1 where r: "on_machine (StopTask sys ex t) n = (n1, e1)" by (metis surj_pair)
    show ?thesis
      using "2.prems" "2.IH"(2) [OF Some r [symmetric]] Some r on_machine_Pair [OF r] by (cases e1) auto
  qed
qed simp

lemma check_running_frame:
  "check_running api sys t cs st n = (st', n') \<Longrightarrow>
   nd_agent n' = nd_agent n \<and> (st' = st \<or> st' = EXITED) \<and> (st' = st \<longrightarrow> st \<noteq> EXITED \<longrightarrow> nd_backend n' = nd_backend n)"
proof (induction cs arbitrary: st n)
  case (Cons cont conts)
  show ?case
  proof (cases "if ct_Essential cont then GetExecutor cont else None")
    case None
    then have "check_running api sys t conts st n = (st', n')" using Cons.prems by simp
    then show ?thesis by (rule Cons.IH)
  next
    case (Some ex)
    obtain ok err w where r: "IsRunning sys ex t (nd_machine n) = ((ok, err), w)" by (metis surj_pair)
    show ?thesis
    proof (cases "err \<noteq> None \<or> ok")
      case True
      with Cons.prems Some r have "check_running api sys t conts st (n\<lparr>nd_machine := w\<rparr>) = (st', n')" by simp
      from Cons.IH [OF this] show ?thesis by simp
    next
      case False
      with Cons.prems Some r
      have "check_running api sys t conts EXITED (fst (on_backend (PutTaskState api (task_ID t) EXITED) (n\<lparr>nd_machine := w\<rparr>))) = (st', n')"
        by simp
      from Cons.IH [OF this] show ?thesis by auto
    qed
  qed
qed simp

lemma reject_frame [simp]:
  "nd_backend (reject api reason t n) = fst (PutTask api (t\<lparr>tk_RejectReason := reason, tk_Rejected := True\<rparr>) (nd_backend n))"
  "nd_machine (reject api reason t n) = nd_machine n"
  by (simp_all add: reject_def)

section \<open>The backend of an agent\<close>

text \<open>
  What the agent relies on beside the laws of the tasks: each task has a state that was last written for
  it (\<open>states\<close>) and one the backend answers with (\<open>reports\<close>), which may say more, but not while a task is
  starting, stopping or has exited; a write for one task leaves the others alone, writing states and hosts
  leaves tasks and configuration alone, and a deleted task is gone.
\<close>

locale agent_backend = task_backend good api tasks fine sane
  for good :: "'b \<Rightarrow> bool" and api :: "'b scheduler_api" and tasks :: "'b \<Rightarrow> string \<Rightarrow> task option"
    and fine :: "task \<Rightarrow> bool" and sane :: "deployment \<Rightarrow> bool" +
  fixes states :: "'b \<Rightarrow> string \<Rightarrow> task_state" and reports :: "'b \<Rightarrow> task \<Rightarrow> task_state"
  assumes GetTaskState_reports: "good b \<Longrightarrow> GetTaskState api t b = Ok (reports b t)"
    and reports_written: "good b \<Longrightarrow> states b (task_ID t) \<in> {STARTING, STOPPING, EXITED} \<Longrightarrow> reports b t = states b (task_ID t)"
    and fine_rejected: "fine t \<Longrightarrow> fine (t\<lparr>tk_RejectReason := reason, tk_Rejected := True\<rparr>)"
    and PutTaskState_ok: "good b \<Longrightarrow> snd (PutTaskState api k s b) = None"
    and PutTaskState_good: "good b \<Longrightarrow> good (fst (PutTaskState api k s b))"
    and PutTaskState_states: "good b \<Longrightarrow> states (fst (PutTaskState api k s b)) = (states b)(k := s)"
    and PutTaskState_reports: "good b \<Longrightarrow> task_ID u \<noteq> k \<Longrightarrow> reports (fst (PutTaskState api k s b)) u = reports b u"
    and PutTaskState_tasks: "good b \<Longrightarrow> tasks (fst (PutTaskState api k s b)) = tasks b"
    and PutTaskState_config: "good b \<Longrightarrow> GetDeployment api m (fst (PutTaskState api k s b)) = GetDeployment api m b"
    and PutTask_states: "good b \<Longrightarrow> fine t \<Longrightarrow> states (fst (PutTask api t b)) = states b"
    and PutTask_reports: "good b \<Longrightarrow> fine t \<Longrightarrow> task_ID u \<noteq> task_ID t \<Longrightarrow> reports (fst (PutTask api t b)) u = reports b u"
    and DelTask_ok: "good b \<Longrightarrow> snd (DelTask api t b) = None"
    and DelTask_good: "good b \<Longrightarrow> good (fst (DelTask api t b))"
    and DelTask_tasks: "good b \<Longrightarrow> tasks (fst (DelTask api t b)) = (tasks b)(task_ID t := None)"
    and DelTask_states: "good b \<Longrightarrow> states (fst (DelTask api t b)) = states b"
    and DelTask_reports: "good b \<Longrightarrow> task_ID u \<noteq> task_ID t \<Longrightarrow> reports (fst (DelTask api t b)) u = reports b u"
    and DelTask_config: "good b \<Longrightarrow> GetDeployment api m (fst (DelTask api t b)) = GetDeployment api m b"
    and PutHost_good: "good b \<Longrightarrow> good (fst (PutHost api h b))"
    and GetDeployment_answers: "good b \<Longrightarrow> GetDeployment api m b \<noteq> Stops how"
begin

lemmas writes_good = PutTask_good PutTaskState_good DelTask_good PutHost_good
lemmas writes_answer [answer_simps] = PutTaskState_ok PutTaskState_states PutTaskState_reports PutTaskState_tasks PutTaskState_config
  PutTask_ok PutTask_tasks PutTask_states PutTask_reports PutTask_config DelTask_ok DelTask_tasks DelTask_states DelTask_reports DelTask_config

text \<open>The checks of the containers write the state of the task only.\<close>

lemma check_running_backend:
  "check_running api sys t cs st n = (st', n') \<Longrightarrow> good (nd_backend n) \<Longrightarrow>
   good (nd_backend n') \<and> tasks (nd_backend n') = tasks (nd_backend n) \<and>
   (\<forall>k. k \<noteq> task_ID t \<longrightarrow> states (nd_backend n') k = states (nd_backend n) k) \<and>
   (\<forall>u. task_ID u \<noteq> task_ID t \<longrightarrow> reports (nd_backend n') u = reports (nd_backend n) u) \<and>
   (\<forall>m. GetDeployment api m (nd_backend n') = GetDeployment api m (nd_backend n))"
proof (induction cs arbitrary: st n)
  case (Cons cont conts)
  show ?case
  proof (cases "if ct_Essential cont then GetExecutor cont else None")
    case None
    then have "check_running api sys t conts st n = (st', n')" using Cons.prems by simp
    then show ?thesis using Cons.IH Cons.prems by blast
  next
    case (Some ex)
    obtain ok err w where r: "IsRunning sys ex t (nd_machine n) = ((ok, err), w)" by (metis surj_pair)
    let ?n = "n\<lparr>nd_machine := w\<rparr>"
    show ?thesis
    proof (cases "err \<noteq> None \<or> ok")
      case True
      with Cons.prems Some r have "check_running api sys t conts st ?n = (st', n')" by simp
      from Cons.IH [OF this] Cons.prems show ?thesis by simp
    next
      case False
      let ?m = "fst (on_backend (PutTaskState api (task_ID t) EXITED) ?n)"
      have m: "nd_backend ?m = fst (PutTaskState api (task_ID t) EXITED (nd_backend n))" by simp
      from False Cons.prems Some r have "check_running api sys t conts EXITED ?m = (st', n')" by simp
      from Cons.IH [OF this] Cons.prems show ?thesis by (simp add: m writes_answer PutTaskState_good)
    qed
  qed
qed simp

text \<open>Rejecting a task writes it, rejected, and nothing else.\<close>

lemma reject_backend:
  "good (nd_backend n) \<Longrightarrow> fine t \<Longrightarrow> good (nd_backend (reject api reason t n)) \<and>
   states (nd_backend (reject api reason t n)) = states (nd_backend n) \<and>
   GetDeployment api m (nd_backend (reject api reason t n)) = GetDeployment api m (nd_backend n) \<and>
   tasks (nd_backend (reject api reason t n)) =
     (tasks (nd_backend n))(task_ID t \<mapsto> t\<lparr>tk_RejectReason := reason, tk_Rejected := True\<rparr>)"
  by (simp add: writes_answer PutTask_good fine_rejected)

end

lemma reject_agent [simp]:
  "nd_agent (reject api reason t n) =
    nd_agent (set_entry (task_ID t) (\<lambda>e. e\<lparr>te_Failure := Some (OtherError reason)\<rparr>) n)"
  by (simp add: reject_def)

section \<open>The decision on one task\<close>

text \<open>What a step of the agent on one task may change of the node, as the other tasks see it.\<close>

definition only_task :: "('b \<Rightarrow> bool) \<Rightarrow> 'b scheduler_api \<Rightarrow> ('b \<Rightarrow> string \<Rightarrow> task option) \<Rightarrow> ('b \<Rightarrow> string \<Rightarrow> task_state) \<Rightarrow>
    ('b \<Rightarrow> task \<Rightarrow> task_state) \<Rightarrow> string \<Rightarrow> ('b, 'w) node \<Rightarrow> ('b, 'w) node \<Rightarrow> bool" where
  "only_task good api tasks states reports k n n' \<longleftrightarrow>
     good (nd_backend n') \<and> (entries_known n \<longrightarrow> entries_known n') \<and>
     ag_Config (nd_agent n') = ag_Config (nd_agent n) \<and> ag_Host (nd_agent n') = ag_Host (nd_agent n) \<and>
     (\<forall>j. j \<noteq> k \<longrightarrow> lookup (ag_TaskState (nd_agent n')) j = lookup (ag_TaskState (nd_agent n)) j \<and>
       tasks (nd_backend n') j = tasks (nd_backend n) j \<and> states (nd_backend n') j = states (nd_backend n) j) \<and>
     (\<forall>u. task_ID u \<noteq> k \<longrightarrow> reports (nd_backend n') u = reports (nd_backend n) u) \<and>
     (\<forall>m. GetDeployment api m (nd_backend n') = GetDeployment api m (nd_backend n))"

context agent_backend
begin

abbreviation confined :: "string \<Rightarrow> ('b, 'w) node \<Rightarrow> ('b, 'w) node \<Rightarrow> bool" where
  "confined \<equiv> only_task good api tasks states reports"

lemma confined_refl: "good (nd_backend n) \<Longrightarrow> confined k n n"
  by (simp add: only_task_def)

lemma confined_trans: "confined k n1 n2 \<Longrightarrow> confined k n2 n3 \<Longrightarrow> confined k n1 n3"
  by (simp add: only_task_def)

lemma confined_touch: "good (nd_backend n) \<Longrightarrow> confined (task_ID t) n (touch_entry t n)"
  by (simp add: only_task_def entries_known_touch)

lemma confined_set: "good (nd_backend n) \<Longrightarrow> (\<And>e. te_Task (f e) = te_Task e) \<Longrightarrow> confined k n (set_entry k f n)"
  by (simp add: only_task_def entries_known_set)

lemma entries_known_agent: "nd_agent n' = nd_agent n \<Longrightarrow> entries_known n' = entries_known n"
  by (simp add: entries_known_def)

lemma confined_PutTask: "good (nd_backend n) \<Longrightarrow> fine u \<Longrightarrow> task_ID u = k \<Longrightarrow> confined k n (fst (on_backend (PutTask api u) n))"
  using entries_known_agent [of "fst (on_backend (PutTask api u) n)" n] by (simp add: only_task_def writes_answer PutTask_good)

lemma confined_PutTaskState: "good (nd_backend n) \<Longrightarrow> confined k n (fst (on_backend (PutTaskState api k s) n))"
  using entries_known_agent [of "fst (on_backend (PutTaskState api k s) n)" n]
  by (simp add: only_task_def writes_answer PutTaskState_good)

lemma confined_reject: "good (nd_backend n) \<Longrightarrow> fine t \<Longrightarrow> confined (task_ID t) n (reject api reason t n)"
  unfolding reject_def by (rule confined_trans [OF confined_set confined_PutTask]) (simp_all add: fine_rejected)

lemma confined_check:
  "check_running api sys t cs st n = (st', n') \<Longrightarrow> good (nd_backend n) \<Longrightarrow> confined (task_ID t) n n'"
  using check_running_backend [of sys t cs st n st' n'] check_running_frame [of api sys t cs st n st' n']
  by (simp add: only_task_def entries_known_agent [of n' n])

end

section \<open>The outcome of a decision\<close>

text \<open>The entry the decision looks at, and when a start is not put off or refused.\<close>

definition seen :: "task_state \<Rightarrow> task \<Rightarrow> ('b, 'w) node \<Rightarrow> task_entry" where
  "seen st t n = sync_entry st (entry_of t n)"

definition due :: "(uint \<Rightarrow> 'w \<Rightarrow> bool) \<Rightarrow> time \<Rightarrow> deployment \<Rightarrow> task \<Rightarrow> task_entry \<Rightarrow> 'w \<Rightarrow> bool" where
  "due bindable now d t e w \<longleftrightarrow>
     te_StartedAt e + td_GracePeriod (tk_TaskDefinition t) \<le> now \<and> te_Attempts e \<le> dp_MaxAttempts d \<and>
     (\<forall>p \<in> set (AllPorts (tk_TaskDefinition t)). p \<le> 65535 \<and> bindable p w)"

definition mark_starting :: "time \<Rightarrow> task_entry \<Rightarrow> task_entry" where
  "mark_starting now e = e\<lparr>te_StartedAt := now, te_State := STARTING\<rparr>"

lemma seen_fields [simp]:
  "te_State (seen st t n) = st" "te_StartedAt (seen st t n) = te_StartedAt (entry_of t n)"
  "te_Attempts (seen st t n) = (if Healthy st then 0 else te_Attempts (entry_of t n))"
  "te_Task (seen st t n) = te_Task (entry_of t n)"
  by (simp_all add: seen_def sync_entry_def Let_def)

lemma decide_start_due:
  assumes "due bindable now d t e (nd_machine n)"
  shows "decide_start api bindable now d t e n = (set_entry (task_ID t) (mark_starting now) n, Some (Start t))"
proof -
  have "find (\<lambda>p. \<not> IsTCPPortAvailable bindable p (nd_machine n)) (AllPorts (tk_TaskDefinition t)) = None"
    using assms by (auto simp: find_None_iff due_def IsTCPPortAvailable_def)
  with assms show ?thesis by (simp add: decide_start_def due_def mark_starting_def [abs_def])
qed

lemma decide_start_not_due:
  assumes "\<not> due bindable now d t e (nd_machine n)"
  shows "decide_start api bindable now d t e n = (n, None) \<and> now < te_StartedAt e + td_GracePeriod (tk_TaskDefinition t) \<or>
    (\<exists>reason. decide_start api bindable now d t e n = (reject api reason t n, None))"
proof (cases "te_StartedAt e + td_GracePeriod (tk_TaskDefinition t) \<le> now \<and> te_Attempts e \<le> dp_MaxAttempts d")
  case True
  with assms obtain p where "p \<in> set (AllPorts (tk_TaskDefinition t))" "\<not> IsTCPPortAvailable bindable p (nd_machine n)"
    by (auto simp: due_def IsTCPPortAvailable_def)
  then have "find (\<lambda>p. \<not> IsTCPPortAvailable bindable p (nd_machine n)) (AllPorts (tk_TaskDefinition t)) \<noteq> None"
    by (auto simp: find_None_iff)
  with True show ?thesis by (auto simp: decide_start_def)
qed (auto simp: decide_start_def)

context agent_backend
begin

text \<open>The node after the checks of the containers, with the state they leave.\<close>

definition checked :: "'w system \<Rightarrow> task \<Rightarrow> ('b, 'w) node \<Rightarrow> task_state \<times> ('b, 'w) node" where
  "checked sys t n = (let st = reports (nd_backend n) t in
     check_running api sys t (td_Containers (tk_TaskDefinition t)) st (set_entry (task_ID t) (sync_entry st) (touch_entry t n)))"

lemma checked_confined:
  assumes "checked sys t n = (st, n2)" and "good (nd_backend n)"
  shows "confined (task_ID t) n n2 \<and>
    lookup (ag_TaskState (nd_agent n2)) (task_ID t) = Some (seen (reports (nd_backend n) t) t n) \<and>
    ag_queue (nd_agent n2) = ag_queue (nd_agent n) \<and> tasks (nd_backend n2) = tasks (nd_backend n)"
proof -
  let ?s = "reports (nd_backend n) t"
  let ?n = "set_entry (task_ID t) (sync_entry ?s) (touch_entry t n)"
  have run: "check_running api sys t (td_Containers (tk_TaskDefinition t)) ?s ?n = (st, n2)"
    using assms(1) by (simp add: checked_def Let_def)
  have "confined (task_ID t) (touch_entry t n) ?n"
    using assms(2) by (intro confined_set) (simp_all add: sync_entry_def Let_def)
  then have "confined (task_ID t) n ?n" using confined_touch [OF assms(2), of t] confined_trans by blast
  moreover have "confined (task_ID t) ?n n2" using confined_check [OF run] assms(2) by simp
  ultimately show ?thesis
    using confined_trans check_running_frame [OF run] check_running_backend [OF run] assms(2)
    by (auto simp: seen_def)
qed

lemma syncTask_decides:
  assumes "good (nd_backend n)" and "checked sys t n = (st, n2)"
    and "GetDeployment api (tk_Deployment t) (nd_backend n) = Ok d"
  shows "syncTask api sys bindable now t n = Returns
    (if wants_start t (seen (reports (nd_backend n) t) t n) st
     then decide_start api bindable now d t (seen (reports (nd_backend n) t) t n) n2
     else (n2, if tk_Scheduled t then None else Some (Stop t)))"
  using assms checked_confined [OF assms(2,1)]
  by (simp add: syncTask_def GetTaskState_reports checked_def only_task_def Let_def)

lemma syncTask_no_deployment:
  assumes "good (nd_backend n)" and "checked sys t n = (st, n2)"
    and "GetDeployment api (tk_Deployment t) (nd_backend n) = Fail err p"
  shows "syncTask api sys bindable now t n =
    Returns (if err = ErrNotFound then reject api ''no deployment found'' t n2 else n2, None)"
  using assms checked_confined [OF assms(2,1)]
  by (simp add: syncTask_def GetTaskState_reports checked_def only_task_def Let_def)

lemma confined_decide:
  assumes "good (nd_backend n)" and "fine t" and "decide_start api bindable now d t e n = (n', act)"
  shows "confined (task_ID t) n n' \<and> ag_queue (nd_agent n') = ag_queue (nd_agent n) \<and> act \<in> {None, Some (Start t)}"
proof (cases "due bindable now d t e (nd_machine n)")
  case True
  then show ?thesis
    using assms confined_set [of n "mark_starting now" "task_ID t"]
    by (auto simp: decide_start_due mark_starting_def)
next
  case False
  from decide_start_not_due [OF this, of api] show ?thesis
    using assms confined_reject [OF assms(1,2)] confined_refl [OF assms(1)] by auto
qed

text \<open>A decision always comes back, and touches nothing but its task.\<close>

lemma syncTask_confined:
  assumes "good (nd_backend n)" and "fine t"
  shows "\<exists>n' act. syncTask api sys bindable now t n = Returns (n', act) \<and> confined (task_ID t) n n' \<and>
    ag_queue (nd_agent n') = ag_queue (nd_agent n) \<and> act \<in> {None, Some (Start t), Some (Stop t)}"
proof -
  obtain st n2 where c: "checked sys t n = (st, n2)" by (metis surj_pair)
  note f = checked_confined [OF c assms(1)]
  then have good2: "good (nd_backend n2)" by (simp add: only_task_def)
  let ?e = "seen (reports (nd_backend n) t) t n"
  show ?thesis
  proof (cases "GetDeployment api (tk_Deployment t) (nd_backend n)")
    case (Ok d)
    obtain n3 act where "decide_start api bindable now d t ?e n2 = (n3, act)" by (metis surj_pair)
    with confined_decide [OF good2 assms(2) this] f confined_trans show ?thesis
      by (auto simp: syncTask_decides [OF assms(1) c Ok])
  next
    case (Fail err p)
    then show ?thesis
      using f confined_trans [OF conjunct1 [OF f] confined_reject [OF good2 assms(2)]]
      by (auto simp: syncTask_no_deployment [OF assms(1) c Fail])
  qed (use GetDeployment_answers [OF assms(1)] in simp)
qed

end

interpretation mock_agent: agent_backend mock_good "mock_api ord" "\<lambda>a. lookup (mk_tasks a)" "\<lambda>_. True" "\<lambda>_. True"
  "\<lambda>a k. case lookup (mk_health a) k of None \<Rightarrow> '''' | Some s \<Rightarrow> s" "\<lambda>a t. case lookup (mk_health a) (task_ID t) of None \<Rightarrow> '''' | Some s \<Rightarrow> s" for ord
  by unfold_locales
    (auto simp: mock_api_def mock_store_defs mock_GetTaskState_def fun_eq_iff split: option.splits)

end
