(* ===== verification/Agent_Runs.thy ===== *)
theory Agent_Runs
  imports Agent_Laws
begin

text \<open>
  What the actions of the agent and its main loop do on any backend that keeps the laws of
  \<open>agent_backend\<close>: the outcome of a start and of a stop, the offers a sync makes, and the runs of the
  loop and its runners with the invariant they keep.
\<close>

section \<open>Starting\<close>

text \<open>The entry a start leaves: an attempt more, and the error that ended it.\<close>

definition attempted :: "time \<Rightarrow> go_error option \<Rightarrow> task_entry \<Rightarrow> task_entry" where
  "attempted now err e =
     (let e' = e\<lparr>te_State := STARTING, te_StartedAt := now, te_Attempts := w64 (te_Attempts e + 1)\<rparr> in
      case err of None \<Rightarrow> e' | Some x \<Rightarrow> e'\<lparr>te_Failure := Some x\<rparr>)"

lemma attempted_fields [simp]:
  "te_State (attempted now err e) = STARTING" "te_StartedAt (attempted now err e) = now"
  "te_Attempts (attempted now err e) = w64 (te_Attempts e + 1)" "te_Task (attempted now err e) = te_Task e"
  by (simp_all add: attempted_def Let_def split: option.split)

lemma start_containers_keeps:
  "start_containers sys t cs n = (n', err) \<Longrightarrow>
   ag_Config (nd_agent n') = ag_Config (nd_agent n) \<and> ag_Host (nd_agent n') = ag_Host (nd_agent n) \<and>
   ag_queue (nd_agent n') = ag_queue (nd_agent n)"
proof (induction cs arbitrary: n)
  case (Cons cont conts)
  show ?case
  proof (cases "GetExecutor cont")
    case None
    with Cons.prems show ?thesis by auto
  next
    case (Some ex)
    obtain n1 e1 where r: "on_machine (StartTask sys ex t cont) (fst (on_machine (RunSetup sys cont) n)) = (n1, e1)"
      by (metis surj_pair)
    then show ?thesis
      using on_machine_Pair [OF r] Cons.prems Cons.IH [of n1] Some by (cases e1) auto
  qed
qed simp

text \<open>A write that succeeds.\<close>

definition with_backend :: "('b \<Rightarrow> 'b) \<Rightarrow> ('b, 'w) node \<Rightarrow> ('b, 'w) node" where
  "with_backend f n = n\<lparr>nd_backend := f (nd_backend n)\<rparr>"

lemma with_backend_fields [simp]:
  "nd_backend (with_backend f n) = f (nd_backend n)" "nd_agent (with_backend f n) = nd_agent n"
  "nd_machine (with_backend f n) = nd_machine n"
  by (simp_all add: with_backend_def)

lemma on_backend_ok: "snd (c (nd_backend n)) = None \<Longrightarrow> on_backend c n = (with_backend (\<lambda>b. fst (c b)) n, None)"
  by (auto simp: on_backend_def with_backend_def split: prod.split)

lemma entry_of_with_backend [simp]: "entry_of t (with_backend f n) = entry_of t n"
  by (simp add: entry_of_def)

lemma entries_known_change:
  assumes "entries_known n" and "\<forall>j. j \<noteq> k \<longrightarrow> lookup (ag_TaskState (nd_agent n')) j = lookup (ag_TaskState (nd_agent n)) j"
    and "lookup (ag_TaskState (nd_agent n')) k = Some e" and "te_Task e \<noteq> None"
  shows "entries_known n'"
  unfolding entries_known_def
proof (intro allI impI)
  fix j f
  assume "lookup (ag_TaskState (nd_agent n')) j = Some f"
  then show "te_Task f \<noteq> None" using assms by (cases "j = k") (simp_all add: entries_known_def)
qed

context agent_backend
begin

lemma put_state: "good (nd_backend n) \<Longrightarrow>
    on_backend (PutTaskState api k s) n = (with_backend (\<lambda>b. fst (PutTaskState api k s b)) n, None)"
  by (simp add: on_backend_ok PutTaskState_ok)

lemma confined_put_state: "good (nd_backend n) \<Longrightarrow> confined k n (with_backend (\<lambda>b. fst (PutTaskState api k s b)) n)"
  using confined_PutTaskState [of n k s] by (simp add: put_state)

lemma agent_start_ends:
  assumes "good (nd_backend n)" and "agent_start api sys now t n = (n', err)"
  shows "confined (task_ID t) n n' \<and> ag_queue (nd_agent n') = ag_queue (nd_agent n) \<and>
    tasks (nd_backend n') = tasks (nd_backend n) \<and>
    states (nd_backend n') (task_ID t) = (if err = None then STARTED else STARTING) \<and>
    lookup (ag_TaskState (nd_agent n')) (task_ID t) = Some (attempted now err (entry_of t n))"
proof -
  let ?k = "task_ID t"
  let ?n1 = "with_backend (\<lambda>b. fst (PutTaskState api ?k STARTING b)) n"
  let ?f = "\<lambda>e. e\<lparr>te_State := STARTING, te_StartedAt := now, te_Attempts := w64 (te_Attempts e + 1)\<rparr>"
  let ?n2 = "set_entry ?k ?f (touch_entry t ?n1)"
  note n1 = put_state [OF assms(1), of ?k STARTING]
  have g1: "good (nd_backend ?n1)" using assms(1) by (simp add: PutTaskState_good)
  then have g2: "good (nd_backend ?n2)" by simp
  have "confined ?k ?n1 (touch_entry t ?n1)" by (rule confined_touch [OF g1])
  from confined_trans [OF confined_put_state [OF assms(1)] this]
  have "confined ?k n (touch_entry t ?n1)" .
  moreover have "confined ?k (touch_entry t ?n1) ?n2" using g1 by (intro confined_set) simp_all
  ultimately have c2: "confined ?k n ?n2" by (rule confined_trans)
  obtain n3 e3 where s: "start_containers sys t (td_Containers (tk_TaskDefinition t)) ?n2 = (n3, e3)" by (rule prod.exhaust)
  note f = start_containers_frame [OF s] start_containers_keeps [OF s]
  have entry: "lookup (ag_TaskState (nd_agent n3)) ?k = Some (attempted now e3 (entry_of t n))"
    using f by (simp add: attempted_def Let_def entry_of_def split: option.split)
  have "entries_known ?n2 \<longrightarrow> entries_known n3"
    using entries_known_change [of ?n2 ?k n3, OF _ _ entry] f entry_of_known [of t n] by simp
  with f g2 have c3: "confined ?k ?n2 n3" by (simp add: only_task_def)
  have c: "confined ?k n n3" by (rule confined_trans [OF c2 c3])
  then have g3: "good (nd_backend n3)" by (simp add: only_task_def)
  show ?thesis
  proof (cases e3)
    case None
    let ?n4 = "with_backend (\<lambda>b. fst (PutTaskState api ?k STARTED b)) n3"
    have "n' = ?n4 \<and> err = None"
      using assms(2) n1 s None put_state [OF g3] by (simp add: agent_start_def Let_def)
    moreover have "confined ?k n ?n4" by (rule confined_trans [OF c confined_put_state [OF g3]])
    ultimately show ?thesis
      using f entry None assms(1) g3 by (simp add: writes_answer)
  next
    case (Some x)
    then have "n' = n3 \<and> err = Some x" using assms(2) n1 s by (simp add: agent_start_def Let_def)
    then show ?thesis using c f entry Some assms(1) by (simp add: writes_answer)
  qed
qed

section \<open>Stopping\<close>

lemma confined_machine:
  "nd_backend n' = nd_backend n \<Longrightarrow> nd_agent n' = nd_agent n \<Longrightarrow> good (nd_backend n) \<Longrightarrow> confined k n n'"
  by (simp add: only_task_def entries_known_agent [of n' n])

lemma agent_stop_ends:
  assumes "good (nd_backend n)" and "agent_stop api sys t n = (n', err)"
  shows "confined (task_ID t) n n' \<and> ag_queue (nd_agent n') = ag_queue (nd_agent n) \<and>
    states (nd_backend n') (task_ID t) = (if err = None then STOPPED else STOPPING) \<and>
    tasks (nd_backend n') (task_ID t) = (if err = None then None else tasks (nd_backend n) (task_ID t)) \<and>
    lookup (ag_TaskState (nd_agent n')) (task_ID t) =
      (if err = None then None else lookup (ag_TaskState (nd_agent n)) (task_ID t))"
proof -
  let ?k = "task_ID t"
  let ?n1 = "with_backend (\<lambda>b. fst (PutTaskState api ?k STOPPING b)) n"
  note n1 = put_state [OF assms(1), of ?k STOPPING]
  have g1: "good (nd_backend ?n1)" using assms(1) by (simp add: PutTaskState_good)
  have c1: "confined ?k n ?n1" by (rule confined_put_state [OF assms(1)])
  obtain n2 e2 where s: "stop_containers sys t (td_Containers (tk_TaskDefinition t)) ?n1 = (n2, e2)" by (metis surj_pair)
  note f = stop_containers_frame [OF s]
  then have g2: "good (nd_backend n2)" using g1 by simp
  have c2: "confined ?k n n2" using f by (intro confined_trans [OF c1 confined_machine]) (simp_all add: g1 del: with_backend_fields)
  show ?thesis
  proof (cases e2)
    case (Some x)
    then have "n' = n2 \<and> err = Some x" using assms(2) n1 s by (simp add: agent_stop_def)
    then show ?thesis using c2 f assms(1) Some by (simp add: writes_answer)
  next
    case None
    let ?n3 = "del_entry ?k (fst (on_backend (DelTask api t) n2))"
    let ?n4 = "with_backend (\<lambda>b. fst (PutTaskState api ?k STOPPED b)) ?n3"
    have g3: "good (nd_backend ?n3)" using g2 by (simp add: del_entry_def DelTask_good)
    have "n' = ?n4 \<and> err = None"
      using assms(2) n1 s None put_state [OF g3] by (simp add: agent_stop_def)
    moreover have "confined ?k n2 ?n3"
      using g2 by (auto simp: only_task_def del_entry_def state_del_def entries_known_def writes_answer DelTask_good split: option.splits)
    then have "confined ?k n ?n4"
      using c2 confined_put_state [OF g3] confined_trans by blast
    moreover have "ag_queue (nd_agent ?n3) = ag_queue (nd_agent n2)" by (simp add: del_entry_def)
    moreover have "lookup (ag_TaskState (nd_agent ?n3)) ?k = None"
      by (auto simp: del_entry_def state_del_def split: option.splits)
    moreover have "tasks (nd_backend ?n3) ?k = None" using g2 by (simp add: del_entry_def writes_answer)
    ultimately show ?thesis using f g3 by (simp add: writes_answer)
  qed
qed

end

end
