(* ===== verification/Agent_Cycle.thy ===== *)
theory Agent_Cycle
  imports Agent_Runs
begin

text \<open>
  A whole pass of the agent: the sync over the tasks of its host, the runners that empty the queue, the
  figures it publishes, and why it starts, stops or rejects a task.
\<close>

section \<open>A sync\<close>

text \<open>A task the agent has to start, whatever the machine does meanwhile.\<close>

definition ready ::
  "'b scheduler_api \<Rightarrow> ('b \<Rightarrow> task \<Rightarrow> task_state) \<Rightarrow> (uint \<Rightarrow> 'w \<Rightarrow> bool) \<Rightarrow> time \<Rightarrow> task \<Rightarrow> ('b, 'w) node \<Rightarrow> bool" where
  "ready api reports bindable now t n \<longleftrightarrow>
     tk_Scheduled t \<and> \<not> tk_Rejected t \<and>
     reports (nd_backend n) t \<noteq> STARTING \<and> \<not> Healthy (reports (nd_backend n) t) \<and>
     (HasChecks t \<or> te_Attempts (entry_of t n) = 0) \<and>
     (\<exists>d. GetDeployment api (tk_Deployment t) (nd_backend n) = Ok d \<and> (\<forall>w. due bindable now d t (entry_of t n) w))"

lemma due_cong:
  "te_StartedAt e = te_StartedAt e' \<Longrightarrow> te_Attempts e = te_Attempts e' \<Longrightarrow> due bindable now d t e w = due bindable now d t e' w"
  by (simp add: due_def)

text \<open>A task that is new to the agent is ready when nothing speaks against it.\<close>

lemma ready_new:
  assumes "tk_Scheduled t" and "\<not> tk_Rejected t" and "reports (nd_backend n) t \<noteq> STARTING" and "\<not> Healthy (reports (nd_backend n) t)"
    and "lookup (ag_TaskState (nd_agent n)) (task_ID t) = None"
    and "GetDeployment api (tk_Deployment t) (nd_backend n) = Ok d" and "0 \<le> dp_MaxAttempts d"
    and "td_GracePeriod (tk_TaskDefinition t) \<le> now"
    and "\<forall>p \<in> set (AllPorts (tk_TaskDefinition t)). p \<le> 65535 \<and> (\<forall>w. bindable p w)"
  shows "ready api reports bindable now t n"
  using assms by (simp add: ready_def entry_of_new new_entry_def due_def)

lemma Healthy_simps [simp]: "\<not> Healthy EXITED" "\<not> Healthy ''''" "\<not> Healthy STARTING" "Healthy STARTED" "STARTED \<noteq> STARTING"
  by (simp_all add: Healthy_def task_state_defs)

lemma offer_action_fields [simp]:
  "nd_backend (offer_action a n) = nd_backend n" "nd_machine (offer_action a n) = nd_machine n"
  "ag_TaskState (nd_agent (offer_action a n)) = ag_TaskState (nd_agent n)"
  "ag_Config (nd_agent (offer_action a n)) = ag_Config (nd_agent n)"
  "ag_Host (nd_agent (offer_action a n)) = ag_Host (nd_agent n)"
  by (simp_all add: offer_action_def split: option.split)

lemma offer_action_queue:
  "ag_queue (nd_agent (offer_action a n)) =
    (case a of None \<Rightarrow> ag_queue (nd_agent n)
     | Some x \<Rightarrow> if length (ag_queue (nd_agent n)) < 500 then ag_queue (nd_agent n) @ [x] else ag_queue (nd_agent n))"
  by (simp add: offer_action_def split: option.split)

lemma entries_known_offer [simp]: "entries_known (offer_action a n) = entries_known n"
  by (simp add: entries_known_def)

lemma entry_of_offer [simp]: "entry_of t (offer_action a n) = entry_of t n"
  by (simp add: entry_of_def)

text \<open>The task of an action.\<close>

fun action_task :: "action \<Rightarrow> task" where
  "action_task (Start t) = t"
| "action_task (Stop t) = t"

definition action_key :: "action \<Rightarrow> string" where
  "action_key a = task_ID (action_task a)"

lemma action_key_simps [simp]: "action_key (Start t) = task_ID t" "action_key (Stop t) = task_ID t"
  by (simp_all add: action_key_def)

context agent_backend
begin

lemma ready_confined:
  assumes "confined k n n'" and "k \<noteq> task_ID t" and "ready api reports bindable now t n"
  shows "ready api reports bindable now t n'"
proof -
  have "entry_of t n' = entry_of t n" using assms(1,2) by (simp add: entry_of_def state_get_def only_task_def Let_def)
  then show ?thesis using assms by (simp add: ready_def only_task_def)
qed

lemma syncTask_ready:
  assumes "good (nd_backend n)" and "ready api reports bindable now t n"
  shows "\<exists>n'. syncTask api sys bindable now t n = Returns (n', Some (Start t))"
proof -
  let ?s = "reports (nd_backend n) t"
  obtain d where d: "GetDeployment api (tk_Deployment t) (nd_backend n) = Ok d"
      "\<forall>w. due bindable now d t (entry_of t n) w"
    using assms(2) by (auto simp: ready_def)
  obtain st n2 where c: "checked sys t n = (st, n2)" by (metis surj_pair)
  then have "st = ?s \<or> st = EXITED"
    using check_running_frame by (fastforce simp: checked_def Let_def)
  then have st: "\<not> Healthy st" using assms(2) by (auto simp: ready_def)
  have "due bindable now d t (seen ?s t n) (nd_machine n2)"
    using d(2) assms(2) by (simp add: ready_def due_cong [of "seen ?s t n" "entry_of t n"])
  moreover have "wants_start t (seen ?s t n) st"
    using assms(2) st by (auto simp: wants_start_def ready_def)
  ultimately show ?thesis
    using syncTask_decides [OF assms(1) c d(1)] by (simp add: decide_start_due)
qed

text \<open>
  A sync comes back; it queues behind what was queued at most one action per task, and touches no
  other task. A task that is ready is queued while there is room.
\<close>

lemma sync_tasks_ends:
  assumes "good (nd_backend n)" and "distinct (map task_ID ts)" and "\<forall>t \<in> set ts. fine t"
  shows "\<exists>n' acts. sync_tasks api sys bindable now ts n = Returns n' \<and> good (nd_backend n') \<and>
    (entries_known n \<longrightarrow> entries_known n') \<and>
    ag_queue (nd_agent n') = ag_queue (nd_agent n) @ acts \<and> subseq (map action_key acts) (map task_ID ts) \<and>
    (length (ag_queue (nd_agent n)) \<le> 500 \<longrightarrow> length (ag_queue (nd_agent n')) \<le> 500) \<and>
    ag_Config (nd_agent n') = ag_Config (nd_agent n) \<and> ag_Host (nd_agent n') = ag_Host (nd_agent n) \<and>
    (length (ag_queue (nd_agent n)) + length ts \<le> 500 \<longrightarrow>
      (\<forall>t \<in> set ts. ready api reports bindable now t n \<longrightarrow> Start t \<in> set acts))"
  using assms
proof (induction ts arbitrary: n)
  case Nil
  then show ?case by simp
next
  case (Cons u ts)
  obtain n1 act where s: "syncTask api sys bindable now u n = Returns (n1, act)"
      and c: "confined (task_ID u) n n1" and q: "ag_queue (nd_agent n1) = ag_queue (nd_agent n)"
      and act: "act \<in> {None, Some (Start u), Some (Stop u)}"
    using syncTask_confined [OF Cons.prems(1)] Cons.prems(3) by (metis list.set_intros(1))
  let ?n = "offer_action act n1"
  have dist: "distinct (map task_ID ts)" and fine: "\<forall>t \<in> set ts. fine t" using Cons.prems(2,3) by simp_all
  have g: "good (nd_backend ?n)" using c by (simp add: only_task_def)
  obtain n' acts where r: "sync_tasks api sys bindable now ts ?n = Returns n'" "good (nd_backend n')"
      "entries_known ?n \<longrightarrow> entries_known n'" "ag_queue (nd_agent n') = ag_queue (nd_agent ?n) @ acts"
      "subseq (map action_key acts) (map task_ID ts)"
      "length (ag_queue (nd_agent ?n)) \<le> 500 \<longrightarrow> length (ag_queue (nd_agent n')) \<le> 500"
      "ag_Config (nd_agent n') = ag_Config (nd_agent ?n)" "ag_Host (nd_agent n') = ag_Host (nd_agent ?n)"
      "length (ag_queue (nd_agent ?n)) + length ts \<le> 500 \<longrightarrow>
        (\<forall>t \<in> set ts. ready api reports bindable now t ?n \<longrightarrow> Start t \<in> set acts)"
    using Cons.IH [OF g dist fine] by (elim exE conjE) (rule that)
  define new where "new = (case act of None \<Rightarrow> [] | Some x \<Rightarrow> if length (ag_queue (nd_agent n)) < 500 then [x] else [])"
  have queue: "ag_queue (nd_agent ?n) = ag_queue (nd_agent n) @ new"
    by (simp add: offer_action_queue q new_def split: option.split)
  have short: "length new \<le> 1" "length (ag_queue (nd_agent n)) \<le> 500 \<longrightarrow> length (ag_queue (nd_agent n) @ new) \<le> 500"
    by (auto simp: new_def split: option.split)
  have "subseq (map action_key new) [task_ID u]"
    using act by (auto simp: new_def split: option.split)
  from list_emb_append_mono [OF this r(5)]
  have sub: "subseq (map action_key (new @ acts)) (map task_ID (u # ts))" by simp
  have starts: "Start t \<in> set (new @ acts)"
    if room: "length (ag_queue (nd_agent n)) + length (u # ts) \<le> 500" and t: "t \<in> set (u # ts)" "ready api reports bindable now t n" for t
  proof (cases "t = u")
    case True
    then have "act = Some (Start u)" using syncTask_ready [OF Cons.prems(1) t(2), of sys] s by simp
    then show ?thesis using room True by (simp add: new_def)
  next
    case False
    then have "t \<in> set ts" using t(1) by simp
    moreover have "task_ID u \<noteq> task_ID t" using Cons.prems(2) \<open>t \<in> set ts\<close> by auto
    then have "ready api reports bindable now t n1" using ready_confined [OF c] t(2) by simp
    then have "ready api reports bindable now t ?n" by (simp add: ready_def)
    moreover have "length (ag_queue (nd_agent ?n)) + length ts \<le> 500" using room short(1) by (simp add: queue)
    ultimately show ?thesis using r(9) by simp
  qed
  have "sync_tasks api sys bindable now (u # ts) n = Returns n'" using s r(1) by simp
  moreover have "ag_Config (nd_agent n1) = ag_Config (nd_agent n)" "ag_Host (nd_agent n1) = ag_Host (nd_agent n)"
      "entries_known n \<longrightarrow> entries_known n1" using c by (simp_all add: only_task_def)
  ultimately show ?case
    using r sub starts short queue by (intro exI [of _ n'] exI [of _ "new @ acts"]) auto
qed

end

section \<open>The runners\<close>

text \<open>A machine on which every command succeeds.\<close>

definition reliable :: "'w system \<Rightarrow> bool" where
  "reliable sys \<longleftrightarrow> (\<forall>c w. fst (sys c w) = None)"

definition runnable :: "task \<Rightarrow> bool" where
  "runnable t \<longleftrightarrow> (\<forall>c \<in> set (td_Containers (tk_TaskDefinition t)). GetExecutor c \<noteq> None)"

lemma StartTask_reliable:
  assumes "reliable sys"
  shows "fst (StartTask sys ex t cont w) = None"
proof -
  have ok: "fst (sys c w) = None" for c w using assms by (simp add: reliable_def)
  then have pair: "sys c w = (x, w') \<Longrightarrow> x = None" for c w x w' by (metis fst_conv)
  show ?thesis
    by (cases ex)
      (auto simp: StartTask_def bash_StartTask_def docker_StartTask_def Exec_def Let_def ok dest!: pair split: prod.split option.split)
qed

lemma start_containers_reliable:
  assumes "reliable sys" and "\<forall>c \<in> set cs. GetExecutor c \<noteq> None"
  shows "snd (start_containers sys t cs n) = None"
  using assms(2)
proof (induction cs arbitrary: n)
  case (Cons cont conts)
  then obtain ex where ex: "GetExecutor cont = Some ex" by auto
  obtain n1 e1 where r: "on_machine (StartTask sys ex t cont) (fst (on_machine (RunSetup sys cont) n)) = (n1, e1)"
    by (rule prod.exhaust)
  then have "e1 = snd (on_machine (StartTask sys ex t cont) (fst (on_machine (RunSetup sys cont) n)))" by simp
  then have "e1 = None" by (simp add: StartTask_reliable [OF assms(1)])
  then show ?case using Cons.IH [of n1] Cons.prems ex r by simp
qed simp

lemma runner_step_Cons:
  "ag_queue (nd_agent n) = act # rest \<Longrightarrow>
   runner_step api sys now n = fst (run_action api sys now act (n\<lparr>nd_agent := (nd_agent n)\<lparr>ag_queue := rest\<rparr>\<rparr>))"
  by (simp add: runner_step_def)

context agent_backend
begin

lemma agent_start_reliable:
  assumes "good (nd_backend n)" and "reliable sys" and "runnable t"
  shows "snd (agent_start api sys now t n) = None"
proof -
  have g: "good (nd_backend (with_backend (\<lambda>b. fst (PutTaskState api (task_ID t) STARTING b)) n))"
    using assms(1) by (simp add: PutTaskState_good)
  let ?n = "set_entry (task_ID t) (\<lambda>e. e\<lparr>te_State := STARTING, te_StartedAt := now, te_Attempts := w64 (te_Attempts e + 1)\<rparr>)
    (touch_entry t (with_backend (\<lambda>b. fst (PutTaskState api (task_ID t) STARTING b)) n))"
  obtain n3 e3 where s: "start_containers sys t (td_Containers (tk_TaskDefinition t)) ?n = (n3, e3)" by (rule prod.exhaust)
  then have e: "e3 = None"
    using start_containers_reliable [OF assms(2), of "td_Containers (tk_TaskDefinition t)" t ?n] assms(3) by (simp add: runnable_def)
  have "nd_backend n3 = nd_backend ?n" using start_containers_frame [OF s] by simp
  then have "good (nd_backend n3)" using g by simp
  then show ?thesis
    using s e put_state [OF assms(1), of "task_ID t" STARTING] by (simp add: agent_start_def put_state Let_def)
qed

text \<open>An action touches the task it is about and takes nothing from the queue.\<close>

lemma run_action_confined:
  assumes "good (nd_backend n)"
  shows "confined (action_key act) n (fst (run_action api sys now act n)) \<and>
    ag_queue (nd_agent (fst (run_action api sys now act n))) = ag_queue (nd_agent n)"
proof (cases act)
  case (Start t)
  then show ?thesis using agent_start_ends [OF assms, of sys now t] by (cases "agent_start api sys now t n") (simp add: run_action_def)
next
  case (Stop t)
  then show ?thesis using agent_stop_ends [OF assms, of sys t] by (cases "agent_stop api sys t n") (simp add: run_action_def)
qed

lemma runner_step_confined:
  assumes "good (nd_backend n)" and "ag_queue (nd_agent n) = act # rest"
  shows "confined (action_key act) n (runner_step api sys now n) \<and> ag_queue (nd_agent (runner_step api sys now n)) = rest"
proof -
  let ?n = "n\<lparr>nd_agent := (nd_agent n)\<lparr>ag_queue := rest\<rparr>\<rparr>"
  have "confined (action_key act) n ?n" using assms(1) by (simp add: only_task_def entries_known_def)
  moreover have "good (nd_backend ?n)" using assms(1) by simp
  ultimately show ?thesis
    using run_action_confined [of ?n act sys now] confined_trans runner_step_Cons [OF assms(2)] by fastforce
qed

lemma runner_steps_Cons:
  assumes "good (nd_backend n)" and "ag_queue (nd_agent n) = act # rest"
  shows "(runner_step api sys now ^^ length (ag_queue (nd_agent n))) n =
    (runner_step api sys now ^^ length (ag_queue (nd_agent (runner_step api sys now n)))) (runner_step api sys now n)"
  using runner_step_confined [OF assms, of sys now] assms(2)
  by (simp add: funpow_swap1 del: funpow.simps(2) add: funpow_Suc_right)

lemma runners_others:
  assumes "good (nd_backend m)" and "k \<notin> set (map action_key (ag_queue (nd_agent m)))"
  shows "states (nd_backend ((runner_step api sys now ^^ length (ag_queue (nd_agent m))) m)) k = states (nd_backend m) k"
  using assms
proof (induction "ag_queue (nd_agent m)" arbitrary: m)
  case Nil
  then show ?case by simp
next
  case (Cons a as)
  then have q: "ag_queue (nd_agent m) = a # as" by simp
  note c = runner_step_confined [OF Cons.prems(1) q, of sys now]
  show ?case
    using Cons.hyps(1) [of "runner_step api sys now m"] c Cons.prems q runner_steps_Cons [OF Cons.prems(1) q, of sys now]
    by (simp add: only_task_def)
qed

text \<open>
  Runners that empty a queue with one action per task: a task queued for its start is running at the end
  if its commands succeed, a task queued for its stop is gone if they do.
\<close>

lemma runners_start:
  assumes "good (nd_backend n)" and "distinct (map action_key (ag_queue (nd_agent n)))"
    and "Start t \<in> set (ag_queue (nd_agent n))" and "reliable sys" and "runnable t"
  shows "states (nd_backend ((runner_step api sys now ^^ length (ag_queue (nd_agent n))) n)) (task_ID t) = STARTED"
  using assms(1-3)
proof (induction "ag_queue (nd_agent n)" arbitrary: n)
  case Nil
  then show ?case by simp
next
  case (Cons act rest)
  let ?n = "runner_step api sys now n"
  have q: "ag_queue (nd_agent n) = act # rest" using Cons.hyps(2) by simp
  note c = runner_step_confined [OF Cons.prems(1) q, of sys now]
  then have g: "good (nd_backend ?n)" by (simp add: only_task_def)
  note run = runner_steps_Cons [OF Cons.prems(1) q, of sys now]
  show ?case
  proof (cases "Start t \<in> set rest")
    case True
    then show ?thesis using Cons.hyps(1) [of ?n] c g q Cons.prems(2) run by simp
  next
    case False
    then have act: "act = Start t" using Cons.prems(3) q by simp
    let ?m = "n\<lparr>nd_agent := (nd_agent n)\<lparr>ag_queue := rest\<rparr>\<rparr>"
    obtain n' where s: "agent_start api sys now t ?m = (n', None)"
      using agent_start_reliable [of ?m sys t now] assms(4,5) Cons.prems(1)
      by (cases "agent_start api sys now t ?m") simp
    then have "?n = n'" by (simp add: runner_step_Cons [OF q] act run_action_def)
    then have st: "states (nd_backend ?n) (task_ID t) = STARTED"
      using agent_start_ends [OF _ s] Cons.prems(1) by simp
    have "task_ID t \<notin> set (map action_key (ag_queue (nd_agent ?n)))" using Cons.prems(2) q act c by simp
    then show ?thesis using st run runners_others [OF g] by simp
  qed
qed

end

section \<open>Publishing\<close>

text \<open>The loop over the entries adds up what their tasks need; its order does not matter.\<close>

lemma sum_usage_known:
  "\<forall>e \<in> set es. te_Task e \<noteq> None \<Longrightarrow> sum_usage es u = Returns (fold add_usage (map (the \<circ> te_Task) es) u)"
  by (induction es u rule: sum_usage.induct) (auto split: option.split)

lemma fold_add_usage:
  "us_memory u = w64 m \<Longrightarrow> us_memory (fold add_usage ts u) = w64 (m + (\<Sum>t\<leftarrow>ts. cn_Memory (Counts (tk_TaskDefinition t))))"
  "us_disk u = w64 d \<Longrightarrow> us_disk (fold add_usage ts u) = w64 (d + (\<Sum>t\<leftarrow>ts. cn_DiskUse (Counts (tk_TaskDefinition t))))"
  "us_cpu u = w64 c \<Longrightarrow> us_cpu (fold add_usage ts u) = w64 (c + (\<Sum>t\<leftarrow>ts. cn_CpuUnits (Counts (tk_TaskDefinition t))))"
  by (induction ts arbitrary: u m d c) (simp_all add: add_usage_def Let_def add.assoc [symmetric])

lemma fold_add_usage_reserved:
  "us_reserved (fold add_usage ts u) = us_reserved u @ concat (map (\<lambda>t. AllPorts (tk_TaskDefinition t)) ts)"
proof (induction ts arbitrary: u)
  case (Cons t ts)
  have "filter (\<lambda>p. p \<noteq> 0) (AllPorts (tk_TaskDefinition t)) = AllPorts (tk_TaskDefinition t)"
    by (auto simp: filter_id_conv AllPorts_iff)
  with Cons show ?case by (simp add: add_usage_def Let_def)
qed simp

lemma w64_minus_w64: "w64 (a - w64 b) = w64 (a - b)"
  unfolding w64_def by (metis signed_take_bit_diff signed_take_bit_signed_take_bit min.idem)

lemma map_filter_known:
  "set ks \<subseteq> dom m \<Longrightarrow> map f (List.map_filter m ks) = map (\<lambda>k. f (the (m k))) ks"
  by (induction ks) (auto simp: List.map_filter_simps)

lemma sum_range_values:
  fixes f :: "'v \<Rightarrow> int"
  shows "(\<Sum>v\<leftarrow>range_values ord m. f v) = (\<Sum>k \<in> dom (lookup m). f (the (lookup m k)))"
proof -
  have "(\<Sum>v\<leftarrow>range_values ord m. f v) = (\<Sum>k\<leftarrow>range_keys ord m. f (the (lookup m k)))"
    by (simp add: range_values_def map_filter_known)
  also have "\<dots> = (\<Sum>k \<in> dom (lookup m). f (the (lookup m k)))"
    by (simp add: sum_list_distinct_conv_sum_set)
  finally show ?thesis .
qed

text \<open>The tasks the agent has entries for.\<close>

definition known_task :: "('b, 'w) node \<Rightarrow> string \<Rightarrow> task" where
  "known_task n k = the (te_Task (the (lookup (ag_TaskState (nd_agent n)) k)))"

definition known_tasks :: "map_order \<Rightarrow> ('b, 'w) node \<Rightarrow> task list" where
  "known_tasks ord n = map (the \<circ> te_Task) (range_values ord (ag_TaskState (nd_agent n)))"

lemma sum_known_tasks:
  fixes f :: "task \<Rightarrow> int"
  shows "(\<Sum>t\<leftarrow>known_tasks ord n. f t) = (\<Sum>k \<in> dom (lookup (ag_TaskState (nd_agent n))). f (known_task n k))"
  using sum_range_values [of "\<lambda>e. f (the (te_Task e))" ord "ag_TaskState (nd_agent n)"]
  by (simp add: known_tasks_def known_task_def comp_def)

lemma set_known_tasks: "set (known_tasks ord n) = known_task n ` dom (lookup (ag_TaskState (nd_agent n)))"
  by (force simp: known_tasks_def known_task_def ran_def dom_def image_iff)

definition no_usage :: usage where
  "no_usage = \<lparr>us_reserved = [], us_memory = 0, us_disk = 0, us_cpu = 0\<rparr>"

lemma PublishState_known:
  assumes "entries_known n"
  shows "PublishState api ord f n =
    (let h = published f (fold add_usage (known_tasks ord n) no_usage) (nd_agent n) in
     Returns (n\<lparr>nd_agent := (nd_agent n)\<lparr>ag_LastState := Some h\<rparr>, nd_backend := fst (PutHost api h (nd_backend n))\<rparr>))"
proof -
  have "\<forall>e \<in> set (range_values ord (ag_TaskState (nd_agent n))). te_Task e \<noteq> None"
    using assms by (auto simp: entries_known_def ran_def)
  from sum_usage_known [OF this] show ?thesis by (simp add: PublishState_def known_tasks_def no_usage_def)
qed

section \<open>A ready task is started\<close>

context agent_backend
begin

lemma agent_sync_ends:
  assumes "good (nd_backend n)"
  shows "\<exists>ts n' acts. ListTasks api (agent_query (nd_agent n)) (nd_backend n) = Ok ts \<and>
    set ts = {t \<in> ran (tasks (nd_backend n)). selects (agent_query (nd_agent n)) PENDING t} \<and> distinct (map task_ID ts) \<and>
    agent_sync api sys bindable now n = Returns n' \<and> good (nd_backend n') \<and>
    (entries_known n \<longrightarrow> entries_known n') \<and>
    ag_queue (nd_agent n') = ag_queue (nd_agent n) @ acts \<and> subseq (map action_key acts) (map task_ID ts) \<and>
    (length (ag_queue (nd_agent n)) \<le> 500 \<longrightarrow> length (ag_queue (nd_agent n')) \<le> 500) \<and>
    (length (ag_queue (nd_agent n)) + length ts \<le> 500 \<longrightarrow>
      (\<forall>t \<in> set ts. ready api reports bindable now t n \<longrightarrow> Start t \<in> set acts))"
proof -
  obtain ts where ts: "ListTasks api (agent_query (nd_agent n)) (nd_backend n) = Ok ts"
      "set ts = {t \<in> ran (tasks (nd_backend n)). selects (agent_query (nd_agent n)) PENDING t}" "distinct (map task_ID ts)"
    using ListTasks_selects [OF assms, of "agent_query (nd_agent n)"] by (auto simp: agent_query_def any_task_def)
  have eq: "agent_sync api sys bindable now n = sync_tasks api sys bindable now ts n" using ts(1) by (simp add: agent_sync_def)
  have "\<forall>t \<in> set ts. fine t" using ts(2) tasks_fine [OF assms] by (auto simp: ran_def)
  then show ?thesis unfolding eq using ts sync_tasks_ends [OF assms ts(3), of sys bindable now] by blast
qed

text \<open>A sync and the work of the runners start every task of the host that is ready.\<close>

lemma ready_task_started:
  assumes "good (nd_backend n)" and "ag_queue (nd_agent n) = []"
    and "tasks (nd_backend n) (task_ID t) = Some t" and "selects (agent_query (nd_agent n)) PENDING t"
    and "ready api reports bindable now t n" and "reliable sys" and "runnable t"
    and "card {u \<in> ran (tasks (nd_backend n)). selects (agent_query (nd_agent n)) PENDING u} \<le> 500"
  shows "\<exists>n'. agent_sync api sys bindable now n = Returns n' \<and>
    states (nd_backend ((runner_step api sys later ^^ length (ag_queue (nd_agent n'))) n')) (task_ID t) = STARTED"
proof -
  obtain ts n' acts where s: "set ts = {u \<in> ran (tasks (nd_backend n)). selects (agent_query (nd_agent n)) PENDING u}"
      "distinct (map task_ID ts)" "agent_sync api sys bindable now n = Returns n'" "good (nd_backend n')"
      "ag_queue (nd_agent n') = acts" "subseq (map action_key acts) (map task_ID ts)"
      "length ts \<le> 500 \<longrightarrow> (\<forall>t \<in> set ts. ready api reports bindable now t n \<longrightarrow> Start t \<in> set acts)"
    using agent_sync_ends [OF assms(1), of sys bindable now] assms(2) by auto
  have "length ts \<le> 500" using assms(8) s(1,2) distinct_card [of ts] by (simp add: distinct_map)
  moreover have "t \<in> set ts" using s(1) assms(3,4) by (auto simp: ran_def)
  ultimately have "Start t \<in> set acts" using s(7) assms(5) by blast
  moreover have "distinct (map action_key acts)" using s(2,6) subseq_conv_nths distinct_nthsI by metis
  ultimately show ?thesis using runners_start [of n' t sys later] s(3-5) assms(6,7) by blast
qed

section \<open>Why a task is started, stopped or neither\<close>

text \<open>The reasons for a start, and the entry it leaves.\<close>

lemma start_reasons:
  assumes "syncTask api sys bindable now t n = Returns (n', Some (Start u))" and "good (nd_backend n)"
  shows "u = t \<and> tk_Scheduled t \<and> \<not> tk_Rejected t \<and> reports (nd_backend n) t \<noteq> STARTING \<and>
    te_StartedAt (entry_of t n) + td_GracePeriod (tk_TaskDefinition t) \<le> now \<and>
    (\<exists>d. GetDeployment api (tk_Deployment t) (nd_backend n) = Ok d \<and>
      (\<not> Healthy (reports (nd_backend n) t) \<longrightarrow> te_Attempts (entry_of t n) \<le> dp_MaxAttempts d)) \<and>
    (\<forall>p \<in> set (AllPorts (tk_TaskDefinition t)). p \<le> 65535 \<and> bindable p (nd_machine n')) \<and>
    (\<exists>e. lookup (ag_TaskState (nd_agent n')) (task_ID t) = Some e \<and> te_State e = STARTING \<and> te_StartedAt e = now)"
proof -
  let ?s = "reports (nd_backend n) t"
  obtain st n2 where c: "checked sys t n = (st, n2)" by (metis surj_pair)
  note f = checked_confined [OF c assms(2)]
  show ?thesis
  proof (cases "GetDeployment api (tk_Deployment t) (nd_backend n)")
    case (Ok d)
    let ?e = "seen ?s t n"
    have run: "syncTask api sys bindable now t n = Returns
      (if wants_start t ?e st then decide_start api bindable now d t ?e n2
       else (n2, if tk_Scheduled t then None else Some (Stop t)))"
      by (rule syncTask_decides [OF assms(2) c Ok])
    then have w: "wants_start t ?e st" "decide_start api bindable now d t ?e n2 = (n', Some (Start u))"
      using assms(1) by (auto split: if_splits)
    have due: "due bindable now d t ?e (nd_machine n2)"
      using w(2) decide_start_not_due [of bindable now d t ?e n2 api] by auto
    with w(2) have n': "n' = set_entry (task_ID t) (mark_starting now) n2" "u = t" by (auto simp: decide_start_due)
    show ?thesis
      using w(1) due n' f Ok by (auto simp: wants_start_def due_def mark_starting_def)
  next
    case (Fail err p)
    from syncTask_no_deployment [OF assms(2) c Fail] assms(1) show ?thesis by simp
  qed (use GetDeployment_answers [OF assms(2)] in simp)
qed

text \<open>A stop takes the task off or leaves it, in the backend and in the table alike.\<close>

lemma stop_ends:
  assumes "agent_stop api sys t n = (n', err)" and "good (nd_backend n)"
  shows "tasks (nd_backend n') = (if err = None then (tasks (nd_backend n))(task_ID t := None) else tasks (nd_backend n)) \<and>
    lookup (ag_TaskState (nd_agent n')) =
      (if err = None then (lookup (ag_TaskState (nd_agent n)))(task_ID t := None) else lookup (ag_TaskState (nd_agent n))) \<and>
    states (nd_backend n') (task_ID t) = (if err = None then STOPPED else STOPPING)"
proof -
  note ends = agent_stop_ends [OF assms(2,1)]
  have "tasks (nd_backend n') j = (if err = None \<and> j = task_ID t then None else tasks (nd_backend n) j)" for j
    using ends by (cases "j = task_ID t") (simp_all add: only_task_def)
  moreover have "lookup (ag_TaskState (nd_agent n')) j =
      (if err = None \<and> j = task_ID t then None else lookup (ag_TaskState (nd_agent n)) j)" for j
    using ends by (cases "j = task_ID t") (simp_all add: only_task_def)
  ultimately show ?thesis using ends by (auto simp: fun_eq_iff)
qed

text \<open>A task without a deployment is rejected and not stopped.\<close>

lemma orphan_rejected:
  assumes "good (nd_backend n)" and "fine t" and "GetDeployment api (tk_Deployment t) (nd_backend n) = Fail ErrNotFound p"
  shows "\<exists>n' u. syncTask api sys bindable now t n = Returns (n', None) \<and>
    tasks (nd_backend n') (task_ID t) = Some u \<and> tk_Rejected u \<and> tk_Scheduled u = tk_Scheduled t \<and>
    ag_queue (nd_agent n') = ag_queue (nd_agent n)"
proof -
  obtain st n2 where c: "checked sys t n = (st, n2)" by (metis surj_pair)
  note f = checked_confined [OF c assms(1)]
  then have "good (nd_backend n2)" by (simp add: only_task_def)
  note rejected = reject_backend [OF this assms(2), of "''no deployment found''"]
  have "syncTask api sys bindable now t n = Returns (reject api ''no deployment found'' t n2, None)"
    using syncTask_no_deployment [OF assms(1) c assms(3), of bindable now] by simp
  then show ?thesis using rejected f by simp
qed

end

end
