(* ===== verification/Agent_Turns.thy ===== *)
theory Agent_Turns
  imports Agent_Cycle
begin

text \<open>
  The main loop of the agent and its runners taking turns with everybody else who writes the backend, and
  the invariant these runs keep. It needs far less of the backend than the outcome of a start does: calls
  may fail as they please, as long as they come back and what is stored can be read; the locale
  \<open>agent_store\<close> says so.
\<close>

section \<open>Runs\<close>

text \<open>
  The main loop and the runners take turns: the loop syncs and publishes, a runner carries out one
  action. Two actions that run at the same time are taken one after the other. Between two turns the
  other processes may leave any good backend behind.
\<close>

inductive agent_run ::
  "('b \<Rightarrow> bool) \<Rightarrow> 'b scheduler_api \<Rightarrow> 'w system \<Rightarrow> (uint \<Rightarrow> 'w \<Rightarrow> bool) \<Rightarrow> ('b, 'w) node \<Rightarrow> ('b, 'w) node \<Rightarrow> bool"
  for good api sys bindable n where
  begun: "agent_run good api sys bindable n n"
| looped: "agent_run good api sys bindable n n1 \<Longrightarrow> agent_step api sys bindable ord f now ev n1 = Returns n2 \<Longrightarrow>
    agent_run good api sys bindable n n2"
| worked: "agent_run good api sys bindable n n1 \<Longrightarrow> agent_run good api sys bindable n (runner_step api sys now n1)"
| others_wrote: "agent_run good api sys bindable n n1 \<Longrightarrow> good b \<Longrightarrow> agent_run good api sys bindable n (n1\<lparr>nd_backend := b\<rparr>)"

definition agent_invariant :: "('b \<Rightarrow> bool) \<Rightarrow> ('b, 'w) node \<Rightarrow> bool" where
  "agent_invariant good n \<longleftrightarrow> good (nd_backend n) \<and> entries_known n \<and> length (ag_queue (nd_agent n)) \<le> 500"

text \<open>What a part of the agent keeps that does not touch the queue.\<close>

definition intact :: "('b \<Rightarrow> bool) \<Rightarrow> ('b, 'w) node \<Rightarrow> ('b, 'w) node \<Rightarrow> bool" where
  "intact good n n' \<longleftrightarrow>
     good (nd_backend n') \<and> (entries_known n \<longrightarrow> entries_known n') \<and> ag_queue (nd_agent n') = ag_queue (nd_agent n)"

lemma intactD: "intact good n n' \<Longrightarrow> good (nd_backend n')"
  by (simp add: intact_def)

lemma intact_refl: "good (nd_backend n) \<Longrightarrow> intact good n n"
  by (simp add: intact_def)

lemma intact_trans: "intact good n1 n2 \<Longrightarrow> intact good n2 n3 \<Longrightarrow> intact good n1 n3"
  by (simp add: intact_def)

lemma intact_touch: "good (nd_backend n) \<Longrightarrow> intact good n (touch_entry t n)"
  by (simp add: intact_def entries_known_touch)

lemma intact_set: "good (nd_backend n) \<Longrightarrow> (\<And>e. te_Task (f e) = te_Task e) \<Longrightarrow> intact good n (set_entry k f n)"
  by (simp add: intact_def entries_known_set)

lemma intact_del: "good (nd_backend n) \<Longrightarrow> intact good n (del_entry k n)"
  by (auto simp: intact_def entries_known_def del_entry_def state_del_def split: option.splits)

lemma intact_agent: "nd_agent n' = nd_agent n \<Longrightarrow> good (nd_backend n') \<Longrightarrow> intact good n n'"
  by (simp add: intact_def entries_known_def)

lemma start_containers_intact:
  assumes "start_containers sys t cs n = (n', err)" and "good (nd_backend n)"
  shows "intact good n n'"
proof -
  note f = start_containers_frame [OF assms(1)] start_containers_keeps [OF assms(1)]
  have "te_Task e \<noteq> None" if "entries_known n" "lookup (ag_TaskState (nd_agent n')) k = Some e" for k e
    using that f by (cases "k = task_ID t") (auto simp: entries_known_def split: option.splits)
  with f assms(2) show ?thesis by (auto simp: intact_def entries_known_def)
qed

section \<open>The least an agent needs\<close>

text \<open>
  A backend whose calls come back, whose writes keep it good, and that lists only tasks it can store
  again, also when they have been rejected. Nothing is said of what is read or of errors.
\<close>

locale agent_store =
  fixes good :: "'b \<Rightarrow> bool" and api :: "'b scheduler_api" and fine :: "task \<Rightarrow> bool"
  assumes PutTask_keeps: "good b \<Longrightarrow> fine t \<Longrightarrow> good (fst (PutTask api t b))"
    and PutTaskState_keeps: "good b \<Longrightarrow> good (fst (PutTaskState api k s b))"
    and DelTask_keeps: "good b \<Longrightarrow> good (fst (DelTask api t b))"
    and PutHost_keeps: "good b \<Longrightarrow> good (fst (PutHost api h b))"
    and fine_rejected: "fine t \<Longrightarrow> fine (t\<lparr>tk_RejectReason := reason, tk_Rejected := True\<rparr>)"
    and GetTaskState_returns: "good b \<Longrightarrow> GetTaskState api t b \<noteq> Stops how"
    and GetDeployment_returns: "good b \<Longrightarrow> GetDeployment api m b \<noteq> Stops how"
    and ListTasks_returns: "good b \<Longrightarrow> ListTasks api (agent_query ag) b \<noteq> Stops how"
    and ListTasks_fine: "good b \<Longrightarrow> ListTasks api (agent_query ag) b = Ok ts \<Longrightarrow> u \<in> set ts \<Longrightarrow> fine u"
begin

abbreviation keeps :: "('b, 'w) node \<Rightarrow> ('b, 'w) node \<Rightarrow> bool" where
  "keeps \<equiv> intact good"

lemma keeps_put_state: "good (nd_backend n) \<Longrightarrow> on_backend (PutTaskState api k s) n = (n', err) \<Longrightarrow> keeps n n'"
  using on_backend_Pair [of "PutTaskState api k s" n n' err] by (simp add: intact_agent PutTaskState_keeps)

lemma keeps_reject: "good (nd_backend n) \<Longrightarrow> fine t \<Longrightarrow> keeps n (reject api reason t n)"
  unfolding reject_def
  by (rule intact_trans [OF intact_set intact_agent]) (simp_all add: PutTask_keeps fine_rejected)

lemma keeps_check:
  "check_running api sys t cs st n = (st', n') \<Longrightarrow> good (nd_backend n) \<Longrightarrow> keeps n n' \<and> nd_agent n' = nd_agent n"
proof (induction cs arbitrary: st n)
  case (Cons cont conts)
  show ?case
  proof (cases "if ct_Essential cont then GetExecutor cont else None")
    case None
    then have "check_running api sys t conts st n = (st', n')" using Cons.prems by simp
    then show ?thesis using Cons.IH Cons.prems by blast
  next
    case (Some ex)
    obtain ok err w where r: "IsRunning sys ex t (nd_machine n) = ((ok, err), w)" by (metis surj_pair)
    let ?n = "n\<lparr>nd_machine := w\<rparr>"
    let ?m = "fst (on_backend (PutTaskState api (task_ID t) EXITED) ?n)"
    have m: "good (nd_backend ?m)" "nd_agent ?m = nd_agent n" using Cons.prems(2) by (simp_all add: PutTaskState_keeps)
    have "\<exists>st1 n1. check_running api sys t conts st1 n1 = (st', n') \<and> good (nd_backend n1) \<and> nd_agent n1 = nd_agent n"
    proof (cases "err \<noteq> None \<or> ok")
      case True
      with Cons.prems Some r show ?thesis by (intro exI [of _ st] exI [of _ ?n]) simp
    next
      case False
      with Cons.prems Some r m show ?thesis by (intro exI [of _ EXITED] exI [of _ ?m]) simp
    qed
    then show ?thesis using Cons.IH by (auto simp: intact_def entries_known_def)
  qed
qed (simp add: intact_refl)

lemma keeps_decide:
  assumes "good (nd_backend n)" and "fine t" and "decide_start api bindable now d t e n = (n', act)"
  shows "keeps n n'"
  using assms keeps_reject [OF assms(1,2)] intact_refl [of good n, OF assms(1)]
    intact_set [of good n "\<lambda>e. e\<lparr>te_StartedAt := now, te_State := STARTING\<rparr>" "task_ID t"]
  by (auto simp: decide_start_def split: if_splits option.splits)

lemma syncTask_keeps:
  assumes "good (nd_backend n)" and "fine t"
  shows "\<exists>n' act. syncTask api sys bindable now t n = Returns (n', act) \<and> keeps n n'"
proof (cases "GetTaskState api t (nd_backend n)")
  case (Ok st)
  let ?n1 = "set_entry (task_ID t) (sync_entry st) (touch_entry t n)"
  have n1: "keeps n ?n1"
    by (rule intact_trans [OF intact_touch intact_set]) (simp_all add: assms(1) sync_entry_def Let_def)
  obtain st2 n2 where c: "check_running api sys t (td_Containers (tk_TaskDefinition t)) st ?n1 = (st2, n2)"
    by (rule prod.exhaust)
  note k = keeps_check [OF c intactD [OF n1]]
  have n2: "keeps n n2" by (rule intact_trans [OF n1 conjunct1 [OF k]])
  have entry: "lookup (ag_TaskState (nd_agent n2)) (task_ID t) = Some (sync_entry st (entry_of t n))" using k by simp
  show ?thesis
  proof (cases "GetDeployment api (tk_Deployment t) (nd_backend n2)")
    case Ok': (Ok d)
    obtain n3 act where d: "decide_start api bindable now d t (sync_entry st (entry_of t n)) n2 = (n3, act)" by (rule prod.exhaust)
    have "keeps n n3" by (rule intact_trans [OF n2 keeps_decide [OF intactD [OF n2] assms(2) d]])
    then show ?thesis using Ok Ok' c d entry n2 by (simp add: syncTask_def Let_def)
  next
    case (Fail err p)
    have "keeps n (reject api ''no deployment found'' t n2)"
      by (rule intact_trans [OF n2 keeps_reject [OF intactD [OF n2] assms(2)]])
    then show ?thesis using Ok Fail c n2 by (simp add: syncTask_def Let_def)
  qed (use GetDeployment_returns [OF intactD [OF n2]] in simp)
qed (use GetTaskState_returns [OF assms(1)] intact_refl [of good n, OF assms(1)] in \<open>simp_all add: syncTask_def\<close>)

lemma sync_tasks_invariant:
  assumes "agent_invariant good n" and "\<forall>t \<in> set ts. fine t"
  shows "\<exists>n'. sync_tasks api sys bindable now ts n = Returns n' \<and> agent_invariant good n'"
  using assms
proof (induction ts arbitrary: n)
  case (Cons t ts)
  obtain n1 act where s: "syncTask api sys bindable now t n = Returns (n1, act)" "keeps n n1"
    using syncTask_keeps [of n t sys bindable now] Cons.prems by (auto simp: agent_invariant_def)
  then have "agent_invariant good (offer_action act n1)"
    using Cons.prems(1) by (auto simp: agent_invariant_def intact_def offer_action_queue split: option.split)
  then show ?case using Cons.IH Cons.prems(2) s(1) by simp
qed simp

section \<open>Actions\<close>

lemma agent_start_keeps:
  assumes "good (nd_backend n)" and "agent_start api sys now t n = (n', err)"
  shows "keeps n n'"
proof -
  let ?f = "\<lambda>e. e\<lparr>te_State := STARTING, te_StartedAt := now, te_Attempts := w64 (te_Attempts e + 1)\<rparr>"
  obtain n1 e1 where p: "on_backend (PutTaskState api (task_ID t) STARTING) n = (n1, e1)" by (rule prod.exhaust)
  have k1: "keeps n n1" by (rule keeps_put_state [OF assms(1) p])
  let ?n2 = "set_entry (task_ID t) ?f (touch_entry t n1)"
  have k2: "keeps n ?n2"
    by (rule intact_trans [OF k1 intact_trans [OF intact_touch intact_set]]) (simp_all add: intactD [OF k1])
  obtain n3 e3 where s: "start_containers sys t (td_Containers (tk_TaskDefinition t)) ?n2 = (n3, e3)" by (rule prod.exhaust)
  have k3: "keeps n n3" by (rule intact_trans [OF k2 start_containers_intact [of sys, OF s]]) (rule intactD [OF k2])
  show ?thesis
  proof (cases "e1 = None \<and> e3 = None")
    case True
    then have "on_backend (PutTaskState api (task_ID t) STARTED) n3 = (n', err)"
      using assms(2) p s by (simp add: agent_start_def Let_def)
    from keeps_put_state [OF intactD [OF k3] this] show ?thesis by (rule intact_trans [OF k3])
  next
    case False
    then show ?thesis using assms(2) p s k1 k3 by (auto simp: agent_start_def Let_def split: option.splits)
  qed
qed

lemma agent_stop_keeps:
  assumes "good (nd_backend n)" and "agent_stop api sys t n = (n', err)"
  shows "keeps n n'"
proof -
  obtain n1 e1 where p: "on_backend (PutTaskState api (task_ID t) STOPPING) n = (n1, e1)" by (rule prod.exhaust)
  have k1: "keeps n n1" by (rule keeps_put_state [OF assms(1) p])
  obtain n2 e2 where s: "stop_containers sys t (td_Containers (tk_TaskDefinition t)) n1 = (n2, e2)" by (rule prod.exhaust)
  have k2: "keeps n n2"
    using stop_containers_frame [OF s] by (intro intact_trans [OF k1] intact_agent) (simp_all add: intactD [OF k1])
  let ?n3 = "fst (on_backend (DelTask api t) n2)"
  have k3: "keeps n ?n3" using intactD [OF k2] by (intro intact_trans [OF k2] intact_agent) (simp_all add: DelTask_keeps)
  then have k4: "keeps n (del_entry (task_ID t) ?n3)" by (rule intact_trans [OF _ intact_del]) (rule intactD [OF k3])
  show ?thesis
  proof (cases "e1 = None \<and> e2 = None")
    case True
    then have "on_backend (PutTaskState api (task_ID t) STOPPED) (del_entry (task_ID t) ?n3) = (n', err)"
      using assms(2) p s by (simp add: agent_stop_def)
    from keeps_put_state [OF intactD [OF k4] this] show ?thesis by (rule intact_trans [OF k4])
  next
    case False
    then show ?thesis using assms(2) p s k1 k2 by (auto simp: agent_stop_def split: option.splits)
  qed
qed

lemma runner_step_invariant:
  assumes "agent_invariant good n"
  shows "agent_invariant good (runner_step api sys now n)"
proof (cases "ag_queue (nd_agent n)")
  case Nil
  then show ?thesis using assms by (simp add: runner_step_def)
next
  case (Cons act rest)
  let ?n = "n\<lparr>nd_agent := (nd_agent n)\<lparr>ag_queue := rest\<rparr>\<rparr>"
  obtain n' err where r: "run_action api sys now act ?n = (n', err)" by (rule prod.exhaust)
  have good: "good (nd_backend ?n)" using assms by (simp add: agent_invariant_def)
  have "keeps ?n n'"
  proof (cases act)
    case (Start t)
    with r show ?thesis by (intro agent_start_keeps [OF good]) (simp add: run_action_def)
  next
    case (Stop t)
    with r show ?thesis by (intro agent_stop_keeps [OF good]) (simp add: run_action_def)
  qed
  moreover have "runner_step api sys now n = n'" using r by (simp add: runner_step_Cons [OF Cons])
  ultimately show ?thesis using assms Cons by (simp add: agent_invariant_def intact_def entries_known_def)
qed

section \<open>The invariant\<close>

lemma agent_sync_invariant:
  assumes "agent_invariant good n"
  shows "\<exists>n'. agent_sync api sys bindable now n = Returns n' \<and> agent_invariant good n'"
proof -
  have good: "good (nd_backend n)" using assms by (simp add: agent_invariant_def)
  show ?thesis
  proof (cases "ListTasks api (agent_query (nd_agent n)) (nd_backend n)")
    case (Ok ts)
    then show ?thesis
      using sync_tasks_invariant [OF assms, of ts sys bindable now] ListTasks_fine [OF good Ok] by (simp add: agent_sync_def)
  qed (use ListTasks_returns [OF good] assms in \<open>simp_all add: agent_sync_def\<close>)
qed

lemma PublishState_invariant:
  assumes "agent_invariant good n"
  shows "\<exists>n'. PublishState api ord f n = Returns n' \<and> agent_invariant good n'"
  using assms PublishState_known [of n api ord f] PutHost_keeps
  by (simp add: agent_invariant_def Let_def entries_known_def)

lemma agent_step_invariant:
  assumes "agent_invariant good n"
  shows "\<exists>n'. agent_step api sys bindable ord f now ev n = Returns n' \<and> agent_invariant good n'"
proof -
  obtain n1 where n1: "agent_sync api sys bindable now n = Returns n1" "agent_invariant good n1"
    using agent_sync_invariant [OF assms, of sys bindable now] by blast
  then show ?thesis using PublishState_invariant [OF n1(2), of ord f] by (auto simp: agent_step_def)
qed

lemma agent_run_invariant: "agent_run good api sys bindable n n' \<Longrightarrow> agent_invariant good n \<Longrightarrow> agent_invariant good n'"
proof (induction rule: agent_run.induct)
  case (looped n1 ord f now ev n2)
  then show ?case using agent_step_invariant [of n1 sys bindable ord f now ev] by auto
next
  case (others_wrote n1 b)
  then show ?case by (simp add: agent_invariant_def entries_known_def)
qed (simp_all add: runner_step_invariant)

end

text \<open>Whoever keeps the laws of \<open>agent_backend\<close> has what an agent needs at least.\<close>

sublocale agent_backend \<subseteq> store: agent_store good api fine
proof
  fix b ag ts u how
  assume good: "good b"
  obtain us where us: "ListTasks api (agent_query ag) b = Ok us" "set us \<subseteq> ran (tasks b)"
    using ListTasks_selects [OF good, of "agent_query ag"] by (auto simp: agent_query_def any_task_def)
  then show "ListTasks api (agent_query ag) b \<noteq> Stops how" by simp
  show "ListTasks api (agent_query ag) b = Ok ts \<Longrightarrow> u \<in> set ts \<Longrightarrow> fine u"
    using us tasks_fine [OF good] by (auto simp: ran_def)
qed (simp_all add: writes_good fine_rejected GetTaskState_reports GetDeployment_answers)

end
