(* ===== verification/Agent_Properties.thy ===== *)
theory Agent_Properties
  imports Agent_Turns Example_Cluster
begin

text \<open>
  The properties of the agent on the in-memory backend, each applied to an agent of the example cluster
  whose machine logs its commands.
\<close>

section \<open>The agent of the examples\<close>

text \<open>A container that bash can start, a task made of it, with or without a check, and its agent.\<close>

definition run_container :: "check list \<Rightarrow> container" where
  "run_container chs = ex_container\<lparr>ct_Executor := Some (JObj [(''start'', JStr ''run'')]), ct_Checks := chs\<rparr>"

definition run_task :: "check list \<Rightarrow> task" where
  "run_task chs = (ex_task 1 0)\<lparr>tk_TaskDefinition := (ex_definition 1)\<lparr>td_Containers := [run_container chs]\<rparr>\<rparr>"

definition run_check :: check where
  "run_check = \<lparr>ch_ID = '''', ch_Name = '''', ch_HTTP = ''http://'', ch_TCP = '''', ch_Script = '''', ch_Interval = 1,
     ch_Timeout = 1, ch_Docker = ''''\<rparr>"

definition run_figures :: figures where
  "run_figures = \<lparr>fg_memory = 0, fg_disk = 0, fg_cpus = 1\<rparr>"

definition run_agent :: agent where
  "run_agent = (NewAgent run_figures \<lparr>ac_Runners = 1, ac_SyncInterval = second, ac_Resources = Some (box 1000), ac_Cluster = ''c'',
     ac_Address = '''', ac_Advertise = ''''\<rparr>)\<lparr>ag_Host := ''h''\<rparr>"

definition run_node :: "task \<Rightarrow> (mock, exec_command list) node" where
  "run_node t = \<lparr>nd_agent = run_agent,
     nd_backend = NewMockApi\<lparr>mk_tasks := [(task_ID t, t)], mk_deployments := [(''d'', ex_deployment 1)]\<rparr>, nd_machine = []\<rparr>"

definition run_ports :: "uint \<Rightarrow> exec_command list \<Rightarrow> bool" where
  "run_ports p w = True"

lemma run_agent_fields [simp]:
  "ag_Host run_agent = ''h''" "ag_queue run_agent = []" "ag_TaskState run_agent = []" "ac_Cluster (ag_Config run_agent) = ''c''"
  "ag_LastState run_agent = None"
  by (simp_all add: run_agent_def NewAgent_def config_defaults_def Let_def)

lemma run_task_fields [simp]:
  "tk_Host (run_task chs) = ''h''" "tk_Cluster (run_task chs) = ''c''" "tk_Deployment (run_task chs) = ''d''"
  "tk_Scheduled (run_task chs)" "\<not> tk_Rejected (run_task chs)"
  "td_GracePeriod (tk_TaskDefinition (run_task chs)) = 60 * second" "AllPorts (tk_TaskDefinition (run_task chs)) = []"
  "td_Containers (tk_TaskDefinition (run_task chs)) = [run_container chs]"
  "HasChecks (run_task chs) \<longleftrightarrow> chs \<noteq> []"
  by (simp_all add: run_task_def run_container_def HasChecks_def ex_task_def NewTask_def ex_cluster_def ex_deployment_def
      ex_definition_def AllPorts_def ex_container_def)

lemma run_node_fields [simp]:
  "nd_agent (run_node t) = run_agent" "nd_machine (run_node t) = []"
  "mk_tasks (nd_backend (run_node t)) = [(task_ID t, t)]"
  "mk_deployments (nd_backend (run_node t)) = [(''d'', ex_deployment 1)]" "mk_health (nd_backend (run_node t)) = []"
  "mock_good (nd_backend (run_node t))"
  by (simp_all add: run_node_def NewMockApi_def mock_good_def keyed_by_def ex_deployment_def)

lemma run_executor: "GetExecutor (run_container chs) = Some (Bash (zero_bash\<lparr>ba_Start := ''run''\<rparr>))"
  by (simp add: GetExecutor_def run_container_def ExecutorBuilders_def ex_container_def decode_struct_def lower_def
      bash_field_def decode_string_def)

lemma run_task_runnable [simp]: "runnable (run_task chs)"
  by (simp add: runnable_def run_executor)

lemma reliable_log [simp]: "reliable log_system"
  by (simp add: reliable_def log_system_def)

lemma entry_of_run_node [simp]:
  "te_StartedAt (entry_of t (run_node u)) = 0" "te_Attempts (entry_of t (run_node u)) = 0"
  by (simp_all add: entry_of_new new_entry_def)

section \<open>Starting what is scheduled\<close>

text \<open>
  On the backend in memory a task of the host that is scheduled, not rejected and new to the agent is running after one sync
  and the work of the runners, if its deployment is stored, its ports are free and its commands succeed.
\<close>

theorem scheduled_task_started:
  assumes "mock_good (nd_backend n)" and "ag_queue (nd_agent n) = []"
    and "lookup (mk_tasks (nd_backend n)) k = Some t"
    and "tk_Host t = ag_Host (nd_agent n)" and "tk_Cluster t = ac_Cluster (ag_Config (nd_agent n))"
    and "tk_Scheduled t" and "\<not> tk_Rejected t"
    and "lookup (ag_TaskState (nd_agent n)) k = None" and "lookup (mk_health (nd_backend n)) k = None"
    and "lookup (mk_deployments (nd_backend n)) (tk_Deployment t) = Some d" and "0 \<le> dp_MaxAttempts d"
    and "td_GracePeriod (tk_TaskDefinition t) \<le> now"
    and "\<forall>p \<in> set (AllPorts (tk_TaskDefinition t)). p \<le> 65535 \<and> (\<forall>w. bindable p w)"
    and "reliable sys" and "runnable t"
    and "card {u \<in> ran (lookup (mk_tasks (nd_backend n))). selects (agent_query (nd_agent n)) PENDING u} \<le> 500"
  shows "\<exists>n'. agent_sync (mock_api ord) sys bindable now n = Returns n' \<and>
    lookup (mk_health (nd_backend ((runner_step (mock_api ord) sys later ^^ length (ag_queue (nd_agent n'))) n'))) k = Some STARTED"
proof -
  let ?states = "\<lambda>a k. case lookup (mk_health a) k of None \<Rightarrow> '''' | Some s \<Rightarrow> s"
  let ?reports = "\<lambda>a t. case lookup (mk_health a) (task_ID t) of None \<Rightarrow> '''' | Some s \<Rightarrow> s"
  have k: "k = task_ID t" using assms(1,3) by (auto simp: mock_good_def dest: keyed_by_lookup)
  have "ready (mock_api ord) ?reports bindable now t n"
    using assms(3-13) k
    by (auto simp: ready_def entry_of_new new_entry_def due_def mock_api_def mock_get_defs Healthy_def task_state_defs)
  moreover have "selects (agent_query (nd_agent n)) PENDING t"
    using assms(4,5) by (simp add: selects_def agent_query_def any_task_def)
  ultimately show ?thesis
    using mock_agent.ready_task_started [OF assms(1,2), of t ord bindable now sys later] assms(3,14-16) k
    by (auto simp: task_state_defs split: option.splits)
qed

theorem scheduled_task_started_witness:
  "\<exists>n'. agent_sync (mock_api listed_order) log_system run_ports (60 * second) (run_node (run_task [])) = Returns n' \<and>
    lookup (mk_health (nd_backend ((runner_step (mock_api listed_order) log_system 0 ^^ length (ag_queue (nd_agent n'))) n')))
      (task_ID (run_task [])) = Some STARTED"
  by (rule scheduled_task_started [where t = "run_task []" and d = "ex_deployment 1"])
    (simp_all add: run_ports_def ex_deployment_def selects_def agent_query_def any_task_def Collect_conv_if)

section \<open>What the agent keeps\<close>

text \<open>
  On the backend in memory, however its loop, its runners and the writes of others take turns, the agent
  never panics and never gets stuck: from every state it reaches the next turn of the loop ends, and its queue never holds more than 500 actions.
\<close>

theorem agent_never_panics:
  assumes "agent_run mock_good (mock_api ord) sys bindable n n'"
    and "mock_good (nd_backend n)" and "entries_known n" and "ag_queue (nd_agent n) = []"
  shows "(\<exists>n''. agent_step (mock_api ord) sys bindable ord' f now ev n' = Returns n'') \<and>
    length (ag_queue (nd_agent n')) \<le> 500"
proof -
  have inv: "agent_invariant mock_good n'"
    using mock_agent.store.agent_run_invariant [OF assms(1)] assms(2-4) by (simp add: agent_invariant_def)
  show ?thesis
    using mock_agent.store.agent_step_invariant [OF inv, of ord sys bindable ord' f now ev] inv
    by (auto simp: agent_invariant_def)
qed

theorem agent_never_panics_witness:
  "\<exists>n n'. agent_step (mock_api listed_order) log_system run_ports listed_order run_figures 0 Timeout (run_node (run_task [])) = Returns n \<and>
    agent_step (mock_api listed_order) log_system run_ports listed_order run_figures 0 StateEvent n = Returns n' \<and>
    length (ag_queue (nd_agent n)) \<le> 500"
proof -
  have p: "mock_good (nd_backend (run_node (run_task [])))" "entries_known (run_node (run_task []))"
      "ag_queue (nd_agent (run_node (run_task []))) = []" by (simp_all add: entries_known_def)
  obtain n where n: "agent_step (mock_api listed_order) log_system run_ports listed_order run_figures 0 Timeout (run_node (run_task [])) = Returns n"
    using agent_never_panics [OF agent_run.begun p] by blast
  from agent_never_panics [OF agent_run.looped [OF agent_run.begun n] p] n show ?thesis by blast
qed

text \<open>
  On the backend in memory the agent starts a task only with good reason: it is scheduled and not rejected, its deployment is
  stored, it is not being started already, it has been left alone for its grace period, it has attempts
  left, and all its ports can be bound. The entry then says that it is starting.
\<close>

theorem start_justified:
  assumes "syncTask (mock_api ord) sys bindable now t n = Returns (n', Some (Start u))" and "mock_good (nd_backend n)"
  shows "u = t \<and> tk_Scheduled t \<and> \<not> tk_Rejected t \<and> lookup (mk_health (nd_backend n)) (task_ID t) \<noteq> Some STARTING \<and>
    te_StartedAt (entry_of t n) + td_GracePeriod (tk_TaskDefinition t) \<le> now \<and>
    (\<exists>d. lookup (mk_deployments (nd_backend n)) (tk_Deployment t) = Some d \<and>
      (\<not> (\<exists>st. lookup (mk_health (nd_backend n)) (task_ID t) = Some st \<and> Healthy st) \<longrightarrow> te_Attempts (entry_of t n) \<le> dp_MaxAttempts d)) \<and>
    (\<forall>p \<in> set (AllPorts (tk_TaskDefinition t)). p \<le> 65535 \<and> bindable p (nd_machine n')) \<and>
    (\<exists>e. lookup (ag_TaskState (nd_agent n')) (task_ID t) = Some e \<and> te_State e = STARTING \<and> te_StartedAt e = now)"
  using mock_agent.start_reasons [OF assms]
  by (auto simp: mock_api_def mock_get_defs task_state_defs split: option.splits)

lemma run_start:
  "\<exists>n'. syncTask (mock_api listed_order) log_system run_ports (60 * second) (run_task chs) (run_node (run_task chs)) =
    Returns (n', Some (Start (run_task chs)))"
  by (rule mock_agent.syncTask_ready)
    (auto simp: ready_def due_def run_ports_def mock_api_def mock_get_defs Healthy_def task_state_defs ex_deployment_def)

theorem start_justified_witness:
  "\<exists>d. lookup (mk_deployments (nd_backend (run_node (run_task [])))) ''d'' = Some d \<and> 0 \<le> dp_MaxAttempts d"
proof -
  obtain n' where "syncTask (mock_api listed_order) log_system run_ports (60 * second) (run_task []) (run_node (run_task [])) =
    Returns (n', Some (Start (run_task [])))" using run_start by blast
  from start_justified [OF this] show ?thesis by simp
qed

section \<open>Stopping\<close>

text \<open>
  On the backend in memory a stop that succeeds removes the task, from the backend and from the agent; a stop that fails
  keeps both, so that a later sync stops it again. No other task is touched.
\<close>

theorem stop_outcome:
  assumes "agent_stop (mock_api ord) sys t n = (n', err)" and "mock_good (nd_backend n)"
  shows "lookup (mk_tasks (nd_backend n')) =
      (if err = None then (lookup (mk_tasks (nd_backend n)))(task_ID t := None) else lookup (mk_tasks (nd_backend n))) \<and>
    lookup (ag_TaskState (nd_agent n')) =
      (if err = None then (lookup (ag_TaskState (nd_agent n)))(task_ID t := None) else lookup (ag_TaskState (nd_agent n))) \<and>
    lookup (mk_health (nd_backend n')) (task_ID t) = Some (if err = None then STOPPED else STOPPING)"
  using mock_agent.stop_ends [OF assms] by (auto simp: task_state_defs split: option.splits if_splits)

theorem stop_outcome_witness:
  "\<exists>n' err. agent_stop (mock_api listed_order) log_system (run_task []) (run_node (run_task [])) = (n', err) \<and>
    lookup (mk_health (nd_backend n')) (task_ID (run_task [])) = Some (if err = None then STOPPED else STOPPING)"
proof -
  obtain n' err where "agent_stop (mock_api listed_order) log_system (run_task []) (run_node (run_task [])) = (n', err)"
    by (rule prod.exhaust)
  from stop_outcome [OF this] this show ?thesis by auto
qed

text \<open>
  On the backend in memory a task whose deployment was deleted is never stopped: a sync marks it rejected and leaves it as it
  is, whether it is still scheduled or not. The garbage collection unschedules just such tasks.
\<close>

theorem orphan_never_stopped:
  assumes "mock_good (nd_backend n)" and "lookup (mk_deployments (nd_backend n)) (tk_Deployment t) = None"
  shows "\<exists>n' u. syncTask (mock_api ord) sys bindable now t n = Returns (n', None) \<and>
    lookup (mk_tasks (nd_backend n')) (task_ID t) = Some u \<and> tk_Rejected u \<and> tk_Scheduled u = tk_Scheduled t \<and>
    ag_queue (nd_agent n') = ag_queue (nd_agent n)"
  using mock_agent.orphan_rejected [OF assms(1) TrueI] assms(2) by (simp add: mock_api_def mock_get_defs)

theorem orphan_never_stopped_witness:
  "\<exists>n'. syncTask (mock_api listed_order) log_system run_ports 0 ((run_task [])\<lparr>tk_Scheduled := False, tk_Deployment := ''gone''\<rparr>)
    (run_node (run_task [])) = Returns (n', None)"
  using orphan_never_stopped [where n = "run_node (run_task [])" and t = "(run_task [])\<lparr>tk_Scheduled := False, tk_Deployment := ''gone''\<rparr>"
      and ord = listed_order and sys = log_system and bindable = run_ports and now = 0] by auto

section \<open>Starts that fail, starts that are repeated\<close>

lemma no_docker_check:
  assumes "\<forall>c \<in> set cs. ct_Essential c \<longrightarrow> (\<forall>d. GetExecutor c \<noteq> Some (Docker d))"
  shows "check_running api sys t cs st n = (st, n)"
  using assms
proof (induction cs arbitrary: n)
  case (Cons c cs)
  show ?case
  proof (cases "if ct_Essential c then GetExecutor c else None")
    case (Some ex)
    then obtain b where "ex = Bash b" using Cons.prems by (cases ex) (auto split: if_splits)
    then show ?thesis using Cons Some by (simp add: IsRunning_def bash_IsRunning_def)
  qed (use Cons in simp)
qed simp

text \<open>
  A start that fails is not tried again: the task stays in the state starting, and no later sync
  starts or rejects it, as long as no essential container of it is one of docker's.
\<close>

theorem failed_start_not_retried:
  assumes "agent_start (mock_api ord) sys now t n = (n', Some err)" and "mock_good (nd_backend n)"
    and "\<forall>c \<in> set (td_Containers (tk_TaskDefinition t)). ct_Essential c \<longrightarrow> (\<forall>d. GetExecutor c \<noteq> Some (Docker d))"
    and "tk_Scheduled t" and "lookup (mk_deployments (nd_backend n)) (tk_Deployment t) \<noteq> None"
  shows "lookup (mk_health (nd_backend n')) (task_ID t) = Some STARTING \<and>
    (\<exists>n''. syncTask (mock_api ord) sys bindable later t n' = Returns (n'', None) \<and> nd_backend n'' = nd_backend n')"
proof -
  let ?states = "\<lambda>a k. case lookup (mk_health a) k of None \<Rightarrow> '''' | Some s \<Rightarrow> s"
  note ends = mock_agent.agent_start_ends [OF assms(2,1)]
  have good: "mock_good (nd_backend n')" and st: "?states (nd_backend n') (task_ID t) = STARTING"
    using ends by (simp_all add: only_task_def)
  have "GetDeployment (mock_api ord) (tk_Deployment t) (nd_backend n') = GetDeployment (mock_api ord) (tk_Deployment t) (nd_backend n)"
    using ends by (simp add: only_task_def)
  then obtain d where d: "GetDeployment (mock_api ord) (tk_Deployment t) (nd_backend n') = Ok d"
    using assms(5) by (auto simp: mock_api_def mock_get_defs split: option.splits)
  have c: "mock_agent.checked ord sys t n' =
      (STARTING, set_entry (task_ID t) (sync_entry STARTING) (touch_entry t n'))"
    using no_docker_check [OF assms(3)] st by (simp add: mock_agent.checked_def Let_def)
  have "\<not> wants_start t (seen STARTING t n') STARTING" by (simp add: wants_start_def)
  then have "syncTask (mock_api ord) sys bindable later t n' =
      Returns (set_entry (task_ID t) (sync_entry STARTING) (touch_entry t n'), None)"
    using mock_agent.syncTask_decides [OF good c d, of bindable later] st assms(4) by simp
  moreover have "lookup (mk_health (nd_backend n')) (task_ID t) = Some STARTING"
    using st by (auto simp: task_state_defs split: option.splits)
  ultimately show ?thesis by simp
qed

text \<open>A machine on which nothing can be started.\<close>

definition broken :: "exec_command list system" where
  "broken c w = (Some (OtherError ''exec failed''), w)"

theorem failed_start_not_retried_witness:
  "\<exists>n' err. agent_start (mock_api listed_order) broken 0 (run_task []) (run_node (run_task [])) = (n', Some err) \<and>
    lookup (mk_health (nd_backend n')) (task_ID (run_task [])) = Some STARTING"
proof -
  have docker: "\<forall>c \<in> set (td_Containers (tk_TaskDefinition (run_task []))). ct_Essential c \<longrightarrow> (\<forall>d. GetExecutor c \<noteq> Some (Docker d))"
    by (simp add: run_executor)
  have "GetExecutor (run_container []) = Some (Bash (zero_bash\<lparr>ba_Start := ''run''\<rparr>))" by (rule run_executor)
  then have "snd (agent_start (mock_api listed_order) broken 0 (run_task []) (run_node (run_task []))) = Some (OtherError ''exec failed'')"
    by (simp add: agent_start_def mock_agent.put_state Let_def StartTask_def bash_StartTask_def Exec_def broken_def on_machine_def
        zero_bash_def split: prod.split)
  then obtain n' where s: "agent_start (mock_api listed_order) broken 0 (run_task []) (run_node (run_task [])) = (n', Some (OtherError ''exec failed''))"
    by (metis prod.collapse)
  from failed_start_not_retried [OF s _ docker] s show ?thesis by simp
qed

text \<open>
  A task without health checks is not left running: once its start has succeeded and its grace
  period is over, the next sync starts it again, or rejects it because one of its ports is taken, by
  itself as a rule.
\<close>

theorem running_task_restarted:
  assumes "agent_start (mock_api ord) sys now t n = (n', None)" and "mock_good (nd_backend n)"
    and "\<not> HasChecks t" and "tk_Scheduled t" and "\<not> tk_Rejected t"
    and "lookup (mk_deployments (nd_backend n)) (tk_Deployment t) = Some d" and "0 \<le> dp_MaxAttempts d"
    and "now + td_GracePeriod (tk_TaskDefinition t) \<le> later"
  shows "\<exists>n'' act. syncTask (mock_api ord) sys bindable later t n' = Returns (n'', act) \<and>
    (act = Some (Start t) \<or> (\<exists>u. lookup (mk_tasks (nd_backend n'')) (task_ID t) = Some u \<and> tk_Rejected u))"
proof -
  let ?states = "\<lambda>a k. case lookup (mk_health a) k of None \<Rightarrow> '''' | Some s \<Rightarrow> s"
  note ends = mock_agent.agent_start_ends [OF assms(2,1)]
  have good: "mock_good (nd_backend n')" and st: "?states (nd_backend n') (task_ID t) = STARTED"
    using ends by (simp_all add: only_task_def)
  have "GetDeployment (mock_api ord) (tk_Deployment t) (nd_backend n') = GetDeployment (mock_api ord) (tk_Deployment t) (nd_backend n)"
    using ends by (simp add: only_task_def)
  then have d: "GetDeployment (mock_api ord) (tk_Deployment t) (nd_backend n') = Ok d"
    using assms(6) by (simp add: mock_api_def mock_get_defs)
  have e: "entry_of t n' = attempted now None (entry_of t n)"
    using ends entry_of_known [of t n] by (intro entry_of_entry) simp_all
  obtain s2 n2 where c: "mock_agent.checked ord sys t n' = (s2, n2)" by (metis surj_pair)
  then have good2: "mock_good (nd_backend n2)" using mock_agent.checked_confined [OF c good] by (simp add: only_task_def)
  let ?e = "seen STARTED t n'"
  have w: "wants_start t ?e s2" using assms(3-5) by (simp add: wants_start_def)
  have run: "syncTask (mock_api ord) sys bindable later t n' = Returns (decide_start (mock_api ord) bindable later d t ?e n2)"
    using mock_agent.syncTask_decides [OF good c d, of bindable later] st w by simp
  show ?thesis
  proof (cases "due bindable later d t ?e (nd_machine n2)")
    case True
    then show ?thesis using run by (simp add: decide_start_due)
  next
    case False
    have "\<not> later < te_StartedAt ?e + td_GracePeriod (tk_TaskDefinition t)" using assms(8) e by simp
    then obtain reason where "decide_start (mock_api ord) bindable later d t ?e n2 = (reject (mock_api ord) reason t n2, None)"
      using decide_start_not_due [OF False, of "mock_api ord"] by auto
    then show ?thesis using run mock_agent.reject_backend [OF good2, of ord reason t] by simp
  qed
qed

theorem running_task_restarted_witness:
  "\<exists>n'. agent_start (mock_api listed_order) log_system 0 (run_task []) (run_node (run_task [])) = (n', None) \<and>
    (\<exists>n'' act. syncTask (mock_api listed_order) log_system run_ports (60 * second) (run_task []) n' = Returns (n'', act))"
proof -
  obtain n' where s: "agent_start (mock_api listed_order) log_system 0 (run_task []) (run_node (run_task [])) = (n', None)"
    using mock_agent.agent_start_reliable [of "run_node (run_task [])" log_system "run_task []" listed_order 0]
    by (metis prod.collapse reliable_log run_task_runnable run_node_fields(6))
  from running_task_restarted [OF s, of "ex_deployment 1" "60 * second" run_ports] s show ?thesis by (auto simp: ex_deployment_def)
qed

section \<open>What the agent publishes\<close>



section \<open>Containers of one task\<close>

text \<open>
  Two docker containers of one task run under one name, the identifier of the task: the start of
  the second first removes the first.
\<close>

theorem containers_share_name:
  assumes "mock_good (nd_backend n)" and "td_Containers (tk_TaskDefinition t) = [c1, c2]"
    and "GetExecutor c1 = Some (Docker d1)" and "GetExecutor c2 = Some (Docker d2)"
  shows "\<exists>pull1 remove1 run1 pull2 remove2 run2.
    nd_machine (fst (agent_start (mock_api ord) log_system now t n)) =
      nd_machine n @ map shell (ct_Setup c1) @ [pull1, remove1, run1] @ map shell (ct_Setup c2) @ [pull2, remove2, run2] \<and>
    take 3 (cm_args run1) = [''run'', ''--name'', task_ID t] \<and> cm_main remove2 = ''docker'' \<and>
    cm_args remove2 = [''rm'', ''-f'', task_ID t] \<and> take 3 (cm_args run2) = [''run'', ''--name'', task_ID t]"
proof -
  have start: "StartTask log_system (Docker d) t c w = (None, w @
     [\<lparr>cm_env = do_Env d, cm_timeout = executorDockerPullTimeout, cm_main = ''docker'', cm_args = [''pull'', do_Image d]\<rparr>,
      \<lparr>cm_env = do_Env d, cm_timeout = 5 * second, cm_main = ''docker'', cm_args = [''rm'', ''-f'', task_ID t]\<rparr>,
      \<lparr>cm_env = do_Env d, cm_timeout = td_GracePeriod (tk_TaskDefinition t), cm_main = ''docker'', cm_args = docker_run_args d t c\<rparr>])" for d c w
    by (simp add: StartTask_def docker_StartTask_def Exec_def log_system_def)
  have args: "take 3 (docker_run_args d t c) = [''run'', ''--name'', task_ID t]" for d c by (simp add: docker_run_args_def)
  have "mock_good (nd_backend (with_backend (\<lambda>b. fst (PutTaskState (mock_api ord) (task_ID t) STARTING b)) n))"
    using assms(1) by (simp add: mock_agent.PutTaskState_good)
  then show ?thesis
    using assms(2-4) args
    by (simp add: agent_start_def mock_agent.put_state [OF assms(1)] Let_def on_machine_def start RunSetup_def)
qed

definition docker_task :: task where
  "docker_task = (run_task [])\<lparr>tk_TaskDefinition := (ex_definition 1)\<lparr>td_Containers :=
     [ex_container\<lparr>ct_Type := ''docker'', ct_Executor := Some (JObj [])\<rparr>, ex_container\<lparr>ct_Type := ''docker'', ct_Executor := Some JNull\<rparr>]\<rparr>\<rparr>"

theorem containers_share_name_witness:
  "\<exists>pull1 remove1 run1 pull2 remove2 run2.
    nd_machine (fst (agent_start (mock_api listed_order) log_system 0 docker_task (run_node (run_task [])))) =
      [pull1, remove1, run1, pull2, remove2, run2] \<and> cm_args remove2 = [''rm'', ''-f'', task_ID docker_task]"
proof -
  have e: "GetExecutor (ex_container\<lparr>ct_Type := ''docker'', ct_Executor := Some (JObj [])\<rparr>) = Some (Docker zero_docker)"
      "GetExecutor (ex_container\<lparr>ct_Type := ''docker'', ct_Executor := Some JNull\<rparr>) = Some (Docker zero_docker)"
    by (simp_all add: GetExecutor_def ExecutorBuilders_def decode_struct_def)
  have "td_Containers (tk_TaskDefinition docker_task) =
     [ex_container\<lparr>ct_Type := ''docker'', ct_Executor := Some (JObj [])\<rparr>, ex_container\<lparr>ct_Type := ''docker'', ct_Executor := Some JNull\<rparr>]"
    by (simp add: docker_task_def)
  from containers_share_name [OF _ this e, where n = "run_node (run_task [])" and ord = listed_order and now = 0]
  show ?thesis by (auto simp: ex_container_def)
qed

end
