(* ===== verification/Cluster_Properties.thy ===== *)
theory Cluster_Properties
  imports Master_Properties Agent_Properties
begin

text \<open>
  The system as a whole on the in-memory backend: what the master and the scheduler decide, the agents of
  the hosts carry out.
\<close>

section \<open>From a request to a running task\<close>

text \<open>
  After the master has run the requests for some deployments, one sync of the agent of a host and the
  work of its runners start every task of these deployments that was put on that host, if the agent is new,
  the commands of the tasks succeed and their ports are free; the host is one the scheduler knows.
\<close>

theorem requested_tasks_started:
  assumes "run_requests (mock_api ord) mock_locks ch reqs (Master_Run_setup m (NewMaster conf), b) = Returns (s', b')"
    and "mock_good b" and "c \<noteq> ''''" and "lookup (mk_clusters b) c \<noteq> None"
    and "\<exists>h \<in> ran (lookup (mk_hosts b)). \<not> ho_Draining h"
    and "\<forall>r \<in> set reqs. rq_cluster r = c \<and> rq_service r \<noteq> '''' \<and>
      (\<exists>d. lookup (mk_deployments b) (rq_service r) = Some d \<and> dp_Scheduler d \<in> {'''', ''spread'', ''binpack''} \<and>
        lookup (mk_taskDefinitions b) (dp_TaskName d) \<noteq> None \<and> 0 \<le> dp_MaxAttempts d)"
    and "nd_backend n = b'" and "ag_queue (nd_agent n) = []" and "ag_TaskState (nd_agent n) = []"
    and "ac_Cluster (ag_Config (nd_agent n)) = c" and "lookup (mk_health b') k = None"
    and "lookup (mk_tasks b') k = Some t" and "tk_Cluster t = c" and "tk_Deployment t \<in> rq_service ` set reqs"
    and "tk_Scheduled t" and "tk_Host t = ag_Host (nd_agent n)"
    and "td_GracePeriod (tk_TaskDefinition t) \<le> now" and "runnable t" and "reliable sys"
    and "\<forall>p \<in> set (AllPorts (tk_TaskDefinition t)). p \<le> 65535 \<and> (\<forall>w. bindable p w)"
    and "card {u \<in> ran (lookup (mk_tasks b')). selects (agent_query (nd_agent n)) PENDING u} \<le> 500"
  shows "\<exists>n' sked h. agent_sync (mock_api ord) sys bindable now n = Returns n' \<and>
    lookup (mk_health (nd_backend ((runner_step (mock_api ord) sys later ^^ length (ag_queue (nd_agent n'))) n'))) k = Some STARTED \<and>
    Schedulers_Get '''' (ms_schedulers s') = Some (m, sked) \<and> lookup (ds_hosts sked) (ag_Host (nd_agent n)) = Some h"
proof -
  let ?names = "{'''', ''spread'', ''binpack''}"
  let ?states = "\<lambda>a k. case lookup (mk_health a) k of None \<Rightarrow> '''' | Some s \<Rightarrow> s"
  let ?reports = "\<lambda>a t. case lookup (mk_health a) (task_ID t) of None \<Rightarrow> '''' | Some s \<Rightarrow> s"
  have "\<forall>r \<in> set reqs. configured c ?names b r" using assms(6) by (auto simp: configured_def)
  then have "between c m ?names b ({} \<union> rq_service ` set reqs) (s', b')"
    by (rule run_requests_between [OF assms(1) between_setup [OF assms(2)] _ assms(3,4,2,5)])
  then obtain sked where good: "mock_good b'" and same: "same_config b' b"
    and sked: "one_object m ?names sked (ms_schedulers s')" "settled c (rq_service ` set reqs) sked b'"
    by (auto simp: between_def)
  then have "in_place sked t" using assms(12-15) by (auto simp: settled_def)
  then obtain h where host: "lookup (ds_hosts sked) (ag_Host (nd_agent n)) = Some h" and rejected: "\<not> tk_Rejected t"
    using assms(16) by (auto simp: in_place_def host_gone_def)
  obtain d where d: "lookup (mk_deployments b') (tk_Deployment t) = Some d" "0 \<le> dp_MaxAttempts d"
    using assms(6,14) same_config_lookup(1) [OF same] by auto
  have k: "task_ID t = k" using good assms(12) by (auto simp: mock_good_def dest: keyed_by_lookup)
  have "ready (mock_api ord) ?reports bindable now t n"
    using assms(7-11,15,17,20) rejected d k
    by (auto simp: ready_def entry_of_new new_entry_def due_def mock_api_def mock_get_defs Healthy_def task_state_defs)
  moreover have "selects (agent_query (nd_agent n)) PENDING t"
    using assms(10,13,16) by (simp add: selects_def agent_query_def any_task_def)
  ultimately obtain n' where "agent_sync (mock_api ord) sys bindable now n = Returns n'"
      "?states (nd_backend ((runner_step (mock_api ord) sys later ^^ length (ag_queue (nd_agent n'))) n')) k = STARTED"
    using mock_agent.ready_task_started [of n t ord bindable now sys later] good assms(7,8,12,18,19,21) k by auto
  then show ?thesis
    using sked(1) host by (auto simp: one_object_def Schedulers_Get_def task_state_defs split: option.splits)
qed

section \<open>An example\<close>

text \<open>The cluster of the examples, with a container that bash can start.\<close>

definition live_definition :: task_definition where
  "live_definition = (ex_definition 1)\<lparr>td_Containers := [run_container []]\<rparr>"

definition live_stored :: mock where
  "live_stored = (ex_stored [])\<lparr>mk_taskDefinitions := [(''t'', live_definition)]\<rparr>"

definition live_ran :: "mock_lock master \<times> mock" where
  "live_ran = (case run_requests (mock_api listed_order) mock_locks (\<lambda>_. ex_choices) [\<lparr>rq_cluster = ''c'', rq_service = ''d''\<rparr>]
     (ex_master, live_stored) of Returns r \<Rightarrow> r | _ \<Rightarrow> (ex_master, live_stored))"

lemmas live_eval = live_ran_def live_stored_def live_definition_def run_container_def ex_master_eval

lemma live_ran_returns:
  "run_requests (mock_api listed_order) mock_locks (\<lambda>_. ex_choices) [\<lparr>rq_cluster = ''c'', rq_service = ''d''\<rparr>]
     (ex_master, live_stored) = Returns live_ran"
  by (simp add: live_eval)

lemma live_ran_tasks:
  "map (\<lambda>(k, t). (k, tk_Cluster t, tk_Deployment t, tk_Scheduled t, tk_Host t)) (mk_tasks (snd live_ran)) =
    [(''c-d-1-0'', ''c'', ''d'', True, ''h''), (''c-d-1-1'', ''c'', ''d'', True, ''h'')]"
  "map (\<lambda>(k, t). tk_TaskDefinition t) (mk_tasks (snd live_ran)) = [live_definition, live_definition]"
  "mk_health (snd live_ran) = []"
  by (simp_all add: live_eval)

lemma live_definition_fields [simp]:
  "td_GracePeriod live_definition = 60 * second" "AllPorts live_definition = []" "td_Containers live_definition = [run_container []]"
  by (simp_all add: live_definition_def run_container_def ex_definition_def AllPorts_def ex_container_def)

definition live_node :: "(mock, exec_command list) node" where
  "live_node = \<lparr>nd_agent = run_agent, nd_backend = snd live_ran, nd_machine = []\<rparr>"

theorem requested_tasks_started_witness:
  "\<exists>n'. agent_sync (mock_api listed_order) log_system run_ports (60 * second) live_node = Returns n' \<and>
    lookup (mk_health (nd_backend ((runner_step (mock_api listed_order) log_system 0 ^^ length (ag_queue (nd_agent n'))) n'))) ''c-d-1-1'' = Some STARTED"
proof -
  obtain t0 t where ts: "mk_tasks (snd live_ran) = [(''c-d-1-0'', t0), (''c-d-1-1'', t)]"
    using live_ran_tasks(1) by (auto simp: map_eq_Cons_conv)
  then have t: "tk_Cluster t = ''c''" "tk_Deployment t = ''d''" "tk_Scheduled t" "tk_Host t = ''h''" "tk_TaskDefinition t = live_definition"
    using live_ran_tasks(1,2) by simp_all
  have run: "run_requests (mock_api listed_order) mock_locks (\<lambda>_. ex_choices) [\<lparr>rq_cluster = ''c'', rq_service = ''d''\<rparr>]
      (Master_Run_setup 0 (NewMaster ex_conf), live_stored) = Returns (fst live_ran, snd live_ran)"
    using live_ran_returns by (simp add: ex_master_def)
  have good: "mock_good live_stored"
    using ex_stored_good [of "[]"] by (simp add: mock_good_def live_stored_def keyed_by_def live_definition_def ex_definition_def)
  have "card {u \<in> ran (lookup (mk_tasks (snd live_ran))). selects (agent_query run_agent) PENDING u} \<le> card {t0, t}"
    by (rule card_mono) (auto simp: ts ran_def)
  also have "\<dots> \<le> 500" by (simp add: card_insert_if)
  finally have small: "card {u \<in> ran (lookup (mk_tasks (snd live_ran))). selects (agent_query run_agent) PENDING u} \<le> 500" .
  have "lookup (mk_tasks (snd live_ran)) ''c-d-1-1'' = Some t" by (simp add: ts)
  then show ?thesis
    using requested_tasks_started [OF run good, of "''c''" live_node "''c-d-1-1''" t "60 * second" log_system run_ports 0] t small
    by (auto simp: live_node_def live_stored_def ex_stored_def ex_backend_def ex_host_def ex_deployment_def live_ran_tasks(3)
        run_ports_def runnable_def run_executor)
qed

end
