(* ===== verification/Go_Duration.thy ===== *)
theory Go_Duration
  imports Api_Types
begin

text \<open>
  The text of a duration (src/tools/duration.go): \<open>MarshalJSON\<close> writes what \<open>time.Duration.String\<close>
  renders, \<open>UnmarshalJSON\<close> reads a text with \<open>time.ParseDuration\<close> and a number as nanoseconds. The two
  routines of package time are written out, with the fraction of a term read exactly.
\<close>

section \<open>Rendering\<close>

definition digit_char :: "nat \<Rightarrow> char" where
  "digit_char n = char_of (48 + n)"

text \<open>The last \<open>p\<close> digits of a number, and the same without trailing zeros behind a point.\<close>

fun last_digits :: "nat \<Rightarrow> nat \<Rightarrow> string" where
  "last_digits 0 v = []"
| "last_digits (Suc p) v = last_digits p (v div 10) @ [digit_char (v mod 10)]"

definition fraction_digits :: "nat \<Rightarrow> nat \<Rightarrow> string" where
  "fraction_digits p v = rev (dropWhile (\<lambda>c. c = CHR ''0'') (rev (last_digits p v)))"

definition pointed :: "string \<Rightarrow> string" where
  "pointed ds = (if ds = [] then [] else CHR ''.'' # ds)"

definition micro :: string where
  "micro = [char_of (194 :: nat), char_of (181 :: nat), CHR ''s'']"

text \<open>A number of hours, minutes and seconds, without leading zero terms.\<close>

definition clock_text :: "nat \<Rightarrow> string" where
  "clock_text u = (let s = u div 10 ^ 9 in
     (if s < 60 then []
      else (if s < 3600 then [] else dec_nat (s div 3600) @ ''h'') @ dec_nat (s div 60 mod 60) @ ''m'') @
     dec_nat (s mod 60) @ pointed (fraction_digits 9 u) @ ''s'')"

definition magnitude_text :: "nat \<Rightarrow> string" where
  "magnitude_text u =
     (if u = 0 then ''0s''
      else if u < 10 ^ 3 then dec_nat u @ ''ns''
      else if u < 10 ^ 6 then dec_nat (u div 10 ^ 3) @ pointed (fraction_digits 3 u) @ micro
      else if u < 10 ^ 9 then dec_nat (u div 10 ^ 6) @ pointed (fraction_digits 6 u) @ ''ms''
      else clock_text u)"

definition duration_String :: "duration \<Rightarrow> string" where
  "duration_String d = (if d < 0 then CHR ''-'' # magnitude_text (nat (- d)) else magnitude_text (nat d))"

section \<open>Parsing\<close>

definition is_digit :: "char \<Rightarrow> bool" where
  "is_digit c \<longleftrightarrow> 48 \<le> (of_char c :: nat) \<and> (of_char c :: nat) < 58"

definition unit_char :: "char \<Rightarrow> bool" where
  "unit_char c \<longleftrightarrow> \<not> is_digit c \<and> c \<noteq> CHR ''.''"

definition unit_map :: "(string, nat) gomap" where
  "unit_map = [(''ns'', 1), (''us'', 10 ^ 3), (micro, 10 ^ 3), ([char_of (206 :: nat), char_of (188 :: nat), CHR ''s''], 10 ^ 3),
     (''ms'', 10 ^ 6), (''s'', 10 ^ 9), (''m'', 60 * 10 ^ 9), (''h'', 3600 * 10 ^ 9)]"

text \<open>The digits behind a point, if there is one, and what follows.\<close>

definition after_point :: "string \<Rightarrow> string \<times> string" where
  "after_point s = (case s of [] \<Rightarrow> ([], [])
     | c # r \<Rightarrow> if c = CHR ''.'' then (takeWhile is_digit r, dropWhile is_digit r) else ([], s))"

text \<open>One term: its value in nanoseconds, unless it is malformed or too large.\<close>

definition term_value :: "string \<Rightarrow> string \<Rightarrow> string \<Rightarrow> nat option" where
  "term_value ds fs unit =
     (if ds = [] \<and> fs = [] then None
      else if unit = [] then None
      else (case lookup unit_map unit of
              None \<Rightarrow> None
            | Some w \<Rightarrow>
                (let v = undec_nat ds 0 * w; amount = v + undec_nat fs 0 * w div 10 ^ length fs in
                 if amount < 2 ^ 63 then Some amount else None)))"

lemma after_point_shorter: "length (snd (after_point s)) \<le> length s"
  using length_dropWhile_le [of is_digit] by (auto simp: after_point_def le_SucI split: list.split)

function parse_terms :: "string \<Rightarrow> nat \<Rightarrow> nat option" where
  "parse_terms s acc =
     (if s = [] then Some acc
      else (let ds = takeWhile is_digit s;
                (fs, s2) = after_point (dropWhile is_digit s);
                unit = takeWhile unit_char s2
            in (case term_value ds fs unit of
                  None \<Rightarrow> None
                | Some amount \<Rightarrow> if acc + amount < 2 ^ 63 then parse_terms (dropWhile unit_char s2) (acc + amount) else None)))"
  by pat_completeness auto
termination
proof (relation "measure (length \<circ> fst)", goal_cases)
  case (2 s acc ds p fs s2 unit amount)
  then have "takeWhile unit_char s2 \<noteq> []" by (auto simp: term_value_def split: if_splits)
  then have "length (dropWhile unit_char s2) < length s2" by (cases s2) (auto simp: less_Suc_eq_le length_dropWhile_le split: if_splits)
  also have "length s2 \<le> length (dropWhile is_digit s)"
    using 2 after_point_shorter [of "dropWhile is_digit s"] by (metis snd_conv)
  also have "\<dots> \<le> length s" by (rule length_dropWhile_le)
  finally show ?case by simp
qed simp

declare parse_terms.simps [simp del]

definition ParseDuration :: "string \<Rightarrow> duration option" where
  "ParseDuration s =
     (let neg = (s \<noteq> [] \<and> hd s = CHR ''-''); signed = (s \<noteq> [] \<and> (hd s = CHR ''-'' \<or> hd s = CHR ''+''));
          body = (if signed then tl s else s)
      in if body = ''0'' then Some 0
         else if body = [] then None
         else map_option (\<lambda>v. if neg then - int v else int v) (parse_terms body 0))"

section \<open>The JSON form\<close>

definition duration_MarshalJSON :: "duration \<Rightarrow> json" where
  "duration_MarshalJSON d = JStr (duration_String d)"

definition duration_UnmarshalJSON :: "json \<Rightarrow> duration option" where
  "duration_UnmarshalJSON j =
     (case j of JStr s \<Rightarrow> ParseDuration s
      | JNum n \<Rightarrow> if in_int64 n then Some n else None
      | _ \<Rightarrow> None)"

section \<open>Lemmas: digits\<close>

lemma is_digit_digit_char: "n < 10 \<Longrightarrow> is_digit (digit_char n)"
  by (simp add: is_digit_def digit_char_def of_char_digit)

lemma undec_digit_char: "n < 10 \<Longrightarrow> undec_nat [digit_char n] acc = 10 * acc + n"
  by (simp add: digit_char_def of_char_digit)

lemma dec_nat_is_digit: "c \<in> set (dec_nat n) \<Longrightarrow> is_digit c"
  using dec_nat_digits by (simp add: is_digit_def)

lemma length_last_digits [simp]: "length (last_digits p v) = p"
  by (induction p arbitrary: v) simp_all

lemma last_digits_digit: "c \<in> set (last_digits p v) \<Longrightarrow> is_digit c"
  by (induction p arbitrary: v) (auto simp: is_digit_digit_char)

lemma undec_last_digits: "undec_nat (last_digits p v) 0 = v mod 10 ^ p"
proof (induction p arbitrary: v)
  case (Suc p)
  have "undec_nat (last_digits (Suc p) v) 0 = 10 * (v div 10 mod 10 ^ p) + v mod 10"
    by (simp add: undec_nat_append Suc undec_digit_char [simplified])
  also have "\<dots> = v mod (10 * 10 ^ p)" by (simp add: mod_mult2_eq)
  finally show ?case by simp
qed simp

lemma undec_zeros: "undec_nat (replicate k CHR ''0'') acc = acc * 10 ^ k"
  by (induction k arbitrary: acc) simp_all

text \<open>The digits behind the point are those of the number but for zeros at their end.\<close>

lemma fraction_digits_split:
  "last_digits p v = fraction_digits p v @ replicate (p - length (fraction_digits p v)) CHR ''0'' \<and> length (fraction_digits p v) \<le> p"
proof -
  let ?z = "takeWhile (\<lambda>c. c = CHR ''0'') (rev (last_digits p v))"
  have "\<forall>c \<in> set ?z. c = CHR ''0''" by (auto dest: set_takeWhileD)
  then have z: "?z = replicate (length ?z) CHR ''0''" by (simp add: replicate_length_same)
  have "rev (last_digits p v) = ?z @ rev (fraction_digits p v)"
    unfolding fraction_digits_def by (metis rev_rev_ident takeWhile_dropWhile_id)
  then have "last_digits p v = fraction_digits p v @ rev ?z" by (metis rev_append rev_rev_ident)
  also have "rev ?z = replicate (length ?z) CHR ''0''" using z by (metis rev_replicate)
  finally have split: "last_digits p v = fraction_digits p v @ replicate (length ?z) CHR ''0''" .
  then have "p = length (fraction_digits p v) + length ?z" by (metis length_append length_last_digits length_replicate)
  then have z': "length ?z = p - length (fraction_digits p v)" and "length (fraction_digits p v) \<le> p" by linarith+
  then show ?thesis using split unfolding z' by blast
qed

lemma fraction_value:
  "undec_nat (fraction_digits p v) 0 * 10 ^ p div 10 ^ length (fraction_digits p v) = v mod 10 ^ p"
proof -
  let ?f = "fraction_digits p v"
  have len: "length ?f \<le> p" and split: "last_digits p v = ?f @ replicate (p - length ?f) CHR ''0''"
    using fraction_digits_split [of p v] by simp_all
  have "v mod 10 ^ p = undec_nat ?f 0 * 10 ^ (p - length ?f)"
    using undec_last_digits [of p v] by (simp add: split undec_nat_append undec_zeros)
  moreover have "(10 :: nat) ^ p = 10 ^ (p - length ?f) * 10 ^ length ?f"
    using len by (simp flip: power_add)
  then have "undec_nat ?f 0 * 10 ^ p div 10 ^ length ?f = undec_nat ?f 0 * 10 ^ (p - length ?f)"
    by (simp flip: mult.assoc)
  ultimately show ?thesis by simp
qed

lemma fraction_digits_digit: "c \<in> set (fraction_digits p v) \<Longrightarrow> is_digit c"
  using fraction_digits_split [of p v] last_digits_digit [of c p v] by (metis UnCI set_append)

section \<open>Lemmas: terms\<close>

lemma unit_chars:
  "unit \<in> {''ns'', micro, ''ms'', ''s'', ''m'', ''h''} \<Longrightarrow> unit \<noteq> [] \<and> (\<forall>c \<in> set unit. unit_char c)"
proof -
  have "(of_char (char_of (194 :: nat) :: char) :: nat) \<noteq> of_char CHR ''.''" "(of_char (char_of (181 :: nat) :: char) :: nat) \<noteq> of_char CHR ''.''"
    by (simp_all add: of_char_of take_bit_nat_eq_self)
  then have "char_of (194 :: nat) \<noteq> CHR ''.''" "char_of (181 :: nat) \<noteq> CHR ''.''" by metis+
  moreover assume "unit \<in> {''ns'', micro, ''ms'', ''s'', ''m'', ''h''}"
  ultimately show ?thesis by (auto simp: micro_def unit_char_def is_digit_def of_char_of take_bit_nat_eq_self)
qed

lemma takeWhile_stop: "\<forall>c \<in> set xs. P c \<Longrightarrow> ys = [] \<or> \<not> P (hd ys) \<Longrightarrow> takeWhile P (xs @ ys) = xs \<and> dropWhile P (xs @ ys) = ys"
  by (cases ys) (auto simp: takeWhile_tail dropWhile_append3)

text \<open>A term in front of the rest of a text is read off.\<close>

lemma parse_term:
  assumes "\<forall>c \<in> set ds. is_digit c" and "ds \<noteq> []" and "\<forall>c \<in> set fs. is_digit c"
    and unit: "unit \<in> {''ns'', micro, ''ms'', ''s'', ''m'', ''h''}" and rest: "rest = [] \<or> is_digit (hd rest)"
    and "term_value ds fs unit = Some v" and "acc + v < 2 ^ 63"
  shows "parse_terms (ds @ pointed fs @ unit @ rest) acc = parse_terms rest (acc + v)"
proof -
  obtain c cs where u: "unit = c # cs" "unit_char c" using unit_chars [OF unit] by (cases unit) auto
  then have c: "\<not> is_digit c" "c \<noteq> CHR ''.''" by (simp_all add: unit_char_def)
  have dot: "\<not> is_digit CHR ''.''" by (simp add: is_digit_def)
  let ?X = "pointed fs @ unit @ rest"
  have "\<not> is_digit (hd ?X)" using c dot u by (simp add: pointed_def)
  then have 1: "takeWhile is_digit (ds @ ?X) = ds \<and> dropWhile is_digit (ds @ ?X) = ?X"
    using assms(1) by (intro takeWhile_stop) simp_all
  have "after_point ?X = (fs, unit @ rest)"
    using takeWhile_stop [of fs is_digit "unit @ rest"] assms(3) c u by (simp add: after_point_def pointed_def)
  moreover have "rest = [] \<or> \<not> unit_char (hd rest)" using rest by (auto simp: unit_char_def)
  then have "takeWhile unit_char (unit @ rest) = unit \<and> dropWhile unit_char (unit @ rest) = rest"
    using unit_chars [OF unit] by (intro takeWhile_stop) simp_all
  moreover have "ds @ ?X \<noteq> []" using assms(2) by simp
  ultimately show ?thesis
    using 1 assms(2,6,7) by (subst parse_terms.simps) (simp add: Let_def)
qed

lemma parse_terms_Nil [simp]: "parse_terms [] acc = Some acc"
  by (simp add: parse_terms.simps)

lemma term_value_dec_nat:
  assumes "lookup unit_map unit = Some w" and "unit \<noteq> []" and "n * w + undec_nat fs 0 * w div 10 ^ length fs < 2 ^ 63"
  shows "term_value (dec_nat n) fs unit = Some (n * w + undec_nat fs 0 * w div 10 ^ length fs)"
  using assms by (simp add: term_value_def Let_def undec_dec_nat)

lemma parse_dec_term:
  assumes "lookup unit_map unit = Some w" and "unit \<in> {''ns'', micro, ''ms'', ''s'', ''m'', ''h''}"
    and "rest = [] \<or> is_digit (hd rest)" and "acc + n * w < 2 ^ 63"
  shows "parse_terms (dec_nat n @ unit @ rest) acc = parse_terms rest (acc + n * w)"
proof -
  have "term_value (dec_nat n) [] unit = Some (n * w)"
    using assms unit_chars [OF assms(2)] term_value_dec_nat [OF assms(1), of n "[]"] by simp
  from parse_term [OF _ _ _ assms(2,3) this assms(4)] show ?thesis by (simp add: dec_nat_is_digit pointed_def)
qed

lemma parse_frac_term:
  assumes "lookup unit_map unit = Some (10 ^ p)" and "unit \<in> {''ns'', micro, ''ms'', ''s'', ''m'', ''h''}"
    and "acc + n * 10 ^ p + v mod 10 ^ p < 2 ^ 63"
  shows "parse_terms (dec_nat n @ pointed (fraction_digits p v) @ unit) acc = Some (acc + n * 10 ^ p + v mod 10 ^ p)"
proof -
  have "term_value (dec_nat n) (fraction_digits p v) unit = Some (n * 10 ^ p + v mod 10 ^ p)"
    using assms(3) unit_chars [OF assms(2)] term_value_dec_nat [OF assms(1), of n "fraction_digits p v"] by (simp add: fraction_value)
  from parse_term [OF _ _ _ assms(2) _ this, of "[]" acc] assms(3) show ?thesis
    by (auto simp: dec_nat_is_digit fraction_digits_digit ac_simps)
qed

lemma unit_lookup [simp]:
  "lookup unit_map ''ns'' = Some 1" "lookup unit_map micro = Some (10 ^ 3)" "lookup unit_map ''ms'' = Some (10 ^ 6)"
  "lookup unit_map ''s'' = Some (10 ^ 9)" "lookup unit_map ''m'' = Some (60 * 10 ^ 9)" "lookup unit_map ''h'' = Some (3600 * 10 ^ 9)"
  by (simp_all add: unit_map_def micro_def)

section \<open>The round trip\<close>

lemma hd_dec_nat: "is_digit (hd (dec_nat n @ xs))"
  using dec_nat_is_digit [of "hd (dec_nat n)" n] by simp

lemma hd_dec_nat_alone [simp]: "is_digit (hd (dec_nat n))"
  using hd_dec_nat [of n "[]"] by simp

lemma clock_sum: "u = u div 10 ^ 9 div 3600 * (3600 * 10 ^ 9) + u div 10 ^ 9 div 60 mod 60 * (60 * 10 ^ 9) +
    u div 10 ^ 9 mod 60 * 10 ^ 9 + u mod 10 ^ 9" for u :: nat
proof -
  have sum: "u = q * (3600 * 10 ^ 9) + b * (60 * 10 ^ 9) + r * 10 ^ 9 + f"
    if "u = s * 10 ^ 9 + f" "s = a * 60 + r" "a = q * 60 + b" for s a q b r f :: nat
    unfolding that by (simp add: algebra_simps)
  let ?s = "u div 10 ^ 9"
  have "?s div 60 = ?s div 3600 * 60 + ?s div 60 mod 60"
    using div_mult_mod_eq [of "?s div 60" 60] by (simp flip: div_mult2_eq)
  from sum [OF _ _ this] show ?thesis by (metis div_mult_mod_eq)
qed

lemma parse_clock: 
  assumes "u < 2 ^ 63"
  shows "parse_terms (clock_text u) 0 = Some u"
proof -
  let ?s = "u div 10 ^ 9"
  let ?last = "dec_nat (?s mod 60) @ pointed (fraction_digits 9 u) @ ''s''"
  let ?h = "?s div 3600 * (3600 * 10 ^ 9)" and ?m = "?s div 60 mod 60 * (60 * 10 ^ 9)"
  have sum: "?h + ?m + ?s mod 60 * 10 ^ 9 + u mod 10 ^ 9 = u" using clock_sum [of u] by simp
  have last: "parse_terms ?last acc = Some (acc + ?s mod 60 * 10 ^ 9 + u mod 10 ^ 9)"
    if "acc + ?s mod 60 * 10 ^ 9 + u mod 10 ^ 9 < 2 ^ 63" for acc
    using that by (intro parse_frac_term) simp_all
  have m: "parse_terms (dec_nat (?s div 60 mod 60) @ ''m'' @ ?last) acc = parse_terms ?last (acc + ?m)" if "acc + ?m < 2 ^ 63" for acc
    using that by (intro parse_dec_term) (simp_all add: hd_dec_nat del: hd_append)
  have h: "parse_terms (dec_nat (?s div 3600) @ ''h'' @ dec_nat (?s div 60 mod 60) @ ''m'' @ ?last) 0 =
      parse_terms (dec_nat (?s div 60 mod 60) @ ''m'' @ ?last) ?h"
    using parse_dec_term [of "''h''" "3600 * 10 ^ 9" "dec_nat (?s div 60 mod 60) @ ''m'' @ ?last" 0 "?s div 3600"] sum assms
    by (simp add: hd_dec_nat del: hd_append)
  consider "?s < 60" | "60 \<le> ?s" "?s < 3600" | "3600 \<le> ?s" by linarith
  then show ?thesis
  proof cases
    case 1
    then have "?h = 0" "?m = 0" by simp_all
    then show ?thesis using 1 last [of 0] sum assms by (simp add: clock_text_def Let_def)
  next
    case 2
    then have "?h = 0" by simp
    then show ?thesis using 2 m [of 0] last [of ?m] sum assms by (simp add: clock_text_def Let_def)
  next
    case 3
    then show ?thesis using h m [of ?h] last [of "?h + ?m"] sum assms by (simp add: clock_text_def Let_def)
  qed
qed

lemma parse_magnitude_text: "u < 2 ^ 63 \<Longrightarrow> parse_terms (magnitude_text u) 0 = Some u"
proof -
  assume u: "u < 2 ^ 63"
  have split: "u div 10 ^ p * 10 ^ p + u mod 10 ^ p = u" for p by (rule div_mult_mod_eq)
  consider "u = 0" | "0 < u" "u < 10 ^ 3" | "10 ^ 3 \<le> u" "u < 10 ^ 6" | "10 ^ 6 \<le> u" "u < 10 ^ 9" | "10 ^ 9 \<le> u" by linarith
  then show ?thesis
  proof cases
    case 1
    have "magnitude_text 0 = dec_nat 0 @ ''s'' @ []" by (simp add: magnitude_text_def dec_nat.simps char_of_def bit_0)
    then show ?thesis using parse_dec_term [of "''s''" "10 ^ 9" "[]" 0 0] 1 by simp
  next
    case 2
    then show ?thesis using parse_dec_term [of "''ns''" 1 "[]" 0 u] u by (simp add: magnitude_text_def)
  next
    case 3
    then show ?thesis using parse_frac_term [of micro 3 0 "u div 10 ^ 3" u] split [of 3] u by (simp add: magnitude_text_def)
  next
    case 4
    then show ?thesis using parse_frac_term [of "''ms''" 6 0 "u div 10 ^ 6" u] split [of 6] u by (simp add: magnitude_text_def)
  next
    case 5
    then show ?thesis using parse_clock [OF u] by (simp add: magnitude_text_def)
  qed
qed

lemma magnitude_text_digit: "magnitude_text u \<noteq> [] \<and> is_digit (hd (magnitude_text u)) \<and> magnitude_text u \<noteq> ''0''"
proof -
  have z: "is_digit CHR ''0''" by (simp add: is_digit_def)
  have last: "last (magnitude_text u) \<noteq> CHR ''0''" by (simp add: magnitude_text_def clock_text_def micro_def Let_def)
  have "magnitude_text u \<noteq> [] \<and> is_digit (hd (magnitude_text u))"
    using hd_dec_nat z by (auto simp: magnitude_text_def clock_text_def Let_def append_assoc simp del: hd_append)
  with last show ?thesis by auto
qed

lemma ParseDuration_String:
  assumes "in_int64 d" and "d \<noteq> - (2 ^ 63)"
  shows "ParseDuration (duration_String d) = Some d"
proof -
  have u: "nat \<bar>d\<bar> < 2 ^ 63" using assms by (auto simp: in_int64_def nat_less_iff abs_if)
  let ?t = "magnitude_text (nat \<bar>d\<bar>)"
  note t = magnitude_text_digit [of "nat \<bar>d\<bar>"] and p = parse_magnitude_text [OF u]
  have "\<not> is_digit CHR ''-''" "\<not> is_digit CHR ''+''" by (simp_all add: is_digit_def)
  then have hd: "hd ?t \<noteq> CHR ''-''" "hd ?t \<noteq> CHR ''+''" using t by metis+
  show ?thesis
  proof (cases "d < 0")
    case True
    then have "duration_String d = CHR ''-'' # ?t" by (simp add: duration_String_def abs_if)
    then show ?thesis using True t p by (simp add: ParseDuration_def Let_def)
  next
    case False
    then have "duration_String d = ?t" by (simp add: duration_String_def)
    then show ?thesis using False t p hd by (simp add: ParseDuration_def Let_def)
  qed
qed

lemma duration_round_trip:
  "in_int64 d \<Longrightarrow> d \<noteq> - (2 ^ 63) \<Longrightarrow> duration_UnmarshalJSON (duration_MarshalJSON d) = Some d"
  by (simp add: duration_UnmarshalJSON_def duration_MarshalJSON_def ParseDuration_String)

end
