(* ===== verification/Codec.thy ===== *)
theory Codec
  imports Executors Go_Duration
begin

text \<open>
  How the resources are stored (src/backends/encoding.go over the \<open>json\<close> tags of package api): each struct
  is an object with its fields in order; reading goes through the fields of a document into a zero
  struct. A slice that is nil and one that is empty are both the empty list here, and are written as an
  empty array. A null where a pointer to a struct is expected gives a nil pointer, which the code
  dereferences sooner or later; it counts as a document that cannot be read.
\<close>

section \<open>Basic values\<close>

definition decode_int :: "json \<Rightarrow> int \<Rightarrow> int option" where
  "decode_int j old = (case j of JNum n \<Rightarrow> if in_int64 n then Some n else None | JNull \<Rightarrow> Some old | _ \<Rightarrow> None)"

definition decode_bool :: "json \<Rightarrow> bool \<Rightarrow> bool option" where
  "decode_bool j old = (case j of JBool v \<Rightarrow> Some v | JNull \<Rightarrow> Some old | _ \<Rightarrow> None)"

definition decode_real :: "json \<Rightarrow> real \<Rightarrow> real option" where
  "decode_real j old = (case j of JNum n \<Rightarrow> Some (of_int n) | JReal x \<Rightarrow> Some x | JNull \<Rightarrow> Some old | _ \<Rightarrow> None)"

definition decode_object :: "(string \<Rightarrow> json \<Rightarrow> 'e \<Rightarrow> 'e option) \<Rightarrow> 'e \<Rightarrow> json \<Rightarrow> 'e option" where
  "decode_object f old j = (case j of JObj kvs \<Rightarrow> decode_fields f kvs old | _ \<Rightarrow> None)"

fun decode_entries :: "(json \<Rightarrow> 'v option) \<Rightarrow> (string \<times> json) list \<Rightarrow> (string, 'v) gomap \<Rightarrow> (string, 'v) gomap option" where
  "decode_entries f [] m = Some m"
| "decode_entries f ((k, j) # kvs) m = (case f j of None \<Rightarrow> None | Some v \<Rightarrow> decode_entries f kvs (insert_key k v m))"

definition decode_map :: "(json \<Rightarrow> 'v option) \<Rightarrow> json \<Rightarrow> (string, 'v) gomap \<Rightarrow> (string, 'v) gomap option" where
  "decode_map f j old = (case j of JObj kvs \<Rightarrow> decode_entries f kvs old | JNull \<Rightarrow> Some [] | _ \<Rightarrow> None)"

text \<open>A map is written with its keys in order.\<close>

definition encode_map :: "('v \<Rightarrow> json) \<Rightarrow> (string, 'v) gomap \<Rightarrow> json" where
  "encode_map f m = JObj (map (\<lambda>(k, v). (k, f v)) (sorted_map m))"

definition encode_uint :: "uint \<Rightarrow> json" where
  "encode_uint n = JNum (int n)"

definition encode_strings :: "string list \<Rightarrow> json" where
  "encode_strings xs = JArr (map JStr xs)"

definition encode_real :: "real \<Rightarrow> json" where
  "encode_real x = (if of_int \<lfloor>x\<rfloor> = x then JNum \<lfloor>x\<rfloor> else JReal x)"

text \<open>A field of a struct, with the value it reads and the update it makes.\<close>

definition set_field :: "'v option \<Rightarrow> ('v \<Rightarrow> 'e) \<Rightarrow> 'e option" where
  "set_field v upd = map_option upd v"

section \<open>Clusters, deployments and services\<close>

definition encode_cluster :: "cluster \<Rightarrow> json" where
  "encode_cluster c = JObj [(''name'', JStr (cl_Name c)), (''deployments'', encode_strings (cl_Deployments c)),
     (''hosts'', encode_strings (cl_Hosts c))]"

definition zero_cluster :: cluster where
  "zero_cluster = \<lparr>cl_Name = '''', cl_Deployments = [], cl_Hosts = []\<rparr>"

definition cluster_field :: "string \<Rightarrow> json \<Rightarrow> cluster \<Rightarrow> cluster option" where
  "cluster_field k j c =
     (if k = ''name'' then set_field (decode_string j (cl_Name c)) (\<lambda>v. c\<lparr>cl_Name := v\<rparr>)
      else if k = ''deployments'' then set_field (decode_strings j) (\<lambda>v. c\<lparr>cl_Deployments := plain v\<rparr>)
      else if k = ''hosts'' then set_field (decode_strings j) (\<lambda>v. c\<lparr>cl_Hosts := plain v\<rparr>)
      else Some c)"

definition encode_deployment :: "deployment \<Rightarrow> json" where
  "encode_deployment d = JObj [(''name'', JStr (dp_Name d)), (''scheduler'', JStr (dp_Scheduler d)),
     (''task_name'', JStr (dp_TaskName d)), (''task_version'', encode_uint (dp_TaskVersion d)),
     (''desired'', JNum (dp_Desired d)), (''min'', JNum (dp_Min d)), (''max'', JNum (dp_Max d)),
     (''max_attempts'', JNum (dp_MaxAttempts d))]"

definition zero_deployment :: deployment where
  "zero_deployment = \<lparr>dp_Name = '''', dp_Scheduler = '''', dp_TaskName = '''', dp_TaskVersion = 0,
     dp_Desired = 0, dp_Min = 0, dp_Max = 0, dp_MaxAttempts = 0\<rparr>"

definition deployment_field :: "string \<Rightarrow> json \<Rightarrow> deployment \<Rightarrow> deployment option" where
  "deployment_field k j d =
     (if k = ''name'' then set_field (decode_string j (dp_Name d)) (\<lambda>v. d\<lparr>dp_Name := v\<rparr>)
      else if k = ''scheduler'' then set_field (decode_string j (dp_Scheduler d)) (\<lambda>v. d\<lparr>dp_Scheduler := v\<rparr>)
      else if k = ''task_name'' then set_field (decode_string j (dp_TaskName d)) (\<lambda>v. d\<lparr>dp_TaskName := v\<rparr>)
      else if k = ''task_version'' then set_field (decode_uint j) (\<lambda>v. d\<lparr>dp_TaskVersion := v\<rparr>)
      else if k = ''desired'' then set_field (decode_int j (dp_Desired d)) (\<lambda>v. d\<lparr>dp_Desired := v\<rparr>)
      else if k = ''min'' then set_field (decode_int j (dp_Min d)) (\<lambda>v. d\<lparr>dp_Min := v\<rparr>)
      else if k = ''max'' then set_field (decode_int j (dp_Max d)) (\<lambda>v. d\<lparr>dp_Max := v\<rparr>)
      else if k = ''max_attempts'' then set_field (decode_int j (dp_MaxAttempts d)) (\<lambda>v. d\<lparr>dp_MaxAttempts := v\<rparr>)
      else Some d)"

definition encode_service :: "service \<Rightarrow> json" where
  "encode_service s = JObj [(''name'', JStr (sv_Name s)), (''cluster'', JStr (sv_Cluster s)),
     (''deployment'', JStr (sv_Deployment s)), (''container'', JStr (sv_Container s)),
     (''port_name'', JStr (sv_PortName s)), (''protocol'', JStr (sv_Protocol s))]"

definition zero_service :: service where
  "zero_service = \<lparr>sv_Name = '''', sv_Cluster = '''', sv_Deployment = '''', sv_Container = '''',
     sv_PortName = '''', sv_Protocol = ''''\<rparr>"

definition service_field :: "string \<Rightarrow> json \<Rightarrow> service \<Rightarrow> service option" where
  "service_field k j s =
     (if k = ''name'' then set_field (decode_string j (sv_Name s)) (\<lambda>v. s\<lparr>sv_Name := v\<rparr>)
      else if k = ''cluster'' then set_field (decode_string j (sv_Cluster s)) (\<lambda>v. s\<lparr>sv_Cluster := v\<rparr>)
      else if k = ''deployment'' then set_field (decode_string j (sv_Deployment s)) (\<lambda>v. s\<lparr>sv_Deployment := v\<rparr>)
      else if k = ''container'' then set_field (decode_string j (sv_Container s)) (\<lambda>v. s\<lparr>sv_Container := v\<rparr>)
      else if k = ''port_name'' then set_field (decode_string j (sv_PortName s)) (\<lambda>v. s\<lparr>sv_PortName := v\<rparr>)
      else if k = ''protocol'' then set_field (decode_string j (sv_Protocol s)) (\<lambda>v. s\<lparr>sv_Protocol := v\<rparr>)
      else Some s)"

section \<open>Hosts\<close>

definition encode_resources :: "resources \<Rightarrow> json" where
  "encode_resources r = JObj [(''memory'', JNum (rs_Memory r)), (''cpu_units'', JNum (rs_CpuUnits r)),
     (''disk_space'', JNum (rs_DiskSpace r)), (''mem_use_percent'', encode_real (rs_MemUsePercent r))]"

definition zero_resources :: resources where
  "zero_resources = \<lparr>rs_Memory = 0, rs_CpuUnits = 0, rs_DiskSpace = 0, rs_MemUsePercent = 0\<rparr>"

definition resources_field :: "string \<Rightarrow> json \<Rightarrow> resources \<Rightarrow> resources option" where
  "resources_field k j r =
     (if k = ''memory'' then set_field (decode_int j (rs_Memory r)) (\<lambda>v. r\<lparr>rs_Memory := v\<rparr>)
      else if k = ''cpu_units'' then set_field (decode_int j (rs_CpuUnits r)) (\<lambda>v. r\<lparr>rs_CpuUnits := v\<rparr>)
      else if k = ''disk_space'' then set_field (decode_int j (rs_DiskSpace r)) (\<lambda>v. r\<lparr>rs_DiskSpace := v\<rparr>)
      else if k = ''mem_use_percent'' then set_field (decode_real j (rs_MemUsePercent r)) (\<lambda>v. r\<lparr>rs_MemUsePercent := v\<rparr>)
      else Some r)"

definition encode_host :: "host \<Rightarrow> json" where
  "encode_host h = JObj [(''name'', JStr (ho_Name h)), (''address'', JStr (ho_Address h)), (''draining'', JBool (ho_Draining h)),
     (''reserved_ports'', JArr (map encode_uint (ho_ReservedPorts h))), (''health_check'', JStr (ho_HealthCheck h)),
     (''observed_resources'', encode_resources (ho_ObservedResources h)),
     (''calculated_resources'', encode_resources (ho_CalculatedResources h)),
     (''base_resources'', encode_resources (ho_BaseResources h)), (''cluster'', JStr (ho_Cluster h)),
     (''tags'', encode_map JStr (ho_Tags h))]"

definition zero_host :: host where
  "zero_host = \<lparr>ho_Name = '''', ho_Address = '''', ho_Draining = False, ho_ReservedPorts = [], ho_HealthCheck = '''',
     ho_ObservedResources = zero_resources, ho_CalculatedResources = zero_resources, ho_BaseResources = zero_resources,
     ho_Cluster = '''', ho_Tags = []\<rparr>"

definition host_field :: "string \<Rightarrow> json \<Rightarrow> host \<Rightarrow> host option" where
  "host_field k j h =
     (if k = ''name'' then set_field (decode_string j (ho_Name h)) (\<lambda>v. h\<lparr>ho_Name := v\<rparr>)
      else if k = ''address'' then set_field (decode_string j (ho_Address h)) (\<lambda>v. h\<lparr>ho_Address := v\<rparr>)
      else if k = ''draining'' then set_field (decode_bool j (ho_Draining h)) (\<lambda>v. h\<lparr>ho_Draining := v\<rparr>)
      else if k = ''reserved_ports'' then set_field (decode_list decode_uint j) (\<lambda>v. h\<lparr>ho_ReservedPorts := plain v\<rparr>)
      else if k = ''health_check'' then set_field (decode_string j (ho_HealthCheck h)) (\<lambda>v. h\<lparr>ho_HealthCheck := v\<rparr>)
      else if k = ''observed_resources'' then
        set_field (decode_object resources_field (ho_ObservedResources h) j) (\<lambda>v. h\<lparr>ho_ObservedResources := v\<rparr>)
      else if k = ''calculated_resources'' then
        set_field (decode_object resources_field (ho_CalculatedResources h) j) (\<lambda>v. h\<lparr>ho_CalculatedResources := v\<rparr>)
      else if k = ''base_resources'' then
        set_field (decode_object resources_field (ho_BaseResources h) j) (\<lambda>v. h\<lparr>ho_BaseResources := v\<rparr>)
      else if k = ''cluster'' then set_field (decode_string j (ho_Cluster h)) (\<lambda>v. h\<lparr>ho_Cluster := v\<rparr>)
      else if k = ''tags'' then
        set_field (decode_map (\<lambda>j. decode_string j '''') j (ho_Tags h)) (\<lambda>v. h\<lparr>ho_Tags := v\<rparr>)
      else Some h)"

section \<open>Task definitions\<close>

definition encode_port :: "port_mapping \<Rightarrow> json" where
  "encode_port p = JObj [(''name'', JStr (pm_Name p)), (''container'', encode_uint (pm_Container p)), (''host'', encode_uint (pm_Host p))]"

definition zero_port :: port_mapping where
  "zero_port = \<lparr>pm_Name = '''', pm_Container = 0, pm_Host = 0\<rparr>"

definition port_field :: "string \<Rightarrow> json \<Rightarrow> port_mapping \<Rightarrow> port_mapping option" where
  "port_field k j p =
     (if k = ''name'' then set_field (decode_string j (pm_Name p)) (\<lambda>v. p\<lparr>pm_Name := v\<rparr>)
      else if k = ''container'' then set_field (decode_uint j) (\<lambda>v. p\<lparr>pm_Container := v\<rparr>)
      else if k = ''host'' then set_field (decode_uint j) (\<lambda>v. p\<lparr>pm_Host := v\<rparr>)
      else Some p)"

definition encode_check :: "check \<Rightarrow> json" where
  "encode_check c = JObj [(''id'', JStr (ch_ID c)), (''name'', JStr (ch_Name c)), (''http'', JStr (ch_HTTP c)),
     (''tcp'', JStr (ch_TCP c)), (''script'', JStr (ch_Script c)), (''interval'', duration_MarshalJSON (ch_Interval c)),
     (''timeout'', duration_MarshalJSON (ch_Timeout c)), (''docker'', JStr (ch_Docker c))]"

definition zero_check :: check where
  "zero_check = \<lparr>ch_ID = '''', ch_Name = '''', ch_HTTP = '''', ch_TCP = '''', ch_Script = '''', ch_Interval = 0, ch_Timeout = 0,
     ch_Docker = ''''\<rparr>"

definition check_field :: "string \<Rightarrow> json \<Rightarrow> check \<Rightarrow> check option" where
  "check_field k j c =
     (if k = ''id'' then set_field (decode_string j (ch_ID c)) (\<lambda>v. c\<lparr>ch_ID := v\<rparr>)
      else if k = ''name'' then set_field (decode_string j (ch_Name c)) (\<lambda>v. c\<lparr>ch_Name := v\<rparr>)
      else if k = ''http'' then set_field (decode_string j (ch_HTTP c)) (\<lambda>v. c\<lparr>ch_HTTP := v\<rparr>)
      else if k = ''tcp'' then set_field (decode_string j (ch_TCP c)) (\<lambda>v. c\<lparr>ch_TCP := v\<rparr>)
      else if k = ''script'' then set_field (decode_string j (ch_Script c)) (\<lambda>v. c\<lparr>ch_Script := v\<rparr>)
      else if k = ''interval'' then set_field (duration_UnmarshalJSON j) (\<lambda>v. c\<lparr>ch_Interval := v\<rparr>)
      else if k = ''timeout'' then set_field (duration_UnmarshalJSON j) (\<lambda>v. c\<lparr>ch_Timeout := v\<rparr>)
      else if k = ''docker'' then set_field (decode_string j (ch_Docker c)) (\<lambda>v. c\<lparr>ch_Docker := v\<rparr>)
      else Some c)"

text \<open>The executor is kept as the document it is; none at all is written as null, which reads back as a null document.\<close>

definition encode_container :: "container \<Rightarrow> json" where
  "encode_container c = JObj [(''name'', JStr (ct_Name c)), (''type'', JStr (ct_Type c)),
     (''executor'', (case ct_Executor c of None \<Rightarrow> JNull | Some j \<Rightarrow> j)),
     (''setup'', encode_strings (ct_Setup c)), (''teardown'', encode_strings (ct_Teardown c)),
     (''checks'', JArr (map encode_check (ct_Checks c))), (''ports'', JArr (map encode_port (ct_Ports c))),
     (''memory'', JNum (ct_Memory c)), (''cpu_units'', JNum (ct_CpuUnits c)), (''disk_use'', JNum (ct_DiskUse c)),
     (''essential'', JBool (ct_Essential c))]"

definition zero_container :: container where
  "zero_container = \<lparr>ct_Name = '''', ct_Type = '''', ct_Executor = None, ct_Setup = [], ct_Teardown = [], ct_Checks = [],
     ct_Ports = [], ct_Memory = 0, ct_CpuUnits = 0, ct_DiskUse = 0, ct_Essential = False\<rparr>"

definition container_field :: "string \<Rightarrow> json \<Rightarrow> container \<Rightarrow> container option" where
  "container_field k j c =
     (if k = ''name'' then set_field (decode_string j (ct_Name c)) (\<lambda>v. c\<lparr>ct_Name := v\<rparr>)
      else if k = ''type'' then set_field (decode_string j (ct_Type c)) (\<lambda>v. c\<lparr>ct_Type := v\<rparr>)
      else if k = ''executor'' then Some (c\<lparr>ct_Executor := Some j\<rparr>)
      else if k = ''setup'' then set_field (decode_strings j) (\<lambda>v. c\<lparr>ct_Setup := plain v\<rparr>)
      else if k = ''teardown'' then set_field (decode_strings j) (\<lambda>v. c\<lparr>ct_Teardown := plain v\<rparr>)
      else if k = ''checks'' then
        set_field (decode_list (decode_object check_field zero_check) j) (\<lambda>v. c\<lparr>ct_Checks := plain v\<rparr>)
      else if k = ''ports'' then
        set_field (decode_list (decode_object port_field zero_port) j) (\<lambda>v. c\<lparr>ct_Ports := plain v\<rparr>)
      else if k = ''memory'' then set_field (decode_int j (ct_Memory c)) (\<lambda>v. c\<lparr>ct_Memory := v\<rparr>)
      else if k = ''cpu_units'' then set_field (decode_int j (ct_CpuUnits c)) (\<lambda>v. c\<lparr>ct_CpuUnits := v\<rparr>)
      else if k = ''disk_use'' then set_field (decode_int j (ct_DiskUse c)) (\<lambda>v. c\<lparr>ct_DiskUse := v\<rparr>)
      else if k = ''essential'' then set_field (decode_bool j (ct_Essential c)) (\<lambda>v. c\<lparr>ct_Essential := v\<rparr>)
      else Some c)"

definition encode_definition :: "task_definition \<Rightarrow> json" where
  "encode_definition t = JObj [(''name'', JStr (td_Name t)), (''version'', encode_uint (td_Version t)),
     (''tags'', encode_strings (td_Tags t)), (''containers'', JArr (map encode_container (td_Containers t))),
     (''grace_period'', duration_MarshalJSON (td_GracePeriod t))]"

definition zero_definition :: task_definition where
  "zero_definition = \<lparr>td_Name = '''', td_Version = 0, td_Tags = [], td_Containers = [], td_GracePeriod = 0\<rparr>"

definition definition_field :: "string \<Rightarrow> json \<Rightarrow> task_definition \<Rightarrow> task_definition option" where
  "definition_field k j t =
     (if k = ''name'' then set_field (decode_string j (td_Name t)) (\<lambda>v. t\<lparr>td_Name := v\<rparr>)
      else if k = ''version'' then set_field (decode_uint j) (\<lambda>v. t\<lparr>td_Version := v\<rparr>)
      else if k = ''tags'' then set_field (decode_strings j) (\<lambda>v. t\<lparr>td_Tags := plain v\<rparr>)
      else if k = ''containers'' then
        set_field (decode_list (decode_object container_field zero_container) j) (\<lambda>v. t\<lparr>td_Containers := plain v\<rparr>)
      else if k = ''grace_period'' then set_field (duration_UnmarshalJSON j) (\<lambda>v. t\<lparr>td_GracePeriod := v\<rparr>)
      else Some t)"

section \<open>Tasks\<close>

definition encode_task :: "task \<Rightarrow> json" where
  "encode_task t = JObj [(''cluster'', JStr (tk_Cluster t)), (''task_definition'', encode_definition (tk_TaskDefinition t)),
     (''service'', JStr (tk_Deployment t)), (''instance'', JNum (tk_Instance t)), (''host'', JStr (tk_Host t)),
     (''scheduled'', JBool (tk_Scheduled t)), (''rejected'', JBool (tk_Rejected t)),
     (''reject_reason'', JStr (tk_RejectReason t)), (''provided_ports'', encode_map encode_uint (tk_ProvidedPorts t))]"

definition zero_task :: task where
  "zero_task = \<lparr>tk_Cluster = '''', tk_TaskDefinition = zero_definition, tk_Deployment = '''', tk_Instance = 0, tk_Host = '''',
     tk_Scheduled = False, tk_Rejected = False, tk_RejectReason = '''', tk_ProvidedPorts = []\<rparr>"

definition task_field :: "string \<Rightarrow> json \<Rightarrow> task \<Rightarrow> task option" where
  "task_field k j t =
     (if k = ''cluster'' then set_field (decode_string j (tk_Cluster t)) (\<lambda>v. t\<lparr>tk_Cluster := v\<rparr>)
      else if k = ''task_definition'' then
        set_field (decode_object definition_field (tk_TaskDefinition t) j) (\<lambda>v. t\<lparr>tk_TaskDefinition := v\<rparr>)
      else if k = ''service'' then set_field (decode_string j (tk_Deployment t)) (\<lambda>v. t\<lparr>tk_Deployment := v\<rparr>)
      else if k = ''instance'' then set_field (decode_int j (tk_Instance t)) (\<lambda>v. t\<lparr>tk_Instance := v\<rparr>)
      else if k = ''host'' then set_field (decode_string j (tk_Host t)) (\<lambda>v. t\<lparr>tk_Host := v\<rparr>)
      else if k = ''scheduled'' then set_field (decode_bool j (tk_Scheduled t)) (\<lambda>v. t\<lparr>tk_Scheduled := v\<rparr>)
      else if k = ''rejected'' then set_field (decode_bool j (tk_Rejected t)) (\<lambda>v. t\<lparr>tk_Rejected := v\<rparr>)
      else if k = ''reject_reason'' then set_field (decode_string j (tk_RejectReason t)) (\<lambda>v. t\<lparr>tk_RejectReason := v\<rparr>)
      else if k = ''provided_ports'' then
        set_field (decode_map decode_uint j (tk_ProvidedPorts t)) (\<lambda>v. t\<lparr>tk_ProvidedPorts := v\<rparr>)
      else Some t)"

end
