(* ===== verification/Consul_Api.thy ===== *)
theory Consul_Api
  imports Codec Mock_Api
begin

text \<open>
  The Consul backend (src/backends/consul): every resource is a document under its own key of Consul's
  key-value store, tasks are registered as services with the local Consul agent, and the state of a task
  is read off the checks of its service and a stored text. The client library is a parameter, a record of
  the calls the code makes over the state \<open>'c\<close> of Consul; what the code relies on is \<open>kv_store\<close>.
\<close>

section \<open>The client library\<close>

text \<open>A stored value: a document, or the bare text of a task state. An empty value is handed out as nil.\<close>

datatype kv_value = Doc json | Raw string

record service_check =
  ck_Interval :: string
  ck_Script :: string
  ck_Timeout :: string
  ck_TCP :: string
  ck_HTTP :: string
  ck_DockerContainerID :: string

record registration =
  rg_ID :: string
  rg_Name :: string
  rg_Tags :: "string list"
  rg_Address :: string
  rg_Checks :: "service_check list"

record check_status =
  hk_Node :: string
  hk_ServiceID :: string
  hk_Status :: string

record 'c consul_client =
  kv_Get :: "string \<Rightarrow> 'c \<Rightarrow> go_error + kv_value option"
  kv_Put :: "string \<Rightarrow> kv_value \<Rightarrow> 'c \<Rightarrow> 'c \<times> go_error option"
  kv_Delete :: "string \<Rightarrow> 'c \<Rightarrow> 'c \<times> go_error option"
  kv_List :: "string \<Rightarrow> 'c \<Rightarrow> go_error + (string \<times> kv_value) list"
  NodeName :: "'c \<Rightarrow> go_error + string"
  Checks :: "string \<Rightarrow> 'c \<Rightarrow> go_error + check_status list"
  ServiceRegister :: "registration \<Rightarrow> 'c \<Rightarrow> 'c \<times> go_error option"
  ServiceDeregister :: "string \<Rightarrow> 'c \<Rightarrow> 'c \<times> go_error option"

section \<open>State\<close>

text \<open>The prefix of all keys never changes; it is an argument beside the client.\<close>

record 'c consul =
  cs_consul :: 'c
  cs_registered :: bool
  cs_listeners :: "(string, listener) gomap"

definition NewConsulApi :: "'c \<Rightarrow> 'c consul" where
  "NewConsulApi c = \<lparr>cs_consul = c, cs_registered = False, cs_listeners = []\<rparr>"

section \<open>Keys and values\<close>

definition full_key :: "string \<Rightarrow> string \<Rightarrow> string" where
  "full_key pre key = pre @ ''/'' @ key"

definition no_bytes :: "kv_value \<Rightarrow> bool" where
  "no_bytes v \<longleftrightarrow> v = Raw ''''"

definition Decode :: "(string \<Rightarrow> json \<Rightarrow> 'e \<Rightarrow> 'e option) \<Rightarrow> 'e \<Rightarrow> kv_value \<Rightarrow> 'e option" where
  "Decode f zero v = (case v of Doc j \<Rightarrow> decode_struct f zero (Some j) | Raw _ \<Rightarrow> None)"

definition consul_run :: "('c \<Rightarrow> 'c \<times> go_error option) \<Rightarrow> 'c consul \<Rightarrow> 'c consul \<times> go_error option" where
  "consul_run cmd s = (case cmd (cs_consul s) of (c, err) \<Rightarrow> (s\<lparr>cs_consul := c\<rparr>, err))"

definition consul_put :: "'c consul_client \<Rightarrow> string \<Rightarrow> string \<Rightarrow> kv_value \<Rightarrow> 'c consul command" where
  "consul_put cl pre key v = consul_run (kv_Put cl (full_key pre key) v)"

definition consul_del :: "'c consul_client \<Rightarrow> string \<Rightarrow> string \<Rightarrow> 'c consul command" where
  "consul_del cl pre key = consul_run (kv_Delete cl (full_key pre key))"

text \<open>Every error of the store is turned into \<open>ErrNotFound\<close>.\<close>

definition consul_get :: "'c consul_client \<Rightarrow> string \<Rightarrow> string \<Rightarrow> 'c consul \<Rightarrow> kv_value option \<times> go_error option" where
  "consul_get cl pre key s =
     (case kv_Get cl (full_key pre key) (cs_consul s) of
        Inl _ \<Rightarrow> (None, Some ErrNotFound)
      | Inr None \<Rightarrow> (None, Some ErrNotFound)
      | Inr (Some v) \<Rightarrow> if no_bytes v then (Some v, Some ErrNotFound) else (Some v, None))"

definition consul_list :: "'c consul_client \<Rightarrow> string \<Rightarrow> string \<Rightarrow> 'c consul \<Rightarrow> go_error + (string \<times> kv_value) list" where
  "consul_list cl pre key s = kv_List cl (full_key pre key) (cs_consul s)"

text \<open>Reading one resource, and reading a list of them; a document that cannot be read panics.\<close>

definition consul_read ::
  "'c consul_client \<Rightarrow> string \<Rightarrow> (string \<Rightarrow> json \<Rightarrow> 'e \<Rightarrow> 'e option) \<Rightarrow> 'e \<Rightarrow> string \<Rightarrow> 'c consul \<Rightarrow> 'e reply" where
  "consul_read cl pre f zero key s =
     (case consul_get cl pre key s of
        (None, _) \<Rightarrow> Fail ErrNotFound (Some zero)
      | (Some v, err) \<Rightarrow>
          if no_bytes v then Fail ErrNotFound (Some zero)
          else (case err of
                  None \<Rightarrow> (case Decode f zero v of Some x \<Rightarrow> Ok x | None \<Rightarrow> Stops Panicked)
                | Some e \<Rightarrow> Fail e (Some zero)))"

definition consul_read_all ::
  "'c consul_client \<Rightarrow> string \<Rightarrow> (string \<Rightarrow> json \<Rightarrow> 'e \<Rightarrow> 'e option) \<Rightarrow> 'e \<Rightarrow> string \<Rightarrow> 'c consul \<Rightarrow> 'e list reply" where
  "consul_read_all cl pre f zero key s =
     (case consul_list cl pre key s of
        Inl err \<Rightarrow> Fail err None
      | Inr kvs \<Rightarrow> (case those (map (\<lambda>(k, v). Decode f zero v) kvs) of Some xs \<Rightarrow> Ok xs | None \<Rightarrow> Stops Panicked))"

section \<open>Configuration\<close>

definition consul_HostName :: "'c consul_client \<Rightarrow> 'c consul \<Rightarrow> string reply" where
  "consul_HostName cl s = (case NodeName cl (cs_consul s) of Inl err \<Rightarrow> Fail err (Some '''') | Inr name \<Rightarrow> Ok name)"

definition consul_ListClusters :: "'c consul_client \<Rightarrow> string \<Rightarrow> 'c consul \<Rightarrow> cluster list reply" where
  "consul_ListClusters cl pre = consul_read_all cl pre cluster_field zero_cluster ''config/clusters''"

definition consul_GetCluster :: "'c consul_client \<Rightarrow> string \<Rightarrow> string \<Rightarrow> 'c consul \<Rightarrow> cluster reply" where
  "consul_GetCluster cl pre k = consul_read cl pre cluster_field zero_cluster (''config/clusters/'' @ k)"

definition consul_PutCluster :: "'c consul_client \<Rightarrow> string \<Rightarrow> cluster \<Rightarrow> 'c consul command" where
  "consul_PutCluster cl pre c = consul_put cl pre (''config/clusters/'' @ cl_Name c) (Doc (encode_cluster c))"

definition consul_DelCluster :: "'c consul_client \<Rightarrow> string \<Rightarrow> string \<Rightarrow> 'c consul command" where
  "consul_DelCluster cl pre k = consul_del cl pre (''config/clusters/'' @ k)"

definition consul_ListDeployments :: "'c consul_client \<Rightarrow> string \<Rightarrow> 'c consul \<Rightarrow> deployment list reply" where
  "consul_ListDeployments cl pre = consul_read_all cl pre deployment_field zero_deployment ''config/deployments''"

definition consul_GetDeployment :: "'c consul_client \<Rightarrow> string \<Rightarrow> string \<Rightarrow> 'c consul \<Rightarrow> deployment reply" where
  "consul_GetDeployment cl pre k = consul_read cl pre deployment_field zero_deployment (''config/deployments/'' @ k)"

definition consul_PutDeployment :: "'c consul_client \<Rightarrow> string \<Rightarrow> deployment \<Rightarrow> 'c consul command" where
  "consul_PutDeployment cl pre d = consul_put cl pre (''config/deployments/'' @ dp_Name d) (Doc (encode_deployment d))"

definition consul_DelDeployment :: "'c consul_client \<Rightarrow> string \<Rightarrow> string \<Rightarrow> 'c consul command" where
  "consul_DelDeployment cl pre k = consul_del cl pre (''config/deployments/'' @ k)"

definition consul_ListServices :: "'c consul_client \<Rightarrow> string \<Rightarrow> 'c consul \<Rightarrow> service list reply" where
  "consul_ListServices cl pre = consul_read_all cl pre service_field zero_service ''config/services''"

definition consul_GetService :: "'c consul_client \<Rightarrow> string \<Rightarrow> string \<Rightarrow> 'c consul \<Rightarrow> service reply" where
  "consul_GetService cl pre k = consul_read cl pre service_field zero_service (''config/services/'' @ k)"

definition consul_PutService :: "'c consul_client \<Rightarrow> string \<Rightarrow> service \<Rightarrow> 'c consul command" where
  "consul_PutService cl pre v = consul_put cl pre (''config/services/'' @ sv_Name v) (Doc (encode_service v))"

definition consul_DelService :: "'c consul_client \<Rightarrow> string \<Rightarrow> string \<Rightarrow> 'c consul command" where
  "consul_DelService cl pre k = consul_del cl pre (''config/services/'' @ k)"

definition definition_key :: "string \<Rightarrow> uint \<Rightarrow> string" where
  "definition_key name ver = ''config/task_definitions/'' @ name @ ''/'' @ dec_nat ver"

definition consul_ListTaskDefinitions :: "'c consul_client \<Rightarrow> string \<Rightarrow> 'c consul \<Rightarrow> task_definition list reply" where
  "consul_ListTaskDefinitions cl pre = consul_read_all cl pre definition_field zero_definition ''config/task_definitions/''"

definition consul_GetTaskDefinition :: "'c consul_client \<Rightarrow> string \<Rightarrow> string \<Rightarrow> uint \<Rightarrow> 'c consul \<Rightarrow> task_definition reply" where
  "consul_GetTaskDefinition cl pre name ver = consul_read cl pre definition_field zero_definition (definition_key name ver)"

definition consul_PutTaskDefinition :: "'c consul_client \<Rightarrow> string \<Rightarrow> task_definition \<Rightarrow> 'c consul command" where
  "consul_PutTaskDefinition cl pre t = consul_put cl pre (definition_key (td_Name t) (td_Version t)) (Doc (encode_definition t))"

section \<open>Hosts\<close>

text \<open>The key the hosts of a cluster are listed under ends with the name of the cluster.\<close>

definition host_key :: "string \<Rightarrow> string \<Rightarrow> string" where
  "host_key cluster name = ''hosts/'' @ cluster @ ''/'' @ name"

definition consul_ListHosts :: "'c consul_client \<Rightarrow> string \<Rightarrow> string \<Rightarrow> 'c consul \<Rightarrow> host list reply" where
  "consul_ListHosts cl pre byCluster = consul_read_all cl pre host_field zero_host (''hosts/'' @ byCluster)"

definition consul_GetHost :: "'c consul_client \<Rightarrow> string \<Rightarrow> string \<Rightarrow> string \<Rightarrow> 'c consul \<Rightarrow> host reply" where
  "consul_GetHost cl pre cluster name = consul_read cl pre host_field zero_host (host_key cluster name)"

definition host_registration :: "host \<Rightarrow> registration" where
  "host_registration h = \<lparr>rg_ID = ''sked-'' @ ho_Name h, rg_Name = ''sked'', rg_Tags = [], rg_Address = '''',
     rg_Checks = [\<lparr>ck_Interval = ''30s'', ck_Script = '''', ck_Timeout = '''', ck_TCP = '''', ck_HTTP = ho_HealthCheck h,
       ck_DockerContainerID = ''''\<rparr>]\<rparr>"

definition consul_PutHost :: "'c consul_client \<Rightarrow> string \<Rightarrow> host \<Rightarrow> 'c consul command" where
  "consul_PutHost cl pre h s =
     (case consul_put cl pre (host_key (ho_Cluster h) (ho_Name h)) (Doc (encode_host h)) s of
        (s1, Some err) \<Rightarrow> (s1, Some err)
      | (s1, None) \<Rightarrow>
          if cs_registered s1 then (s1, None)
          else (case consul_run (ServiceRegister cl (host_registration h)) s1 of
                  (s2, Some err) \<Rightarrow> (s2, Some err)
                | (s2, None) \<Rightarrow> (s2\<lparr>cs_registered := True\<rparr>, None)))"

definition consul_DelHost :: "'c consul_client \<Rightarrow> string \<Rightarrow> string \<Rightarrow> string \<Rightarrow> 'c consul command" where
  "consul_DelHost cl pre cluster name = consul_del cl pre (host_key cluster name)"

section \<open>The state of a task\<close>

definition state_text :: "kv_value \<Rightarrow> string" where
  "state_text v = (case v of Raw s \<Rightarrow> s | Doc _ \<Rightarrow> '''')"

text \<open>The loop over the checks of the service: it ends at the first check of the task that does not pass.\<close>

fun check_loop :: "string \<Rightarrow> check_status list \<Rightarrow> bool \<Rightarrow> task_state option \<times> bool" where
  "check_loop tid [] some_check = (None, some_check)"
| "check_loop tid (ch # rest) some_check =
     (if hk_ServiceID ch = tid then
        (if hk_Status ch \<noteq> ''passing'' then (Some FAILING, True) else check_loop tid rest True)
      else check_loop tid rest some_check)"

definition consul_GetTaskState :: "'c consul_client \<Rightarrow> string \<Rightarrow> task \<Rightarrow> 'c consul \<Rightarrow> task_state reply" where
  "consul_GetTaskState cl pre t s =
     (case Checks cl (''task-'' @ task_Name t) (cs_consul s) of
        Inl err \<Rightarrow> Fail err (Some PENDING)
      | Inr checks \<Rightarrow>
          (case consul_get cl pre (''state/health/'' @ task_ID t) s of
             (stateStr, err) \<Rightarrow>
               if err \<noteq> None \<and> err \<noteq> Some ErrNotFound then Fail (the err) (Some PENDING)
               else (let state = (case stateStr of None \<Rightarrow> PENDING | Some v \<Rightarrow> state_text v) in
                 if state = STOPPING \<or> state = STARTING \<or> state = EXITED then Ok state
                 else (case check_loop (''task-'' @ task_ID t) checks False of
                         (Some st, _) \<Rightarrow> Ok st
                       | (None, True) \<Rightarrow> Ok RUNNING
                       | (None, False) \<Rightarrow> Ok state))))"

definition consul_PutTaskState :: "'c consul_client \<Rightarrow> string \<Rightarrow> string \<Rightarrow> task_state \<Rightarrow> 'c consul command" where
  "consul_PutTaskState cl pre tid st = consul_put cl pre (''state/health/'' @ tid) (Raw st)"

section \<open>Tasks\<close>

text \<open>\<open>%v\<close> of a number of seconds, written out in decimals.\<close>

definition seconds_text :: "duration \<Rightarrow> string" where
  "seconds_text d =
     (let m = nat \<bar>d\<bar> in (if d < 0 then ''-'' else '''') @ dec_nat (m div 10 ^ 9) @ pointed (fraction_digits 9 m)) @ ''s''"

definition consul_check :: "task \<Rightarrow> container \<Rightarrow> check \<Rightarrow> service_check" where
  "consul_check t cont ch =
     (let c = \<lparr>ck_Interval = seconds_text (ch_Interval ch), ck_Script = ch_Script ch,
          ck_Timeout = seconds_text (ch_Timeout ch), ck_TCP = TCPWithPort ch t cont, ck_HTTP = HTTPWithPort ch t cont,
          ck_DockerContainerID = ''''\<rparr>
      in if ch_Docker ch \<noteq> '''' then c\<lparr>ck_DockerContainerID := task_ID t, ck_Script := ch_Docker ch\<rparr> else c)"

definition task_registration :: "task \<Rightarrow> registration" where
  "task_registration t = \<lparr>rg_ID = ''task-'' @ task_ID t, rg_Name = ''task-'' @ task_Name t,
     rg_Tags = td_Tags (tk_TaskDefinition t) @ [tk_Cluster t, tk_Deployment t], rg_Address = tk_Host t,
     rg_Checks = concat (map (\<lambda>cont. map (consul_check t cont) (ct_Checks cont)) (td_Containers (tk_TaskDefinition t)))\<rparr>"

definition consul_register :: "'c consul_client \<Rightarrow> task \<Rightarrow> 'c consul command" where
  "consul_register cl t = consul_run (ServiceRegister cl (task_registration t))"

definition consul_deRegister :: "'c consul_client \<Rightarrow> string \<Rightarrow> 'c consul command" where
  "consul_deRegister cl tid = consul_run (ServiceDeregister cl (''task-'' @ tid))"

definition consul_GetTask :: "'c consul_client \<Rightarrow> string \<Rightarrow> string \<Rightarrow> 'c consul \<Rightarrow> task reply" where
  "consul_GetTask cl pre tid = consul_read cl pre task_field zero_task (''state/tasks/'' @ tid)"

text \<open>An error of the registration is logged, one of the deregistration dropped.\<close>

definition consul_PutTask :: "'c consul_client \<Rightarrow> string \<Rightarrow> task \<Rightarrow> 'c consul command" where
  "consul_PutTask cl pre t s =
     consul_put cl pre (''state/tasks/'' @ task_ID t) (Doc (encode_task t)) (fst (consul_register cl t s))"

definition consul_DelTask :: "'c consul_client \<Rightarrow> string \<Rightarrow> task \<Rightarrow> 'c consul command" where
  "consul_DelTask cl pre t s =
     consul_del cl pre (''state/tasks/'' @ task_ID t) (fst (consul_deRegister cl (task_ID t) s))"

definition tasks_prefix :: "task_query \<Rightarrow> string" where
  "tasks_prefix q =
     (if tq_ByCluster q \<noteq> '''' \<and> tq_ByDeployment q \<noteq> '''' then ''state/tasks/'' @ tq_ByCluster q @ ''-'' @ tq_ByDeployment q
      else if tq_ByCluster q \<noteq> '''' then ''state/tasks/'' @ tq_ByCluster q @ ''-''
      else ''state/tasks/'')"

fun consul_task_loop ::
  "'c consul_client \<Rightarrow> string \<Rightarrow> task_query \<Rightarrow> 'c consul \<Rightarrow> (string \<times> kv_value) list \<Rightarrow> task list \<Rightarrow> task list reply" where
  "consul_task_loop cl pre q s [] ts = Ok ts"
| "consul_task_loop cl pre q s ((k, v) # rest) ts =
     (case Decode task_field zero_task v of
        None \<Rightarrow> Stops Panicked
      | Some t \<Rightarrow>
          (case (if tq_Failing q \<or> tq_Running q then consul_GetTaskState cl pre t s else Ok PENDING) of
             Stops how \<Rightarrow> Stops how
           | Fail err _ \<Rightarrow> Fail err (Some ts)
           | Ok state \<Rightarrow>
               if (tq_Failing q \<or> tq_Running q) \<and> tq_Failing q \<and> Healthy state then consul_task_loop cl pre q s rest ts
               else if (tq_Failing q \<or> tq_Running q) \<and> tq_Running q \<and> \<not> Healthy state then consul_task_loop cl pre q s rest ts
               else if tq_Scheduled q \<and> \<not> tk_Scheduled t then consul_task_loop cl pre q s rest ts
               else if tq_Rejected q \<and> \<not> tk_Rejected t then consul_task_loop cl pre q s rest ts
               else if tq_ByHost q \<noteq> '''' \<and> tk_Host t \<noteq> tq_ByHost q then consul_task_loop cl pre q s rest ts
               else if tq_ByCluster q \<noteq> '''' \<and> tq_ByCluster q \<noteq> tk_Cluster t then consul_task_loop cl pre q s rest ts
               else if tq_ByDeployment q \<noteq> '''' \<and> tq_ByDeployment q \<noteq> tk_Deployment t then consul_task_loop cl pre q s rest ts
               else consul_task_loop cl pre q s rest (ts @ [t])))"

definition consul_ListTasks :: "'c consul_client \<Rightarrow> string \<Rightarrow> task_query \<Rightarrow> 'c consul \<Rightarrow> task list reply" where
  "consul_ListTasks cl pre q s =
     (case consul_list cl pre (tasks_prefix q) s of
        Inl err \<Rightarrow> Fail err None
      | Inr kvs \<Rightarrow> consul_task_loop cl pre q s kvs [])"

definition consul_api :: "'c consul_client \<Rightarrow> string \<Rightarrow> 'c consul scheduler_api" where
  "consul_api cl pre = \<lparr>
     HostName = consul_HostName cl,
     ListClusters = consul_ListClusters cl pre, GetCluster = consul_GetCluster cl pre,
     PutCluster = consul_PutCluster cl pre, DelCluster = consul_DelCluster cl pre,
     ListDeployments = consul_ListDeployments cl pre, GetDeployment = consul_GetDeployment cl pre,
     PutDeployment = consul_PutDeployment cl pre, DelDeployment = consul_DelDeployment cl pre,
     ListTaskDefinitions = consul_ListTaskDefinitions cl pre, GetTaskDefinition = consul_GetTaskDefinition cl pre,
     PutTaskDefinition = consul_PutTaskDefinition cl pre,
     ListServices = consul_ListServices cl pre, PutService = consul_PutService cl pre,
     GetService = consul_GetService cl pre, DelService = consul_DelService cl pre,
     ListHosts = consul_ListHosts cl pre, GetHost = consul_GetHost cl pre,
     PutHost = consul_PutHost cl pre, DelHost = consul_DelHost cl pre,
     ListTasks = consul_ListTasks cl pre, PutTask = consul_PutTask cl pre, DelTask = consul_DelTask cl pre,
     GetTaskState = consul_GetTaskState cl pre, PutTaskState = consul_PutTaskState cl pre\<rparr>"

end
