(* ===== verification/Consul_Events.thy ===== *)
theory Consul_Events
  imports Consul_Api
begin

text \<open>
  The events of the Consul backend (src/backends/consul/consul_events.go) and its locks
  (src/backends/consul/consul_lock.go). The monitors poll with blocking queries; one turn of a monitor is
  a function of what the query returned. The lock object of the client library is a parameter.
\<close>

section \<open>Subscriptions\<close>

definition consul_Subscribe :: "string \<Rightarrow> string \<Rightarrow> nat \<Rightarrow> 'c consul \<Rightarrow> 'c consul" where
  "consul_Subscribe key evt room s =
     s\<lparr>cs_listeners := insert_key key \<lparr>ls_on = evt, ls_room = room, ls_sent = []\<rparr> (cs_listeners s)\<rparr>"

definition consul_UnSubscribe :: "string \<Rightarrow> 'c consul \<Rightarrow> 'c consul" where
  "consul_UnSubscribe key s =
     (case lookup (cs_listeners s) key of
        Some _ \<Rightarrow> s\<lparr>cs_listeners := delete_key key (cs_listeners s)\<rparr>
      | None \<Rightarrow> s)"

definition consul_match :: "string \<Rightarrow> string \<Rightarrow> bool" where
  "consul_match key evt = match_from 0 (runes key) (map fst (runes evt))"

text \<open>A send that would have to wait is dropped.\<close>

definition consul_send :: "string \<Rightarrow> listener \<Rightarrow> listener" where
  "consul_send evt l = (if consul_match (ls_on l) evt \<and> ls_room l > 0
     then l\<lparr>ls_room := ls_room l - 1, ls_sent := ls_sent l @ [evt]\<rparr> else l)"

definition consul_emit :: "string list \<Rightarrow> 'c consul \<Rightarrow> 'c consul" where
  "consul_emit events s = s\<lparr>cs_listeners := map (\<lambda>(k, l). (k, fold consul_send events l)) (cs_listeners s)\<rparr>"

section \<open>The monitors\<close>

text \<open>What a blocking query returns: an error, or the entries with the index they were last changed at, and the index of the answer.\<close>

record kv_entry =
  ke_Key :: string
  ke_ModifyIndex :: nat

definition key_event :: "string \<Rightarrow> string \<Rightarrow> string \<Rightarrow> string" where
  "key_event pre name key = name @ ''::'' @ replace_first (pre @ ''/'') '''' (replace_first ''config/'' '''' key)"

definition consul_monitor ::
  "string \<Rightarrow> string \<Rightarrow> go_error + kv_entry list \<times> nat \<Rightarrow> nat \<times> 'c consul \<Rightarrow> nat \<times> 'c consul" where
  "consul_monitor pre name answer = (\<lambda>(lastId, s).
     case answer of
       Inl _ \<Rightarrow> (lastId, s)
     | Inr (kvs, index) \<Rightarrow>
         (index,
          if index > lastId
          then consul_emit (map (\<lambda>kv. key_event pre name (ke_Key kv)) (filter (\<lambda>kv. ke_ModifyIndex kv = index) kvs)) s
          else s))"

text \<open>
  \<open>Start\<close> waits until Consul answers, then starts a monitor per path, each with the first part of its
  events, and the monitor of the checks. \<open>None\<close> while no answer of the list was without an error.
\<close>

definition consul_monitored :: "string \<Rightarrow> (string \<times> string) list" where
  "consul_monitored pre = [
     (pre @ ''/config/task_definitions'', ''config''),
     (pre @ ''/config/deployments'', ''config''),
     (pre @ ''/config/services'', ''config''),
     (pre @ ''/config/clusters'', ''config''),
     (pre @ ''/state'', ''state'')]"

fun consul_Start :: "string \<Rightarrow> (go_error + kv_value option) list \<Rightarrow> (string \<times> string) list option" where
  "consul_Start pre [] = None"
| "consul_Start pre (Inl err # answers) = consul_Start pre answers"
| "consul_Start pre (Inr v # answers) = Some (consul_monitored pre)"

definition health_event :: "check_status \<Rightarrow> string" where
  "health_event ch =
     (let stat = (if hk_Status ch = ''critical'' \<or> hk_Status ch = ''warning'' then ''failing'' else ''passing'') in
      if hk_ServiceID ch = '''' then ''health::node:'' @ stat @ '':'' @ hk_Node ch
      else ''health::task:'' @ hk_Node ch @ '':'' @ stat @ '':'' @ hk_ServiceID ch)"

definition consul_monitorHealth :: "go_error + check_status list \<times> nat \<Rightarrow> nat \<times> 'c consul \<Rightarrow> nat \<times> 'c consul" where
  "consul_monitorHealth answer = (\<lambda>(lastId, s).
     case answer of
       Inl _ \<Rightarrow> (lastId, s)
     | Inr (checks, index) \<Rightarrow> (index, if index > lastId then consul_emit (map health_event checks) s else s))"

section \<open>Locks\<close>

text \<open>
  The lock of the library: taking it may fail, or give up without an error and without a channel, when it
  was asked to try once. \<open>held\<close> is what the wrapper believes.
\<close>

record ('c, 'k) consul_lock_client =
  lk_Opts :: "string \<Rightarrow> bool \<Rightarrow> 'c \<Rightarrow> go_error + 'k"
  lk_Lock :: "'k \<Rightarrow> 'c \<Rightarrow> ('k \<times> 'c) \<times> bool \<times> go_error option"
  lk_Unlock :: "'k \<Rightarrow> 'c \<Rightarrow> ('k \<times> 'c) \<times> go_error option"

record 'k consul_lock =
  kl_key :: string
  kl_lock :: 'k
  kl_held :: bool

definition consul_Lock :: "('c, 'k) consul_lock_client \<Rightarrow> string \<Rightarrow> bool \<Rightarrow> 'c consul \<Rightarrow> 'k consul_lock reply" where
  "consul_Lock lk key block s =
     (case lk_Opts lk key (\<not> block) (cs_consul s) of
        Inl err \<Rightarrow> Fail err None
      | Inr l \<Rightarrow> Ok \<lparr>kl_key = key, kl_lock = l, kl_held = False\<rparr>)"

definition consul_LockIt ::
  "('c, 'k) consul_lock_client \<Rightarrow> 'k consul_lock \<Rightarrow> 'c consul \<Rightarrow> ('k consul_lock \<times> 'c consul) \<times> go_error option" where
  "consul_LockIt lk l s =
     (case lk_Lock lk (kl_lock l) (cs_consul s) of
        ((k, c), _, Some err) \<Rightarrow> ((l\<lparr>kl_lock := k\<rparr>, s\<lparr>cs_consul := c\<rparr>), Some err)
      | ((k, c), got, None) \<Rightarrow>
          ((l\<lparr>kl_lock := k, kl_held := (if got then True else kl_held l)\<rparr>, s\<lparr>cs_consul := c\<rparr>), None))"

definition consul_IsHeld :: "'k consul_lock \<Rightarrow> 'c consul \<Rightarrow> bool" where
  "consul_IsHeld l s = kl_held l"

text \<open>The goroutine that waits on the channel of the lock.\<close>

definition consul_lock_lost :: "'k consul_lock \<Rightarrow> 'k consul_lock" where
  "consul_lock_lost l = l\<lparr>kl_held := False\<rparr>"

definition consul_UnlockIt ::
  "('c, 'k) consul_lock_client \<Rightarrow> 'k consul_lock \<Rightarrow> 'c consul \<Rightarrow> ('k consul_lock \<times> 'c consul) \<times> go_error option" where
  "consul_UnlockIt lk l s =
     (case lk_Unlock lk (kl_lock l) (cs_consul s) of
        ((k, c), err) \<Rightarrow> ((l\<lparr>kl_lock := k, kl_held := False\<rparr>, s\<lparr>cs_consul := c\<rparr>), err))"

definition consul_locks :: "('c, 'k) consul_lock_client \<Rightarrow> ('c consul, 'k consul_lock) lock_api" where
  "consul_locks lk = \<lparr>NewLock = consul_Lock lk, LockIt = consul_LockIt lk, IsHeld = consul_IsHeld, UnlockIt = consul_UnlockIt lk\<rparr>"

section \<open>Lemmas\<close>

lemma consul_emit_keys: "map fst (cs_listeners (consul_emit events s)) = map fst (cs_listeners s)"
  by (induction "cs_listeners s") (auto simp: consul_emit_def split_def)

lemma consul_emit_consul [simp]: "cs_consul (consul_emit events s) = cs_consul s"
  by (simp add: consul_emit_def)

lemma consul_send_cases:
  "ls_on (consul_send e l) = ls_on l"
  "ls_sent (consul_send e l) = ls_sent l @ (if consul_match (ls_on l) e \<and> ls_room l > 0 then [e] else [])"
  by (simp_all add: consul_send_def)

text \<open>A subscriber is sent some of the events its pattern matches, in order.\<close>

lemma sent_fold:
  "\<exists>more. ls_sent (fold consul_send events l) = ls_sent l @ more \<and> subseq more (filter (consul_match (ls_on l)) events) \<and>
    ls_on (fold consul_send events l) = ls_on l"
proof (induction events arbitrary: l)
  case (Cons e es)
  obtain more where more: "ls_sent (fold consul_send es (consul_send e l)) = ls_sent (consul_send e l) @ more"
      "subseq more (filter (consul_match (ls_on l)) es)" "ls_on (fold consul_send es (consul_send e l)) = ls_on l"
    using Cons.IH [of "consul_send e l"] consul_send_cases(1) [of e l] by auto
  let ?new = "(if consul_match (ls_on l) e \<and> ls_room l > 0 then [e] else []) @ more"
  have "subseq ?new (filter (consul_match (ls_on l)) (e # es))" using more(2) by (auto simp: subseq_Cons2)
  then show ?case using more by (intro exI [of _ ?new]) (simp add: consul_send_cases)
qed simp

end
