(* ===== verification/Codec_Laws.thy ===== *)
theory Codec_Laws
  imports Codec
begin

text \<open>
  Reading back what was written: every resource whose numbers fit their machine types is read back as it
  was, maps with their entries in order. Machine integers always fit; the one duration that does not is
  the most negative one, whose text is out of range for the parser, and a container needs an executor.
\<close>

section \<open>Values that fit\<close>

definition fits_uint :: "uint \<Rightarrow> bool" where
  "fits_uint n \<longleftrightarrow> n < 2 ^ 64"

definition fits_duration :: "duration \<Rightarrow> bool" where
  "fits_duration d \<longleftrightarrow> in_int64 d \<and> d \<noteq> - (2 ^ 63)"

definition fits_deployment :: "deployment \<Rightarrow> bool" where
  "fits_deployment d \<longleftrightarrow> fits_uint (dp_TaskVersion d) \<and> in_int64 (dp_Desired d) \<and> in_int64 (dp_Min d) \<and>
     in_int64 (dp_Max d) \<and> in_int64 (dp_MaxAttempts d)"

definition fits_resources :: "resources \<Rightarrow> bool" where
  "fits_resources r \<longleftrightarrow> in_int64 (rs_Memory r) \<and> in_int64 (rs_CpuUnits r) \<and> in_int64 (rs_DiskSpace r)"

definition fits_host :: "host \<Rightarrow> bool" where
  "fits_host h \<longleftrightarrow> (\<forall>p \<in> set (ho_ReservedPorts h). fits_uint p) \<and> fits_resources (ho_ObservedResources h) \<and>
     fits_resources (ho_CalculatedResources h) \<and> fits_resources (ho_BaseResources h)"

definition fits_container :: "container \<Rightarrow> bool" where
  "fits_container c \<longleftrightarrow> ct_Executor c \<noteq> None \<and>
     (\<forall>ch \<in> set (ct_Checks c). fits_duration (ch_Interval ch) \<and> fits_duration (ch_Timeout ch)) \<and>
     (\<forall>p \<in> set (ct_Ports c). fits_uint (pm_Container p) \<and> fits_uint (pm_Host p)) \<and>
     in_int64 (ct_Memory c) \<and> in_int64 (ct_CpuUnits c) \<and> in_int64 (ct_DiskUse c)"

definition fits_definition :: "task_definition \<Rightarrow> bool" where
  "fits_definition t \<longleftrightarrow> fits_uint (td_Version t) \<and> fits_duration (td_GracePeriod t) \<and>
     (\<forall>c \<in> set (td_Containers t). fits_container c)"

definition fits_task :: "task \<Rightarrow> bool" where
  "fits_task t \<longleftrightarrow> fits_definition (tk_TaskDefinition t) \<and> in_int64 (tk_Instance t) \<and>
     (\<forall>p \<in> ran (lookup (tk_ProvidedPorts t)). fits_uint p)"

section \<open>Basic values\<close>

lemma decode_uint_encode [simp]: "fits_uint n \<Longrightarrow> decode_uint (encode_uint n) = Some n"
  by (simp add: decode_uint_def encode_uint_def fits_uint_def)

lemma decode_real_encode [simp]: "decode_real (encode_real x) old = Some x"
  by (simp add: decode_real_def encode_real_def)

lemma those_map: "\<forall>x \<in> set xs. f (g x) = Some x \<Longrightarrow> those (map f (map g xs)) = Some xs"
  by (induction xs) simp_all

lemma decode_list_encode: "\<forall>x \<in> set xs. f (g x) = Some x \<Longrightarrow> decode_list f (JArr (map g xs)) = Some (Some xs)"
  using those_map [of xs f g] by (simp add: decode_list_def)

lemma decode_strings_encode [simp]: "decode_strings (encode_strings xs) = Some (Some xs)"
  unfolding decode_strings_def encode_strings_def by (rule decode_list_encode) (simp add: decode_string_def)

lemma plain_Some [simp]: "plain (Some xs) = xs"
  by (simp add: plain_def)

lemma duration_encode [simp]: "fits_duration d \<Longrightarrow> duration_UnmarshalJSON (duration_MarshalJSON d) = Some d"
  by (simp add: fits_duration_def duration_round_trip)

lemma update_new: "k \<notin> fst ` set m \<Longrightarrow> insert_key k v m = m @ [(k, v)]"
  by (induction m) auto

lemma decode_entries_encode:
  "\<forall>(k, v) \<in> set kvs. f (g v) = Some v \<Longrightarrow> distinct (map fst m @ map fst kvs) \<Longrightarrow>
   decode_entries f (map (\<lambda>(k, v). (k, g v)) kvs) m = Some (m @ kvs)"
  by (induction kvs arbitrary: m) (auto simp: update_new)

lemma decode_map_encode:
  "\<forall>v \<in> ran (lookup m). f (g v) = Some v \<Longrightarrow> decode_map f (encode_map g m) [] = Some (sorted_map m)"
  using decode_entries_encode [of "sorted_map m" f g "[]"] distinct_sorted_map [of m] sorted_map_entry [of _ _ m]
  by (fastforce simp: decode_map_def encode_map_def ran_def)

section \<open>Structs\<close>

lemmas basic_decoders = decode_string_def decode_int_def decode_bool_def set_field_def
lemmas decoding = basic_decoders decode_object_def decode_struct_def lower_def

lemma decode_cluster: "decode_struct cluster_field zero_cluster (Some (encode_cluster c)) = Some c"
  by (simp add: encode_cluster_def cluster_field_def zero_cluster_def decoding)

lemma decode_deployment:
  "fits_deployment d \<Longrightarrow> decode_struct deployment_field zero_deployment (Some (encode_deployment d)) = Some d"
  by (simp add: encode_deployment_def deployment_field_def zero_deployment_def decoding fits_deployment_def)

lemma decode_service: "decode_struct service_field zero_service (Some (encode_service s)) = Some s"
  by (simp add: encode_service_def service_field_def zero_service_def decoding)

lemma decode_resources: "fits_resources r \<Longrightarrow> decode_object resources_field zero_resources (encode_resources r) = Some r"
  by (simp add: encode_resources_def resources_field_def zero_resources_def decoding fits_resources_def)

lemma decode_port: "fits_uint (pm_Container p) \<Longrightarrow> fits_uint (pm_Host p) \<Longrightarrow> decode_object port_field zero_port (encode_port p) = Some p"
  by (simp add: encode_port_def port_field_def zero_port_def decoding)

lemma decode_check:
  "fits_duration (ch_Interval c) \<Longrightarrow> fits_duration (ch_Timeout c) \<Longrightarrow> decode_object check_field zero_check (encode_check c) = Some c"
  by (simp add: encode_check_def check_field_def zero_check_def decoding)

lemma decode_container:
  assumes "fits_container c"
  shows "decode_object container_field zero_container (encode_container c) = Some c"
proof -
  have "decode_list (decode_object check_field zero_check) (JArr (map encode_check (ct_Checks c))) = Some (Some (ct_Checks c))"
      "decode_list (decode_object port_field zero_port) (JArr (map encode_port (ct_Ports c))) = Some (Some (ct_Ports c))"
    using assms by (auto intro!: decode_list_encode decode_check decode_port simp: fits_container_def)
  moreover obtain j where "ct_Executor c = Some j" using assms by (auto simp: fits_container_def)
  ultimately show ?thesis
    using assms by (simp add: encode_container_def container_field_def zero_container_def decoding fits_container_def)
qed

lemma decode_definition:
  assumes "fits_definition t"
  shows "decode_object definition_field zero_definition (encode_definition t) = Some t"
proof -
  have "decode_list (decode_object container_field zero_container) (JArr (map encode_container (td_Containers t))) = Some (Some (td_Containers t))"
    using assms by (auto intro!: decode_list_encode decode_container simp: fits_definition_def)
  then show ?thesis
    using assms by (simp add: encode_definition_def definition_field_def zero_definition_def decoding fits_definition_def)
qed

lemma decode_definition_top:
  "fits_definition t \<Longrightarrow> decode_struct definition_field zero_definition (Some (encode_definition t)) = Some t"
  using decode_definition [of t] by (simp add: decode_struct_def decode_object_def encode_definition_def)

lemma decode_task:
  assumes "fits_task t"
  shows "decode_struct task_field zero_task (Some (encode_task t)) = Some (t\<lparr>tk_ProvidedPorts := sorted_map (tk_ProvidedPorts t)\<rparr>)"
proof -
  have "decode_map decode_uint (encode_map encode_uint (tk_ProvidedPorts t)) [] = Some (sorted_map (tk_ProvidedPorts t))"
    using assms by (intro decode_map_encode) (simp add: fits_task_def)
  then show ?thesis
    using decode_definition [of "tk_TaskDefinition t"] assms
    by (simp add: encode_task_def task_field_def zero_task_def basic_decoders decode_struct_def lower_def fits_task_def)
qed

lemma decode_host:
  assumes "fits_host h"
  shows "decode_struct host_field zero_host (Some (encode_host h)) = Some (h\<lparr>ho_Tags := sorted_map (ho_Tags h)\<rparr>)"
proof -
  have "decode_map (\<lambda>j. decode_string j '''') (encode_map JStr (ho_Tags h)) [] = Some (sorted_map (ho_Tags h))"
    by (intro decode_map_encode) (simp add: decode_string_def)
  moreover have "decode_list decode_uint (JArr (map encode_uint (ho_ReservedPorts h))) = Some (Some (ho_ReservedPorts h))"
    using assms by (intro decode_list_encode) (simp add: fits_host_def)
  ultimately show ?thesis
    using decode_resources assms
    by (simp add: encode_host_def host_field_def zero_host_def basic_decoders decode_struct_def lower_def fits_host_def)
qed

end
