(* ===== verification/Consul_Laws.thy ===== *)
theory Consul_Laws
  imports Consul_Events Codec_Laws Scheduler_Locks
begin

text \<open>
  What the Consul backend promises when Consul answers: the tasks are a map from identifiers to tasks,
  up to the order of the provided ports; writes change that map as they should, queries return exactly
  what they select; hosts and configuration are read back as they were written.
\<close>

section \<open>What the code relies on\<close>

text \<open>
  The documented behaviour of the key-value store while Consul can be reached: \<open>view\<close> reads its content,
  a listing has each entry below its prefix once and depends on these entries only. Registering services
  does not touch the store.
\<close>

definition kv_store :: "'c consul_client \<Rightarrow> ('c \<Rightarrow> string \<Rightarrow> kv_value option) \<Rightarrow> bool" where
  "kv_store cl view \<longleftrightarrow>
     (\<forall>k c. kv_Get cl k c = Inr (view c k)) \<and>
     (\<forall>k v c. snd (kv_Put cl k v c) = None \<and> view (fst (kv_Put cl k v c)) = (view c)(k \<mapsto> v)) \<and>
     (\<forall>k c. snd (kv_Delete cl k c) = None \<and> view (fst (kv_Delete cl k c)) = (view c)(k := None)) \<and>
     (\<forall>p c. \<exists>kvs. kv_List cl p c = Inr kvs \<and> distinct (map fst kvs) \<and>
       set kvs = {(k, v). view c k = Some v \<and> prefix p k}) \<and>
     (\<forall>p c c'. (\<forall>k. prefix p k \<longrightarrow> view c k = view c' k) \<longrightarrow> kv_List cl p c = kv_List cl p c') \<and>
     (\<forall>r c. snd (ServiceRegister cl r c) = None \<and> view (fst (ServiceRegister cl r c)) = view c) \<and>
     (\<forall>i c. view (fst (ServiceDeregister cl i c)) = view c) \<and>
     (\<forall>n c. \<exists>chs. Checks cl n c = Inr chs)"

lemma kv_store_laws:
  assumes "kv_store cl view"
  shows "kv_Get cl k c = Inr (view c k)"
    and "snd (kv_Put cl k v c) = None" "view (fst (kv_Put cl k v c)) = (view c)(k \<mapsto> v)"
    and "snd (kv_Delete cl k c) = None" "view (fst (kv_Delete cl k c)) = (view c)(k := None)"
    and "snd (ServiceRegister cl r c) = None" "view (fst (ServiceRegister cl r c)) = view c"
    and "view (fst (ServiceDeregister cl i c)) = view c"
  using assms by (simp_all add: kv_store_def)

lemma kv_store_list:
  assumes "kv_store cl view"
  obtains kvs where "kv_List cl p c = Inr kvs" "distinct (map fst kvs)" "set kvs = {(k, v). view c k = Some v \<and> prefix p k}"
  using assms unfolding kv_store_def by blast

lemma kv_store_checks: "kv_store cl view \<Longrightarrow> \<exists>chs. Checks cl n c = Inr chs"
  unfolding kv_store_def by blast

lemma kv_store_list_cong:
  "kv_store cl view \<Longrightarrow> (\<And>k. prefix p k \<Longrightarrow> view c k = view c' k) \<Longrightarrow> kv_List cl p c = kv_List cl p c'"
  unfolding kv_store_def by blast

lemma full_key_inject [simp]: "full_key pre a = full_key pre b \<longleftrightarrow> a = b"
  by (simp add: full_key_def)

lemma prefix_full_key [simp]: "prefix (full_key pre a) (full_key pre b) \<longleftrightarrow> prefix a b"
  by (simp add: full_key_def)

text \<open>The content below the prefix of the application.\<close>

definition content :: "('c \<Rightarrow> string \<Rightarrow> kv_value option) \<Rightarrow> string \<Rightarrow> 'c consul \<Rightarrow> string \<Rightarrow> kv_value option" where
  "content view pre s key = view (cs_consul s) (full_key pre key)"

lemma consul_run_fields [simp]:
  "cs_consul (fst (consul_run cmd s)) = fst (cmd (cs_consul s))" "snd (consul_run cmd s) = snd (cmd (cs_consul s))"
  "cs_registered (fst (consul_run cmd s)) = cs_registered s" "cs_listeners (fst (consul_run cmd s)) = cs_listeners s"
  by (simp_all add: consul_run_def split: prod.split)

lemma content_put:
  assumes "kv_store cl view"
  shows "content view pre (fst (consul_put cl pre key v s)) = (content view pre s)(key \<mapsto> v) \<and> snd (consul_put cl pre key v s) = None"
  using kv_store_laws [OF assms] by (auto simp: content_def consul_put_def fun_eq_iff)

lemma content_del:
  assumes "kv_store cl view"
  shows "content view pre (fst (consul_del cl pre key s)) = (content view pre s)(key := None) \<and> snd (consul_del cl pre key s) = None"
  using kv_store_laws [OF assms] by (auto simp: content_def consul_del_def fun_eq_iff)

lemma consul_get_content:
  assumes "kv_store cl view"
  shows "consul_get cl pre key s =
    (case content view pre s key of None \<Rightarrow> (None, Some ErrNotFound)
     | Some v \<Rightarrow> if no_bytes v then (Some v, Some ErrNotFound) else (Some v, None))"
  using kv_store_laws(1) [OF assms] by (simp add: consul_get_def content_def split: option.split)

lemma consul_read_doc:
  assumes "kv_store cl view" and "content view pre s key = Some (Doc j)" and "decode_struct f zero (Some j) = Some x"
  shows "consul_read cl pre f zero key s = Ok x"
  using assms by (simp add: consul_read_def consul_get_content no_bytes_def Decode_def)

lemma consul_read_none:
  assumes "kv_store cl view" and "content view pre s key = None"
  shows "consul_read cl pre f zero key s = Fail ErrNotFound (Some zero)"
  using assms by (simp add: consul_read_def consul_get_content)

text \<open>What is read depends on what is stored under the key, or below it.\<close>

lemma consul_read_cong:
  "kv_store cl view \<Longrightarrow> content view pre s' key = content view pre s key \<Longrightarrow>
   consul_read cl pre f zero key s' = consul_read cl pre f zero key s"
  by (simp add: consul_read_def consul_get_content)

lemma consul_read_all_cong:
  assumes "kv_store cl view" and "\<And>k. prefix key k \<Longrightarrow> content view pre s' k = content view pre s k"
  shows "consul_read_all cl pre f zero key s' = consul_read_all cl pre f zero key s"
proof -
  have "view (cs_consul s') k = view (cs_consul s) k" if "prefix (full_key pre key) k" for k
    using that assms(2) by (auto simp: prefix_def content_def full_key_def)
  then show ?thesis
    using kv_store_list_cong [OF assms(1), of "full_key pre key" "cs_consul s'" "cs_consul s"]
    by (simp add: consul_read_all_def consul_list_def)
qed

section \<open>The tasks\<close>

text \<open>A task as it is read back, and the map of the stored tasks.\<close>

definition normal :: "task \<Rightarrow> task" where
  "normal t = t\<lparr>tk_ProvidedPorts := sorted_map (tk_ProvidedPorts t)\<rparr>"

lemma normal_fields [simp]:
  "task_ID (normal t) = task_ID t" "tk_Cluster (normal t) = tk_Cluster t" "tk_Deployment (normal t) = tk_Deployment t"
  "tk_Host (normal t) = tk_Host t" "tk_Scheduled (normal t) = tk_Scheduled t" "tk_Rejected (normal t) = tk_Rejected t"
  "tk_TaskDefinition (normal t) = tk_TaskDefinition t" "lookup (tk_ProvidedPorts (normal t)) = lookup (tk_ProvidedPorts t)"
  by (simp_all add: normal_def)

definition task_key :: "string \<Rightarrow> string" where
  "task_key k = ''state/tasks/'' @ k"

lemma task_key_inject [simp]: "task_key a = task_key b \<longleftrightarrow> a = b"
  by (simp add: task_key_def)

definition stored_task :: "('c \<Rightarrow> string \<Rightarrow> kv_value option) \<Rightarrow> string \<Rightarrow> 'c consul \<Rightarrow> string \<Rightarrow> task option" where
  "stored_task view pre s k = (case content view pre s (task_key k) of None \<Rightarrow> None | Some v \<Rightarrow> Decode task_field zero_task v)"

text \<open>Every stored task can be read, and is filed under its identifier.\<close>

definition readable :: "('c \<Rightarrow> string \<Rightarrow> kv_value option) \<Rightarrow> string \<Rightarrow> 'c consul \<Rightarrow> bool" where
  "readable view pre s \<longleftrightarrow> (\<forall>k v. content view pre s (task_key k) = Some v \<longrightarrow>
     (\<exists>t. Decode task_field zero_task v = Some t \<and> task_ID t = k))"

lemma stored_task_key: "readable view pre s \<Longrightarrow> stored_task view pre s k = Some t \<Longrightarrow> task_ID t = k"
  by (fastforce simp: readable_def stored_task_def split: option.splits)

text \<open>A write away from the tasks leaves them alone.\<close>

lemma tasks_frame:
  assumes "\<And>k. content view pre s' (task_key k) = content view pre s (task_key k)"
  shows "stored_task view pre s' = stored_task view pre s" "readable view pre s' = readable view pre s"
  using assms by (simp_all add: stored_task_def readable_def fun_eq_iff)

lemma Decode_encode_task: "fits_task t \<Longrightarrow> Decode task_field zero_task (Doc (encode_task t)) = Some (normal t)"
  by (simp add: Decode_def decode_task normal_def)

lemma consul_PutTask_content:
  assumes store: "kv_store cl view"
  shows "content view pre (fst (consul_PutTask cl pre t s)) = (content view pre s)(task_key (task_ID t) \<mapsto> Doc (encode_task t)) \<and>
    snd (consul_PutTask cl pre t s) = None"
proof -
  let ?s = "fst (consul_register cl t s)"
  have "content view pre ?s = content view pre s"
    using kv_store_laws(7) [OF store] by (simp add: content_def consul_register_def fun_eq_iff)
  then show ?thesis
    using content_put [OF store, of pre "task_key (task_ID t)" "Doc (encode_task t)" ?s] by (simp add: consul_PutTask_def task_key_def)
qed

lemma consul_PutTask_store:
  assumes store: "kv_store cl view" and fits: "fits_task t"
  shows "snd (consul_PutTask cl pre t s) = None \<and>
    stored_task view pre (fst (consul_PutTask cl pre t s)) = (stored_task view pre s)(task_ID t \<mapsto> normal t) \<and>
    (readable view pre s \<longrightarrow> readable view pre (fst (consul_PutTask cl pre t s)))"
  using consul_PutTask_content [OF store, of pre t s] Decode_encode_task [OF fits]
  by (auto simp: stored_task_def readable_def fun_eq_iff)

lemma consul_DelTask_content:
  assumes store: "kv_store cl view"
  shows "content view pre (fst (consul_DelTask cl pre t s)) = (content view pre s)(task_key (task_ID t) := None) \<and>
    snd (consul_DelTask cl pre t s) = None"
proof -
  let ?s = "fst (consul_deRegister cl (task_ID t) s)"
  have "content view pre ?s = content view pre s"
    using kv_store_laws(8) [OF store] by (simp add: content_def consul_deRegister_def fun_eq_iff)
  then show ?thesis
    using content_del [OF store, of pre "task_key (task_ID t)" ?s] by (simp add: consul_DelTask_def task_key_def)
qed

lemma consul_DelTask_store:
  assumes store: "kv_store cl view"
  shows "snd (consul_DelTask cl pre t s) = None \<and>
    stored_task view pre (fst (consul_DelTask cl pre t s)) = (stored_task view pre s)(task_ID t := None) \<and>
    (readable view pre s \<longrightarrow> readable view pre (fst (consul_DelTask cl pre t s)))"
  using consul_DelTask_content [OF store, of pre t s] by (auto simp: stored_task_def readable_def fun_eq_iff)

lemma consul_PutTaskState_store:
  assumes store: "kv_store cl view"
  shows "snd (consul_PutTaskState cl pre k st s) = None \<and>
    stored_task view pre (fst (consul_PutTaskState cl pre k st s)) = stored_task view pre s \<and>
    readable view pre (fst (consul_PutTaskState cl pre k st s)) = readable view pre s \<and>
    content view pre (fst (consul_PutTaskState cl pre k st s)) (''state/health/'' @ k) = Some (Raw st)"
  using content_put [OF store, of pre "''state/health/'' @ k" "Raw st" s] tasks_frame [of view pre "fst (consul_PutTaskState cl pre k st s)" s]
  by (simp add: consul_PutTaskState_def task_key_def)

text \<open>Writing configuration does not touch the tasks either.\<close>

lemma consul_config_store:
  assumes store: "kv_store cl view" and "key = CHR ''c'' # rest \<or> key = CHR ''h'' # rest"
  shows "stored_task view pre (fst (consul_put cl pre key v s)) = stored_task view pre s"
    and "readable view pre (fst (consul_put cl pre key v s)) = readable view pre s"
  using content_put [OF store, of pre key v s] assms(2) tasks_frame [of view pre "fst (consul_put cl pre key v s)" s]
  by (auto simp: task_key_def)

text \<open>So does writing a host.\<close>

lemma consul_PutHost_content:
  assumes store: "kv_store cl view"
  shows "content view pre (fst (consul_PutHost cl pre h s)) =
    (content view pre s)(host_key (ho_Cluster h) (ho_Name h) \<mapsto> Doc (encode_host h)) \<and> snd (consul_PutHost cl pre h s) = None"
proof -
  let ?key = "host_key (ho_Cluster h) (ho_Name h)"
  obtain s1 where s1: "consul_put cl pre ?key (Doc (encode_host h)) s = (s1, None)"
    using content_put [OF store, of pre ?key "Doc (encode_host h)" s] by (metis prod.collapse)
  then have c: "content view pre s1 = (content view pre s)(?key \<mapsto> Doc (encode_host h))"
    using content_put [OF store, of pre ?key "Doc (encode_host h)" s] by simp
  obtain s2 where s2: "consul_run (ServiceRegister cl (host_registration h)) s1 = (s2, None)"
    using kv_store_laws(6) [OF store] consul_run_fields(2) by (metis prod.collapse)
  then have "view (cs_consul s2) = view (cs_consul s1)"
    using kv_store_laws(7) [OF store] consul_run_fields(1) by (metis fst_conv)
  then show ?thesis using s1 s2 c by (simp add: consul_PutHost_def content_def fun_eq_iff)
qed

section \<open>Queries\<close>

lemma consul_task_loop_selects:
  assumes "\<not> tq_Failing q" and "\<not> tq_Running q" and "\<forall>(k, v) \<in> set kvs. Decode task_field zero_task v \<noteq> None"
  shows "consul_task_loop cl pre q s kvs acc =
    Ok (acc @ filter (selects q PENDING) (map (\<lambda>(k, v). the (Decode task_field zero_task v)) kvs))"
  using assms(3)
proof (induction kvs arbitrary: acc)
  case (Cons kv kvs)
  obtain k v where kv: "kv = (k, v)" by (cases kv)
  then obtain t where t: "Decode task_field zero_task v = Some t" using Cons.prems by auto
  have "consul_task_loop cl pre q s (kv # kvs) acc = consul_task_loop cl pre q s kvs (if selects q PENDING t then acc @ [t] else acc)"
    using assms(1,2) t kv by (simp add: selects_def)
  then show ?case using Cons.IH Cons.prems t kv by simp
qed simp

lemma tasks_prefix_key: "\<exists>p. tasks_prefix q = task_key p"
  by (simp add: tasks_prefix_def task_key_def)

lemma selected_prefix:
  "selects q PENDING t \<Longrightarrow> prefix (tasks_prefix q) (task_key (task_ID t))"
  by (auto simp: tasks_prefix_def task_key_def selects_def task_ID_def task_Name_def)

lemma consul_ListTasks_selects:
  assumes store: "kv_store cl view" and readable: "readable view pre s" and q: "\<not> tq_Failing q" "\<not> tq_Running q"
  shows "\<exists>ts. consul_ListTasks cl pre q s = Ok ts \<and>
    set ts = {t \<in> ran (stored_task view pre s). selects q PENDING t} \<and> distinct (map task_ID ts)"
proof -
  obtain p where p: "tasks_prefix q = task_key p" using tasks_prefix_key by blast
  obtain kvs where kvs: "kv_List cl (full_key pre (tasks_prefix q)) (cs_consul s) = Inr kvs" "distinct (map fst kvs)"
      "set kvs = {(k, v). view (cs_consul s) k = Some v \<and> prefix (full_key pre (tasks_prefix q)) k}"
    using kv_store_list [OF store] by blast
  let ?task = "\<lambda>(k, v). the (Decode task_field zero_task v)"
  have entry: "\<exists>i t. k = full_key pre (task_key i) \<and> content view pre s (task_key i) = Some v \<and>
      Decode task_field zero_task v = Some t \<and> task_ID t = i" if "(k, v) \<in> set kvs" for k v
  proof -
    have "prefix (full_key pre (task_key p)) k" "view (cs_consul s) k = Some v" using that kvs(3) p by auto
    then obtain i where "k = full_key pre (task_key i)" by (auto simp: prefix_def full_key_def task_key_def)
    with \<open>view (cs_consul s) k = Some v\<close> readable show ?thesis by (auto simp: content_def readable_def)
  qed
  then have some: "\<forall>(k, v) \<in> set kvs. Decode task_field zero_task v \<noteq> None" by fastforce
  let ?ts = "filter (selects q PENDING) (map ?task kvs)"
  have "consul_ListTasks cl pre q s = Ok ?ts"
    using consul_task_loop_selects [OF q some, of cl pre s "[]"] kvs(1) by (simp add: consul_ListTasks_def consul_list_def)
  moreover have "set ?ts = {t \<in> ran (stored_task view pre s). selects q PENDING t}"
  proof (intro set_eqI iffI)
    fix t
    assume "t \<in> set ?ts"
    then obtain k v where "(k, v) \<in> set kvs" "t = the (Decode task_field zero_task v)" "selects q PENDING t" by auto
    then show "t \<in> {t \<in> ran (stored_task view pre s). selects q PENDING t}"
      using entry [of k v] by (auto simp: stored_task_def ran_def split: option.splits)
  next
    fix t
    assume t: "t \<in> {t \<in> ran (stored_task view pre s). selects q PENDING t}"
    then obtain i where i: "stored_task view pre s i = Some t" by (auto simp: ran_def)
    then have "task_ID t = i" by (rule stored_task_key [OF readable])
    moreover obtain v where v: "content view pre s (task_key i) = Some v" "Decode task_field zero_task v = Some t"
      using i by (auto simp: stored_task_def split: option.splits)
    ultimately have "(full_key pre (task_key i), v) \<in> set kvs"
      using selected_prefix [of q t] t kvs(3) by (auto simp: content_def)
    then show "t \<in> set ?ts" using t v by force
  qed
  moreover have "distinct (map task_ID ?ts)"
  proof -
    have "map (\<lambda>kv. full_key pre (task_key (task_ID (?task kv)))) kvs = map fst kvs"
      using entry by (intro map_cong) (fastforce split: prod.splits)+
    then have "distinct (map (\<lambda>kv. full_key pre (task_key (task_ID (?task kv)))) kvs)" using kvs(2) by (rule ssubst)
    then have "distinct (map task_ID (map ?task kvs))" by (simp add: distinct_map inj_on_def)
    then show ?thesis by (rule distinct_map_filter)
  qed
  ultimately show ?thesis by blast
qed

section \<open>The state of a task\<close>

lemma check_loop_result:
  "fst (check_loop i chs any) = (if \<exists>ch \<in> set chs. hk_ServiceID ch = i \<and> hk_Status ch \<noteq> ''passing'' then Some FAILING else None) \<and>
   (fst (check_loop i chs any) = None \<longrightarrow> snd (check_loop i chs any) = (any \<or> (\<exists>ch \<in> set chs. hk_ServiceID ch = i)))"
  by (induction i chs any rule: check_loop.induct) auto

lemma consul_GetTaskState_reads:
  assumes "kv_store cl view" and "Checks cl (''task-'' @ task_Name t) (cs_consul s) = Inr chs"
    and "st = (case content view pre s (''state/health/'' @ task_ID t) of None \<Rightarrow> PENDING | Some v \<Rightarrow> state_text v)"
    and "mine = {ch \<in> set chs. hk_ServiceID ch = ''task-'' @ task_ID t}"
  shows "GetTaskState (consul_api cl pre) t s = Ok (if st \<in> {STOPPING, STARTING, EXITED} then st
    else if \<exists>ch \<in> mine. hk_Status ch \<noteq> ''passing'' then FAILING else if mine \<noteq> {} then RUNNING else st)"
proof -
  let ?i = "''task-'' @ task_ID t"
  have read: "(case fst (consul_get cl pre (''state/health/'' @ task_ID t) s) of None \<Rightarrow> PENDING | Some v \<Rightarrow> state_text v) = st"
      "snd (consul_get cl pre (''state/health/'' @ task_ID t) s) \<in> {None, Some ErrNotFound}"
    using assms(3) by (auto simp: consul_get_content [OF assms(1)] split: option.splits)
  obtain got err where g: "consul_get cl pre (''state/health/'' @ task_ID t) s = (got, err)" by (rule prod.exhaust)
  have err: "\<not> (err \<noteq> None \<and> err \<noteq> Some ErrNotFound)" using read(2) g by auto
  have got: "(case got of None \<Rightarrow> PENDING | Some v \<Rightarrow> state_text v) = st" using read(1) g by simp
  note loop = check_loop_result [of ?i chs False]
  show ?thesis
  proof (cases "\<exists>ch \<in> mine. hk_Status ch \<noteq> ''passing''")
    case True
    then have "fst (check_loop ?i chs False) = Some FAILING" using loop assms(4) by auto
    then obtain u where "check_loop ?i chs False = (Some FAILING, u)" by (cases "check_loop ?i chs False") auto
    then show ?thesis using True err got g assms(2) by (simp add: consul_api_def consul_GetTaskState_def Let_def)
  next
    case False
    then have "fst (check_loop ?i chs False) = None" using loop assms(4) by auto
    moreover from this have "snd (check_loop ?i chs False) \<longleftrightarrow> mine \<noteq> {}" using loop assms(4) by auto
    ultimately have "check_loop ?i chs False = (None, mine \<noteq> {})" by (intro prod_eqI) simp_all
    then show ?thesis using False err got g assms(2) by (cases "mine = {}") (simp_all add: consul_api_def consul_GetTaskState_def Let_def)
  qed
qed

section \<open>Locks\<close>

text \<open>A lock object of Consul keeps the contract of the locks of the master, whatever the library answers.\<close>

interpretation consul_lock_service: lock_service "consul_locks lk" kl_key for lk
  by unfold_locales
    (auto simp: consul_locks_def consul_Lock_def consul_LockIt_def consul_UnlockIt_def consul_IsHeld_def
      split: sum.splits prod.splits option.splits if_splits)

section \<open>A store to compute with\<close>

text \<open>Consul as an association list, with no services and no checks.\<close>

definition local_consul :: "(string, kv_value) gomap consul_client" where
  "local_consul = \<lparr>
     kv_Get = (\<lambda>k c. Inr (lookup c k)), kv_Put = (\<lambda>k v c. (insert_key k v c, None)),
     kv_Delete = (\<lambda>k c. (delete_key k c, None)),
     kv_List = (\<lambda>p c. Inr (filter (\<lambda>(k, v). prefix p k) (sorted_map c))),
     NodeName = (\<lambda>c. Inr ''node''), Checks = (\<lambda>n c. Inr []),
     ServiceRegister = (\<lambda>r c. (c, None)), ServiceDeregister = (\<lambda>i c. (c, None))\<rparr>"

lemma local_consul_store: "kv_store local_consul lookup"
proof -
  have "set (sorted_map c) = {(k, v). lookup c k = Some v}" for c :: "(string, kv_value) gomap"
    using map_of_eq_Some_iff [OF distinct_sorted_map, of c] by auto
  moreover have "distinct (map fst (filter P (sorted_map c)))" for P and c :: "(string, kv_value) gomap"
    by (rule distinct_map_filter) (rule distinct_sorted_map)
  ultimately show ?thesis by (auto simp: kv_store_def local_consul_def intro!: filtered_entries)
qed

end
