(* ===== verification/Consul_Properties.thy ===== *)
theory Consul_Properties
  imports Consul_Laws Agent_Properties
begin

text \<open>
  The properties of the Consul backend, for every client library that keeps the contract \<open>kv_store\<close>, each
  applied to a store that is an association list.
\<close>

section \<open>An example store\<close>

type_synonym store = "(string, kv_value) gomap"

definition empty_store :: "store consul" where
  "empty_store = NewConsulApi []"

lemma readable_empty [simp]: "readable lookup pre empty_store"
  by (simp add: readable_def content_def empty_store_def NewConsulApi_def)

lemma fits_ex_task: "fits_task (run_task [])"
  by (simp add: fits_task_def fits_definition_def fits_container_def fits_uint_def fits_duration_def in_int64_def run_container_def
      run_task_def ex_task_def ex_definition_def ex_container_def NewTask_def second_def)

section \<open>The tasks are a map\<close>

text \<open>
  C20. The tasks stored in Consul are a map from identifiers to tasks: putting a task adds it under its
  identifier, deleting one removes it, storing the state of a task leaves the map alone, none of them
  fails, and a query that does not ask for states returns exactly the tasks of the map that it selects,
  each once.
\<close>

theorem consul_tasks_map:
  assumes "kv_store cl view" and "readable view pre s" and "fits_task t" and "\<not> tq_Failing q" and "\<not> tq_Running q"
  shows "snd (PutTask (consul_api cl pre) t s) = None \<and>
    stored_task view pre (fst (PutTask (consul_api cl pre) t s)) = (stored_task view pre s)(task_ID t \<mapsto> normal t) \<and>
    snd (DelTask (consul_api cl pre) t s) = None \<and>
    stored_task view pre (fst (DelTask (consul_api cl pre) t s)) = (stored_task view pre s)(task_ID t := None) \<and>
    stored_task view pre (fst (PutTaskState (consul_api cl pre) k st s)) = stored_task view pre s \<and>
    readable view pre (fst (PutTask (consul_api cl pre) t s)) \<and> readable view pre (fst (DelTask (consul_api cl pre) t s)) \<and>
    readable view pre (fst (PutTaskState (consul_api cl pre) k st s)) \<and>
    (\<exists>ts. ListTasks (consul_api cl pre) q s = Ok ts \<and>
      set ts = {u \<in> ran (stored_task view pre s). selects q PENDING u} \<and> distinct (map task_ID ts))"
  using consul_PutTask_store [OF assms(1,3), of pre s] consul_DelTask_store [OF assms(1), of pre t s]
    consul_PutTaskState_store [OF assms(1), of pre k st s] consul_ListTasks_selects [OF assms(1,2,4,5)] assms(2)
  by (simp add: consul_api_def)

theorem consul_tasks_map_witness:
  "\<exists>ts. ListTasks (consul_api local_consul ''sked'') any_task
      (fst (PutTask (consul_api local_consul ''sked'') (run_task []) empty_store)) = Ok ts \<and> set ts = {normal (run_task [])}"
proof -
  have q: "\<not> tq_Failing any_task" "\<not> tq_Running any_task" by (simp_all add: any_task_def)
  let ?s = "fst (PutTask (consul_api local_consul ''sked'') (run_task []) empty_store)"
  have stored: "stored_task lookup ''sked'' ?s = (stored_task lookup ''sked'' empty_store)(task_ID (run_task []) \<mapsto> normal (run_task []))"
    and r: "readable lookup ''sked'' ?s"
    using consul_tasks_map [OF local_consul_store readable_empty fits_ex_task q] by blast+
  have "stored_task lookup ''sked'' empty_store = Map.empty"
    by (simp add: stored_task_def content_def empty_store_def NewConsulApi_def fun_eq_iff)
  then have "{u \<in> ran (stored_task lookup ''sked'' ?s). selects any_task PENDING u} = {normal (run_task [])}"
    unfolding stored by (auto simp: ran_def selects_def any_task_def)
  moreover obtain ts where "ListTasks (consul_api local_consul ''sked'') any_task ?s = Ok ts"
      "set ts = {u \<in> ran (stored_task lookup ''sked'' ?s). selects any_task PENDING u}"
    using consul_tasks_map [OF local_consul_store r fits_ex_task q] by blast
  ultimately show ?thesis by auto
qed

section \<open>What is put is what is read\<close>

lemma consul_read_put:
  assumes "kv_store cl view" and "decode_struct f zero (Some j) = Some x"
  shows "consul_read cl pre f zero key (fst (consul_put cl pre key (Doc j) s)) = Ok x"
  using content_put [OF assms(1), of pre key "Doc j" s] by (intro consul_read_doc [OF assms(1) _ assms(2)]) simp

text \<open>
  C31. Every resource put into Consul is read back as it was put, up to the order of the entries of its
  maps: clusters, deployments, services, task definitions under their name and version, hosts and tasks.
\<close>

theorem consul_round_trips:
  assumes "kv_store cl view" and "fits_deployment d" and "fits_definition td" and "fits_host h" and "fits_task t"
  shows "GetCluster (consul_api cl pre) (cl_Name c) (fst (PutCluster (consul_api cl pre) c s)) = Ok c \<and>
    GetDeployment (consul_api cl pre) (dp_Name d) (fst (PutDeployment (consul_api cl pre) d s)) = Ok d \<and>
    GetService (consul_api cl pre) (sv_Name v) (fst (PutService (consul_api cl pre) v s)) = Ok v \<and>
    GetTaskDefinition (consul_api cl pre) (td_Name td) (td_Version td) (fst (PutTaskDefinition (consul_api cl pre) td s)) = Ok td \<and>
    GetHost (consul_api cl pre) (ho_Cluster h) (ho_Name h) (fst (PutHost (consul_api cl pre) h s)) = Ok (h\<lparr>ho_Tags := sorted_map (ho_Tags h)\<rparr>) \<and>
    consul_GetTask cl pre (task_ID t) (fst (PutTask (consul_api cl pre) t s)) = Ok (normal t)"
proof -
  have "consul_read cl pre host_field zero_host (host_key (ho_Cluster h) (ho_Name h)) (fst (consul_PutHost cl pre h s)) =
      Ok (h\<lparr>ho_Tags := sorted_map (ho_Tags h)\<rparr>)"
    using consul_PutHost_content [OF assms(1), of pre h s] by (intro consul_read_doc [OF assms(1) _ decode_host [OF assms(4)]]) simp
  moreover have "consul_read cl pre task_field zero_task (''state/tasks/'' @ task_ID t) (fst (consul_PutTask cl pre t s)) = Ok (normal t)"
    unfolding consul_PutTask_def using decode_task [OF assms(5)] by (intro consul_read_put [OF assms(1)]) (simp add: normal_def)
  ultimately show ?thesis
    using assms(2,3)
    by (simp add: consul_api_def consul_GetCluster_def consul_PutCluster_def consul_GetDeployment_def consul_PutDeployment_def
        consul_GetService_def consul_PutService_def consul_GetTaskDefinition_def consul_PutTaskDefinition_def consul_GetHost_def
        consul_GetTask_def consul_read_put [OF assms(1)] decode_cluster decode_deployment decode_service decode_definition_top)
qed

theorem consul_round_trips_witness:
  "GetDeployment (consul_api local_consul ''sked'') ''d'' (fst (PutDeployment (consul_api local_consul ''sked'') (ex_deployment 2) empty_store)) =
      Ok (ex_deployment 2) \<and>
    consul_GetTask local_consul ''sked'' (task_ID (run_task [])) (fst (PutTask (consul_api local_consul ''sked'') (run_task []) empty_store)) =
      Ok (normal (run_task []))"
proof -
  have "fits_deployment (ex_deployment 2)" by (simp add: fits_deployment_def fits_uint_def in_int64_def ex_deployment_def)
  moreover have "fits_definition (tk_TaskDefinition (run_task []))" using fits_ex_task by (simp add: fits_task_def)
  moreover have "fits_host (ex_host ''h'' 0)" by (simp add: fits_host_def fits_resources_def ex_host_def box_def in_int64_def)
  ultimately show ?thesis
    using consul_round_trips [OF local_consul_store _ _ _ fits_ex_task, of "ex_deployment 2" _ _ "''sked''" _ empty_store]
    by (auto simp: ex_deployment_def)
qed

section \<open>The state of a task\<close>

text \<open>
  C32. The state of a task, when Consul answers: a stored text that says that the agent is starting or
  stopping it, or that it exited, holds whatever its checks say; otherwise one check of the task that does
  not pass makes it failing, checks that all pass make it running, and without checks the stored text
  holds, or pending if there is none.
\<close>

theorem consul_task_state:
  assumes "kv_store cl view" and "Checks cl (''task-'' @ task_Name t) (cs_consul s) = Inr chs"
    and "st = (case content view pre s (''state/health/'' @ task_ID t) of None \<Rightarrow> PENDING | Some v \<Rightarrow> state_text v)"
    and "mine = {ch \<in> set chs. hk_ServiceID ch = ''task-'' @ task_ID t}"
  shows "GetTaskState (consul_api cl pre) t s = Ok (if st \<in> {STOPPING, STARTING, EXITED} then st
    else if \<exists>ch \<in> mine. hk_Status ch \<noteq> ''passing'' then FAILING else if mine \<noteq> {} then RUNNING else st)"
  by (rule consul_GetTaskState_reads [OF assms])

text \<open>Checks of two tasks of one deployment: those of the first pass, one of the second does not.\<close>

definition checked_consul :: "store consul_client" where
  "checked_consul = local_consul\<lparr>Checks := (\<lambda>name c. Inr [
     \<lparr>hk_Node = ''h'', hk_ServiceID = ''task-c-d-1-0'', hk_Status = ''passing''\<rparr>,
     \<lparr>hk_Node = ''h'', hk_ServiceID = ''task-c-d-1-1'', hk_Status = ''critical''\<rparr>])\<rparr>"

lemma checked_consul_store: "kv_store checked_consul lookup"
  using local_consul_store by (simp add: kv_store_def checked_consul_def)

theorem consul_task_state_witness:
  "GetTaskState (consul_api checked_consul ''sked'') (ex_task 1 0) empty_store = Ok RUNNING \<and>
    GetTaskState (consul_api checked_consul ''sked'') (ex_task 1 1) empty_store = Ok FAILING"
proof -
  have ids: "task_ID (ex_task 1 0) = ''c-d-1-0''" "task_ID (ex_task 1 1) = ''c-d-1-1''"
    by (simp_all add: ex_ids ex_defs)
  have none: "content lookup ''sked'' empty_store key = None" for key
    by (simp add: content_def empty_store_def NewConsulApi_def)
  have checks: "Checks checked_consul n c = Inr [
     \<lparr>hk_Node = ''h'', hk_ServiceID = ''task-c-d-1-0'', hk_Status = ''passing''\<rparr>,
     \<lparr>hk_Node = ''h'', hk_ServiceID = ''task-c-d-1-1'', hk_Status = ''critical''\<rparr>]" for n c
    by (simp add: checked_consul_def)
  have "GetTaskState (consul_api checked_consul ''sked'') t empty_store = Ok RUNNING" if "task_ID t = ''c-d-1-0''" for t
    using consul_task_state [OF checked_consul_store checks refl refl, of "''sked''" t empty_store] that
    by (simp add: none task_state_defs Collect_conv_if Collect_disj_eq conj_disj_distribR)
  moreover have "GetTaskState (consul_api checked_consul ''sked'') t empty_store = Ok FAILING" if "task_ID t = ''c-d-1-1''" for t
    using consul_task_state [OF checked_consul_store checks refl refl, of "''sked''" t empty_store] that
    by (simp add: none task_state_defs Collect_conv_if Collect_disj_eq conj_disj_distribR)
  ultimately show ?thesis using ids by blast
qed

section \<open>The hosts of a cluster\<close>

text \<open>Every document below \<open>hosts/\<close> is a host, filed under its cluster and its name.\<close>

definition readable_hosts :: "('c \<Rightarrow> string \<Rightarrow> kv_value option) \<Rightarrow> string \<Rightarrow> 'c consul \<Rightarrow> bool" where
  "readable_hosts view pre s \<longleftrightarrow> (\<forall>key v. content view pre s (''hosts/'' @ key) = Some v \<longrightarrow>
     (\<exists>h. Decode host_field zero_host v = Some h \<and> ''hosts/'' @ key = host_key (ho_Cluster h) (ho_Name h)))"

definition stored_hosts :: "('c \<Rightarrow> string \<Rightarrow> kv_value option) \<Rightarrow> string \<Rightarrow> 'c consul \<Rightarrow> host set" where
  "stored_hosts view pre s = {h. \<exists>v. content view pre s (host_key (ho_Cluster h) (ho_Name h)) = Some v \<and>
     Decode host_field zero_host v = Some h}"

lemma those_Some: "\<forall>x \<in> set xs. f x \<noteq> None \<Longrightarrow> those (map f xs) = Some (map (\<lambda>x. the (f x)) xs)"
  by (induction xs) auto

text \<open>
  Listing the hosts of a cluster returns every stored host whose cluster name, followed by a slash
  and the name of the host, starts with the name asked for: the hosts of the cluster, and those of every
  cluster whose name only begins like it.
\<close>

theorem consul_lists_hosts:
  assumes "kv_store cl view" and "readable_hosts view pre s"
  shows "\<exists>hs. ListHosts (consul_api cl pre) c s = Ok hs \<and>
    set hs = {h \<in> stored_hosts view pre s. prefix c (ho_Cluster h @ ''/'' @ ho_Name h)}"
proof -
  obtain kvs where kvs: "kv_List cl (full_key pre (''hosts/'' @ c)) (cs_consul s) = Inr kvs"
      "set kvs = {(k, v). view (cs_consul s) k = Some v \<and> prefix (full_key pre (''hosts/'' @ c)) k}"
    by (rule kv_store_list [OF assms(1), of "full_key pre (''hosts/'' @ c)" "cs_consul s"])
  let ?host = "\<lambda>(k, v). Decode host_field zero_host v"
  have entry: "\<exists>h. Decode host_field zero_host v = Some h \<and> k = full_key pre (host_key (ho_Cluster h) (ho_Name h)) \<and>
      content view pre s (host_key (ho_Cluster h) (ho_Name h)) = Some v \<and> prefix c (ho_Cluster h @ ''/'' @ ho_Name h)"
    if "(k, v) \<in> set kvs" for k v
  proof -
    from that kvs(2) have "prefix (full_key pre (''hosts/'' @ c)) k" "view (cs_consul s) k = Some v" by auto
    then obtain rest where k: "k = full_key pre (''hosts/'' @ c @ rest)" by (auto simp: prefix_def full_key_def)
    then have v: "content view pre s (''hosts/'' @ c @ rest) = Some v"
      using \<open>view (cs_consul s) k = Some v\<close> by (simp add: content_def)
    then obtain h where h: "Decode host_field zero_host v = Some h" "''hosts/'' @ c @ rest = host_key (ho_Cluster h) (ho_Name h)"
      using assms(2) unfolding readable_hosts_def by meson
    then have "c @ rest = ho_Cluster h @ ''/'' @ ho_Name h" by (simp add: host_key_def)
    then have "prefix c (ho_Cluster h @ ''/'' @ ho_Name h)" by (metis prefixI)
    then show ?thesis using h k v by auto
  qed
  then have "\<forall>kv \<in> set kvs. ?host kv \<noteq> None" by fastforce
  then have "ListHosts (consul_api cl pre) c s = Ok (map (\<lambda>kv. the (?host kv)) kvs)"
    using those_Some [of kvs ?host] kvs(1)
    by (simp add: consul_api_def consul_ListHosts_def consul_read_all_def consul_list_def)
  moreover have "set (map (\<lambda>kv. the (?host kv)) kvs) = {h \<in> stored_hosts view pre s. prefix c (ho_Cluster h @ ''/'' @ ho_Name h)}"
  proof (intro set_eqI iffI)
    fix h
    assume "h \<in> set (map (\<lambda>kv. the (?host kv)) kvs)"
    then obtain k v where "(k, v) \<in> set kvs" "h = the (Decode host_field zero_host v)" by auto
    then show "h \<in> {h \<in> stored_hosts view pre s. prefix c (ho_Cluster h @ ''/'' @ ho_Name h)}"
      using entry [of k v] by (auto simp: stored_hosts_def)
  next
    fix h
    assume h: "h \<in> {h \<in> stored_hosts view pre s. prefix c (ho_Cluster h @ ''/'' @ ho_Name h)}"
    then obtain v where v: "content view pre s (host_key (ho_Cluster h) (ho_Name h)) = Some v" "Decode host_field zero_host v = Some h"
      by (auto simp: stored_hosts_def)
    moreover have "prefix (''hosts/'' @ c) (host_key (ho_Cluster h) (ho_Name h))" using h by (simp add: host_key_def)
    ultimately have "(full_key pre (host_key (ho_Cluster h) (ho_Name h)), v) \<in> set kvs" using kvs(2) by (simp add: content_def)
    then show "h \<in> set (map (\<lambda>kv. the (?host kv)) kvs)" using v(2) by force
  qed
  ultimately show ?thesis by blast
qed

text \<open>A store with a host of the cluster \<open>c2\<close>, listed for the cluster \<open>c\<close>.\<close>

definition other_host :: host where
  "other_host = (ex_host ''h'' 0)\<lparr>ho_Cluster := ''c2''\<rparr>"

definition host_store :: "store consul" where
  "host_store = fst (consul_PutHost local_consul ''sked'' other_host empty_store)"

theorem consul_lists_hosts_witness:
  "\<exists>hs. ListHosts (consul_api local_consul ''sked'') ''c'' host_store = Ok hs \<and> other_host \<in> set hs"
proof -
  have dec: "Decode host_field zero_host (Doc (encode_host other_host)) = Some other_host"
    using decode_host [of other_host]
    by (simp add: Decode_def fits_host_def fits_resources_def other_host_def ex_host_def box_def in_int64_def sorted_map_def List.map_filter_simps key_list_def)
  have c: "content lookup ''sked'' host_store = (content lookup ''sked'' empty_store)
      (host_key (ho_Cluster other_host) (ho_Name other_host) \<mapsto> Doc (encode_host other_host))"
    unfolding host_store_def using consul_PutHost_content [OF local_consul_store] by blast
  have none: "content lookup ''sked'' empty_store key = None" for key
    by (simp add: content_def empty_store_def NewConsulApi_def)
  have "readable_hosts lookup ''sked'' host_store" using dec by (auto simp: readable_hosts_def c none split: if_splits)
  then obtain hs where "ListHosts (consul_api local_consul ''sked'') ''c'' host_store = Ok hs"
      "set hs = {h \<in> stored_hosts lookup ''sked'' host_store. prefix ''c'' (ho_Cluster h @ ''/'' @ ho_Name h)}"
    using consul_lists_hosts [OF local_consul_store, of "''sked''" host_store "''c''"] by blast
  moreover have "other_host \<in> stored_hosts lookup ''sked'' host_store" using dec by (simp add: stored_hosts_def c)
  ultimately show ?thesis by (simp add: other_host_def)
qed

section \<open>An outage\<close>

text \<open>
  While the store of Consul cannot be read, the agent takes every deployment for deleted: it rejects
  each task it looks at that has no containers of docker's, and stores that, if the store can be written.
\<close>

theorem outage_rejects:
  assumes "\<forall>k c. \<exists>err. kv_Get cl k c = Inl err" and "\<forall>name c. \<exists>chs. Checks cl name c = Inr chs"
    and "\<forall>c \<in> set (td_Containers (tk_TaskDefinition t)). ct_Essential c \<longrightarrow> (\<forall>d. GetExecutor c \<noteq> Some (Docker d))"
  shows "\<exists>n'. syncTask (consul_api cl pre) sys bindable now t n = Returns (n', None) \<and>
    nd_backend n' = fst (PutTask (consul_api cl pre) (t\<lparr>tk_RejectReason := ''no deployment found'', tk_Rejected := True\<rparr>) (nd_backend n))"
proof -
  have get: "consul_get cl pre key b = (None, Some ErrNotFound)" for key b
    using assms(1) by (auto simp: consul_get_def split: sum.splits) (metis sum.distinct(1))
  obtain chs where chs: "Checks cl (''task-'' @ task_Name t) (cs_consul (nd_backend n)) = Inr chs" using assms(2) by blast
  have "\<exists>st. consul_GetTaskState cl pre t (nd_backend n) = Ok st"
    using chs by (auto simp: consul_GetTaskState_def get Let_def split: option.split bool.split prod.split)
  then obtain st where st: "GetTaskState (consul_api cl pre) t (nd_backend n) = Ok st" by (auto simp: consul_api_def)
  let ?n1 = "set_entry (task_ID t) (sync_entry st) (touch_entry t n)"
  have "check_running (consul_api cl pre) sys t (td_Containers (tk_TaskDefinition t)) st ?n1 = (st, ?n1)"
    by (rule no_docker_check [OF assms(3)])
  moreover have "GetDeployment (consul_api cl pre) (tk_Deployment t) (nd_backend ?n1) = Fail ErrNotFound (Some zero_deployment)"
    by (simp add: consul_api_def consul_GetDeployment_def consul_read_def get)
  ultimately have "syncTask (consul_api cl pre) sys bindable now t n = Returns (reject (consul_api cl pre) ''no deployment found'' t ?n1, None)"
    using st by (simp add: syncTask_def Let_def)
  then show ?thesis by (auto simp: reject_def on_backend_def set_entry_def touch_entry_def split: prod.split)
qed

definition broken_consul :: "store consul_client" where
  "broken_consul = local_consul\<lparr>kv_Get := (\<lambda>k c. Inl (OtherError ''no leader''))\<rparr>"

theorem outage_rejects_witness:
  "\<exists>n'. syncTask (consul_api broken_consul ''sked'') log_system run_ports 0 (run_task [])
      \<lparr>nd_agent = run_agent, nd_backend = empty_store, nd_machine = []\<rparr> = Returns (n', None) \<and>
    (\<exists>u. stored_task lookup ''sked'' (nd_backend n') (task_ID (run_task [])) = Some u \<and> tk_Rejected u)"
proof -
  have docker: "\<forall>c \<in> set (td_Containers (tk_TaskDefinition (run_task []))). ct_Essential c \<longrightarrow> (\<forall>d. GetExecutor c \<noteq> Some (Docker d))"
    by (simp add: run_executor)
  let ?u = "(run_task [])\<lparr>tk_RejectReason := ''no deployment found'', tk_Rejected := True\<rparr>"
  have "fits_task ?u" using fits_ex_task by (simp add: fits_task_def)
  moreover have "fst (PutTask (consul_api broken_consul ''sked'') ?u empty_store) = fst (consul_PutTask local_consul ''sked'' ?u empty_store)"
    by (simp add: consul_api_def consul_PutTask_def consul_put_def consul_register_def broken_consul_def local_consul_def)
  moreover have "task_ID ?u = task_ID (run_task [])" by (simp add: task_ID_def task_Name_def)
  ultimately have "stored_task lookup ''sked'' (fst (PutTask (consul_api broken_consul ''sked'') ?u empty_store)) (task_ID (run_task [])) = Some (normal ?u)"
    using consul_PutTask_store [OF local_consul_store, of ?u "''sked''" empty_store] by simp
  moreover have "tk_Rejected (normal ?u)" by simp
  ultimately show ?thesis
    using outage_rejects [of broken_consul "run_task []" "''sked''" log_system run_ports 0
        "\<lparr>nd_agent = run_agent, nd_backend = empty_store, nd_machine = []\<rparr>"] docker
    by (auto simp: broken_consul_def local_consul_def)
qed

end
