(* ===== verification/Health.thy ===== *)
theory Health
  imports Executors Mock_Api
begin

text \<open>
  The health agent (src/health): one monitor per check of the tasks of its host, which runs the check again
  and again and reports a state for the task. The network and the commands are outside the program. The
  table of the agent holds pointers to monitors, whose goroutines run on after an entry is dropped; the
  monitors are kept in a store by address.
\<close>

section \<open>Checks (src/health/health.go)\<close>

record health_check =
  hc_TaskID :: string
  hc_TCP :: string
  hc_HTTP :: string
  hc_Script :: string
  hc_Docker :: string
  hc_DockerID :: string
  hc_Timeout :: duration
  hc_Interval :: duration

text \<open>The machine: its commands, an HTTP request that answers with a status code, and a connection attempt.\<close>

record 'w probes =
  pr_system :: "'w system"
  pr_get :: "duration \<Rightarrow> string \<Rightarrow> 'w \<Rightarrow> (go_error + int) \<times> 'w"
  pr_dial :: "string \<Rightarrow> 'w \<Rightarrow> go_error option \<times> 'w"

definition checkHTTP :: "'w probes \<Rightarrow> health_check \<Rightarrow> 'w \<Rightarrow> go_error option \<times> 'w" where
  "checkHTTP pr c w =
     (case pr_get pr (hc_Timeout c) (hc_HTTP c) w of
        (Inl err, w') \<Rightarrow> (Some err, w')
      | (Inr status, w') \<Rightarrow>
          (if status < 200 \<or> status \<ge> 300 then Some (OtherError (''status code was '' @ dec_int status)) else None, w'))"

definition checkTCP :: "'w probes \<Rightarrow> health_check \<Rightarrow> 'w \<Rightarrow> go_error option \<times> 'w" where
  "checkTCP pr c = pr_dial pr (hc_TCP c)"

definition checkScript :: "'w probes \<Rightarrow> health_check \<Rightarrow> 'w \<Rightarrow> go_error option \<times> 'w" where
  "checkScript pr c = Exec (pr_system pr) None (hc_Timeout c) ''sh'' [''-c'', hc_Script c]"

definition checkDocker :: "'w probes \<Rightarrow> health_check \<Rightarrow> 'w \<Rightarrow> go_error option \<times> 'w" where
  "checkDocker pr c = Exec (pr_system pr) None (hc_Timeout c) ''docker'' [''exec'', ''-i'', hc_DockerID c, ''sh'', ''-c'', hc_Docker c]"

definition checkType :: "health_check \<Rightarrow> string" where
  "checkType c =
     (if hc_HTTP c \<noteq> '''' then ''http'' else if hc_TCP c \<noteq> '''' then ''tcp''
      else if hc_Script c \<noteq> '''' then ''script'' else if hc_Docker c \<noteq> '''' then ''docker'' else ''none'')"

text \<open>The table of checkers; a type that is not in it would call a nil function.\<close>

definition checkers :: "'w probes \<Rightarrow> (string, health_check \<Rightarrow> 'w \<Rightarrow> go_error option \<times> 'w) gomap" where
  "checkers pr = [(''http'', checkHTTP pr), (''tcp'', checkTCP pr), (''script'', checkScript pr), (''docker'', checkDocker pr),
     (''none'', \<lambda>c w. (Some (OtherError ''no checks''), w))]"

section \<open>Monitors\<close>

record monitor =
  mn_Failures :: int
  mn_LastFailure :: "go_error option"
  mn_Status :: task_state
  mn_Check :: health_check
  mn_Type :: string

definition NewMonitor :: "health_check \<Rightarrow> monitor" where
  "NewMonitor ch = \<lparr>mn_Failures = 0, mn_LastFailure = None, mn_Status = PENDING, mn_Check = ch, mn_Type = checkType ch\<rparr>"

definition record_result :: "go_error option \<Rightarrow> monitor \<Rightarrow> monitor" where
  "record_result err m =
     (let m' = (case err of None \<Rightarrow> m\<lparr>mn_Failures := 0, mn_LastFailure := None\<rparr>
                | Some e \<Rightarrow> m\<lparr>mn_Failures := w64 (mn_Failures m + 1), mn_LastFailure := Some e\<rparr>)
      in if mn_Failures m' > 3 then m'\<lparr>mn_Status := FAILING\<rparr>
         else if mn_Failures m' > 0 \<and> mn_Failures m' \<le> 3 then m'\<lparr>mn_Status := WARNING\<rparr>
         else if mn_Failures m' = 0 then m'\<lparr>mn_Status := RUNNING\<rparr>
         else m')"

text \<open>One turn of the loop of a monitor; an error of the report is dropped.\<close>

definition monitor_turn :: "'b scheduler_api \<Rightarrow> 'w probes \<Rightarrow> monitor \<Rightarrow> 'b \<times> 'w \<Rightarrow> (monitor \<times> 'b \<times> 'w) outcome" where
  "monitor_turn api pr m = (\<lambda>(b, w).
     case lookup (checkers pr) (mn_Type m) of
       None \<Rightarrow> Panics
     | Some checker \<Rightarrow>
         (case checker (mn_Check m) w of (err, w') \<Rightarrow>
            (let m' = record_result err m in
             Returns (m', fst (PutTaskState api (hc_TaskID (mn_Check m')) (mn_Status m') b), w'))))"

section \<open>The agent (src/health/agent.go)\<close>

record health_agent =
  ha_Host :: string
  ha_State :: "(string, nat) gomap"
  ha_monitors :: "monitor list"
  ha_quit :: "bool option"

text \<open>The channel \<open>quit\<close> is never made: it is nil.\<close>

definition NewHealthAgent :: health_agent where
  "NewHealthAgent = \<lparr>ha_Host = '''', ha_State = [], ha_monitors = [], ha_quit = None\<rparr>"

definition check_of :: "task \<Rightarrow> check \<Rightarrow> health_check" where
  "check_of t c = \<lparr>hc_TaskID = task_ID t, hc_TCP = ch_TCP c, hc_HTTP = ch_HTTP c, hc_Script = ch_Script c,
     hc_Docker = ch_Docker c, hc_DockerID = '''', hc_Timeout = ch_Timeout c, hc_Interval = ch_Interval c\<rparr>"

definition add_monitor :: "task \<Rightarrow> check \<Rightarrow> health_agent \<Rightarrow> health_agent" where
  "add_monitor t c h =
     (case lookup (ha_State h) (ch_ID c) of
        Some _ \<Rightarrow> h
      | None \<Rightarrow> h\<lparr>ha_State := insert_key (ch_ID c) (length (ha_monitors h)) (ha_State h),
                  ha_monitors := ha_monitors h @ [NewMonitor (check_of t c)]\<rparr>)"

definition task_checks :: "task \<Rightarrow> (task \<times> check) list" where
  "task_checks t = concat (map (\<lambda>cont. map (Pair t) (ct_Checks cont)) (td_Containers (tk_TaskDefinition t)))"

text \<open>The collection drops an entry, not the monitor.\<close>

definition collect_monitor :: "task list \<Rightarrow> string \<Rightarrow> health_agent \<Rightarrow> health_agent" where
  "collect_monitor ts key h =
     (case lookup (ha_State h) key of
        None \<Rightarrow> h
      | Some a \<Rightarrow>
          if \<exists>t \<in> set ts. task_ID t = hc_TaskID (mn_Check (ha_monitors h ! a)) then h
          else h\<lparr>ha_State := delete_key key (ha_State h)\<rparr>)"

definition health_sync :: "'b scheduler_api \<Rightarrow> map_order \<Rightarrow> 'b \<Rightarrow> health_agent \<Rightarrow> (go_error option \<times> health_agent) outcome" where
  "health_sync api ord b h =
     (case ListTasks api (any_task\<lparr>tq_ByHost := ha_Host h\<rparr>) b of
        Stops how \<Rightarrow> stopped how
      | Fail err _ \<Rightarrow> Returns (Some err, h)
      | Ok ts \<Rightarrow>
          (let h1 = fold (\<lambda>(t, c). add_monitor t c) (concat (map task_checks ts)) h in
           Returns (None, fold (collect_monitor ts) (range_keys ord (ha_State h1)) h1)))"

text \<open>One turn of the monitor at an address.\<close>

definition health_turn ::
  "'b scheduler_api \<Rightarrow> 'w probes \<Rightarrow> nat \<Rightarrow> health_agent \<times> 'b \<times> 'w \<Rightarrow> (health_agent \<times> 'b \<times> 'w) outcome" where
  "health_turn api pr a = (\<lambda>(h, b, w).
     bind_outcome (monitor_turn api pr (ha_monitors h ! a) (b, w)) (\<lambda>(m, b', w').
       Returns (h\<lparr>ha_monitors := (ha_monitors h)[a := m]\<rparr>, b', w')))"

text \<open>
  Every monitor of the table is told to stop, then \<open>quit\<close> is closed; closing a channel that is nil, or
  closed already, panics.
\<close>

definition HealthAgent_Stop :: "health_agent \<Rightarrow> health_agent outcome" where
  "HealthAgent_Stop h = (if ha_quit h = Some False then Returns (h\<lparr>ha_quit := Some True\<rparr>) else Panics)"

text \<open>\<open>GetHostName\<close> asks until the backend knows the name; each answer is that of one round. A nil channel never ends the loop.\<close>

fun health_GetHostName :: "string reply list \<Rightarrow> string option" where
  "health_GetHostName [] = None"
| "health_GetHostName (answer # rounds) =
     (case answer of Ok name \<Rightarrow> Some name | Fail _ _ \<Rightarrow> health_GetHostName rounds | Stops _ \<Rightarrow> None)"

text \<open>The loop of \<open>Run\<close>: an event and the timeout synchronise, whose error is dropped; \<open>quit\<close> ends it.\<close>

datatype health_loop_event = StateChanged | SyncTimeout | QuitClosed

definition health_loop_step ::
  "'b scheduler_api \<Rightarrow> map_order \<Rightarrow> health_loop_event \<Rightarrow> 'b \<Rightarrow> health_agent \<Rightarrow> health_agent outcome" where
  "health_loop_step api ord ev b h =
     (case ev of
        StateChanged \<Rightarrow> bind_outcome (health_sync api ord b h) (\<lambda>(_, h'). Returns h')
      | SyncTimeout \<Rightarrow> bind_outcome (health_sync api ord b h) (\<lambda>(_, h'). Returns h')
      | QuitClosed \<Rightarrow> Returns h)"

definition health_subscription :: "health_agent \<Rightarrow> string \<times> string" where
  "health_subscription h = (''health-agent'', ''state::state/hosts/'' @ ha_Host h)"

section \<open>Lemmas\<close>

text \<open>The failures at the end of a sequence of results.\<close>

definition trailing_failures :: "go_error option list \<Rightarrow> nat" where
  "trailing_failures rs = length (takeWhile (\<lambda>r. r \<noteq> None) (rev rs))"

lemma trailing_failures_snoc [simp]:
  "trailing_failures [] = 0"
  "trailing_failures (rs @ [r]) = (if r = None then 0 else Suc (trailing_failures rs))"
  by (simp_all add: trailing_failures_def)

definition status_of :: "nat \<Rightarrow> task_state" where
  "status_of n = (if n = 0 then RUNNING else if n \<le> 3 then WARNING else FAILING)"

lemma record_result_status:
  assumes "mn_Failures m = int n" and "int n + 1 < 2 ^ 63"
  shows "mn_Failures (record_result r m) = int (if r = None then 0 else Suc n) \<and>
    mn_Status (record_result r m) = status_of (if r = None then 0 else Suc n)"
proof (cases r)
  case None
  then show ?thesis by (simp add: record_result_def status_of_def Let_def)
next
  case (Some e)
  have "w64 (int n + 1) = int n + 1" using assms(2) by (intro w64_id) (simp add: in_int64_def)
  then show ?thesis using Some assms(1) by (auto simp: record_result_def status_of_def Let_def)
qed

lemma record_results:
  "int (length rs) < 2 ^ 63 \<Longrightarrow>
   mn_Failures (fold record_result rs (NewMonitor ch)) = int (trailing_failures rs) \<and>
   (rs \<noteq> [] \<longrightarrow> mn_Status (fold record_result rs (NewMonitor ch)) = status_of (trailing_failures rs))"
proof (induction rs rule: rev_induct)
  case Nil
  then show ?case by (simp add: NewMonitor_def)
next
  case (snoc r rs)
  have "trailing_failures rs \<le> length rs"
    unfolding trailing_failures_def by (metis length_rev length_takeWhile_le)
  then have "int (trailing_failures rs) + 1 < 2 ^ 63" using snoc.prems by simp
  from record_result_status [OF _ this, of "fold record_result rs (NewMonitor ch)" r] snoc show ?case by simp
qed

lemma record_result_check [simp]: "mn_Check (record_result r m) = mn_Check m" "mn_Type (record_result r m) = mn_Type m"
  by (simp_all add: record_result_def Let_def split: option.split)

lemma checkType_known: "lookup (checkers pr) (checkType c) \<noteq> None"
  by (simp add: checkers_def checkType_def)

end
