(* ===== verification/Discovery.thy ===== *)
theory Discovery
  imports Mock_Api
begin

text \<open>
  The discovery agent (src/discovery/discovery.go): it works out the endpoints of the services again and
  again, and answers requests that wait for the endpoints of a service to change. Every change is sent on
  a channel without a buffer, while the lock of the agent is held. Whether some goroutine receives from
  that channel is an argument, \<open>received\<close>; the program has none.
\<close>

section \<open>State\<close>

text \<open>\<open>da_locked\<close> is set while \<open>sync\<close> holds the lock; the channels of the subscribers are known by their keys.\<close>

record discovery =
  da_Services :: "(string, endpoint list) gomap"
  da_ChangeIdx :: "(string, int64) gomap"
  da_Managing :: "string list"
  da_subs :: "string list"
  da_locked :: bool

definition NewDiscovery :: "string list \<Rightarrow> discovery" where
  "NewDiscovery managing = \<lparr>da_Services = [], da_ChangeIdx = [], da_Managing = managing, da_subs = [], da_locked = False\<rparr>"

definition change_index :: "string \<Rightarrow> discovery \<Rightarrow> int64" where
  "change_index name ag = (case lookup (da_ChangeIdx ag) name of None \<Rightarrow> 0 | Some i \<Rightarrow> i)"

definition known_endpoints :: "string \<Rightarrow> discovery \<Rightarrow> endpoint list" where
  "known_endpoints name ag = (case lookup (da_Services ag) name of None \<Rightarrow> [] | Some eps \<Rightarrow> eps)"

section \<open>Endpoints of a service\<close>

text \<open>
  The loop over the containers of a task: the first whose name is that of the service gives an endpoint.
  A port that has no number on the host becomes 80.
\<close>

definition task_endpoint :: "service \<Rightarrow> host \<Rightarrow> task \<Rightarrow> endpoint list" where
  "task_endpoint s h t =
     (case find (\<lambda>cont. ct_Name cont = sv_Name s) (td_Containers (tk_TaskDefinition t)) of
        None \<Rightarrow> []
      | Some cont \<Rightarrow>
          (let port = HostPortByName cont (sv_PortName s) t in
           [\<lparr>ep_Service = sv_Name s, ep_Host = ho_Address h, ep_Port = (if port = 0 then 80 else port),
             ep_Protocol = sv_Protocol s\<rparr>]))"

fun endpoint_loop :: "'b scheduler_api \<Rightarrow> 'b \<Rightarrow> service \<Rightarrow> task list \<Rightarrow> endpoint list \<Rightarrow> endpoint list reply" where
  "endpoint_loop api b s [] eps = Ok eps"
| "endpoint_loop api b s (t # ts) eps =
     (case GetHost api (tk_Cluster t) (tk_Host t) b of
        Stops how \<Rightarrow> Stops how
      | Fail err _ \<Rightarrow> Fail err (Some eps)
      | Ok h \<Rightarrow> endpoint_loop api b s ts (eps @ task_endpoint s h t))"

definition service_query :: "service \<Rightarrow> task_query" where
  "service_query s = any_task\<lparr>tq_Running := True, tq_ByDeployment := sv_Deployment s, tq_ByCluster := sv_Cluster s\<rparr>"

definition endpoints :: "'b scheduler_api \<Rightarrow> 'b \<Rightarrow> string \<Rightarrow> endpoint list reply" where
  "endpoints api b name =
     (case GetService api name b of
        Stops how \<Rightarrow> Stops how
      | Fail err _ \<Rightarrow> Fail err (Some [])
      | Ok s \<Rightarrow>
          (case ListTasks api (service_query s) b of
             Stops how \<Rightarrow> Stops how
           | Fail err _ \<Rightarrow> Fail err (Some [])
           | Ok ts \<Rightarrow> endpoint_loop api b s ts []))"

section \<open>One synchronisation\<close>

text \<open>The services that are looked after: those named to the agent that can be read, or all.\<close>

fun managed_services :: "'b scheduler_api \<Rightarrow> 'b \<Rightarrow> string list \<Rightarrow> service list \<Rightarrow> service list reply" where
  "managed_services api b [] ss = Ok ss"
| "managed_services api b (name # names) ss =
     (case GetService api name b of
        Stops how \<Rightarrow> Stops how
      | Fail _ _ \<Rightarrow> managed_services api b names ss
      | Ok s \<Rightarrow> managed_services api b names (ss @ [s]))"

definition services_of :: "'b scheduler_api \<Rightarrow> 'b \<Rightarrow> discovery \<Rightarrow> service list reply" where
  "services_of api b ag =
     (if da_Managing ag \<noteq> [] then managed_services api b (da_Managing ag) [] else ListServices api b)"

text \<open>The three tests of the loop: the service is new, it has another number of endpoints, or an endpoint it did not have.\<close>

definition endpoints_changed :: "endpoint list option \<Rightarrow> endpoint list \<Rightarrow> bool" where
  "endpoints_changed old eps =
     (case old of
        None \<Rightarrow> True
      | Some ends \<Rightarrow> length ends \<noteq> length eps \<or> (\<exists>e \<in> set eps. \<forall>e2 \<in> set ends. Address e \<noteq> Address e2))"

text \<open>The new endpoints are kept, then announced; the index moves only after somebody has received the name.\<close>

definition announce :: "bool \<Rightarrow> string \<Rightarrow> endpoint list \<Rightarrow> discovery \<Rightarrow> bool \<times> discovery" where
  "announce received name eps ag =
     (let ag' = ag\<lparr>da_Services := insert_key name eps (da_Services ag)\<rparr> in
      if received then (True, ag'\<lparr>da_ChangeIdx := insert_key name (w64 (change_index name ag + 1)) (da_ChangeIdx ag')\<rparr>)
      else (False, ag'))"

datatype sync_end = Synced "go_error option" | SyncStops stop

fun sync_services ::
  "bool \<Rightarrow> 'b scheduler_api \<Rightarrow> 'b \<Rightarrow> service list \<Rightarrow> discovery \<Rightarrow> sync_end \<times> discovery" where
  "sync_services received api b [] ag = (Synced None, ag)"
| "sync_services received api b (s # ss) ag =
     (case endpoints api b (sv_Name s) of
        Stops how \<Rightarrow> (SyncStops how, ag)
      | Fail err _ \<Rightarrow> (Synced (Some err), ag)
      | Ok eps \<Rightarrow>
          if endpoints_changed (lookup (da_Services ag) (sv_Name s)) eps then
            (case announce received (sv_Name s) eps ag of
               (True, ag') \<Rightarrow> sync_services received api b ss ag'
             | (False, ag') \<Rightarrow> (SyncStops Blocked, ag'))
          else sync_services received api b ss ag)"

text \<open>The lock is given back when the procedure returns.\<close>

definition discovery_sync :: "bool \<Rightarrow> 'b scheduler_api \<Rightarrow> 'b \<Rightarrow> discovery \<Rightarrow> sync_end \<times> discovery" where
  "discovery_sync received api b ag =
     (case services_of api b ag of
        Stops how \<Rightarrow> (SyncStops how, ag)
      | Fail err _ \<Rightarrow> (Synced (Some err), ag)
      | Ok ss \<Rightarrow>
          if da_locked ag then (SyncStops Blocked, ag)
          else (case sync_services received api b ss (ag\<lparr>da_locked := True\<rparr>) of
                  (Synced err, ag') \<Rightarrow> (Synced err, ag'\<lparr>da_locked := False\<rparr>)
                | (SyncStops how, ag') \<Rightarrow> (SyncStops how, ag')))"

section \<open>Waiting for a change\<close>

text \<open>What a listener waits for, each with the agent as it is then.\<close>

datatype listen_event = Notified string | TimedOut | StopAsked

definition read_service :: "string \<Rightarrow> discovery \<Rightarrow> (int64 \<times> endpoint list) outcome" where
  "read_service name ag = (if da_locked ag then Hangs else Returns (change_index name ag, known_endpoints name ag))"

fun listen_loop :: "string \<Rightarrow> (listen_event \<times> discovery) list \<Rightarrow> (int64 \<times> endpoint list) outcome" where
  "listen_loop name [] = Hangs"
| "listen_loop name ((ev, ag) # evs) =
     (case ev of
        Notified n \<Rightarrow> if n = name then read_service name ag else listen_loop name evs
      | TimedOut \<Rightarrow> read_service name ag
      | StopAsked \<Rightarrow> Returns (0, []))"

definition Listen ::
  "string \<Rightarrow> string \<Rightarrow> int64 \<Rightarrow> (listen_event \<times> discovery) list \<Rightarrow> discovery \<Rightarrow>
   (int64 \<times> endpoint list) outcome \<times> discovery" where
  "Listen key name lastIdx evs ag =
     (if da_locked ag then (Hangs, ag)
      else (let ag' = ag\<lparr>da_subs := List.insert key (da_subs ag)\<rparr> in
        (if change_index name ag > lastIdx then Returns (change_index name ag, known_endpoints name ag)
         else listen_loop name evs, ag')))"

text \<open>The request /discovery/poll: the name of the service and an index, read as a hexadecimal number of eight bits.\<close>

definition poll_request :: "string \<Rightarrow> string \<Rightarrow> string + string \<times> int64" where
  "poll_request name idx =
     (if name = '''' then Inl ''Service Not Provided''
      else (case ParseInt idx 16 8 of None \<Rightarrow> Inl ''Could not retrieve index'' | Some i \<Rightarrow> Inr (name, i)))"

text \<open>
  The answer: a status, and a document whose keys are in order, as \<open>encoding/json\<close> writes maps. The
  request waits ten seconds, and its channel \<open>stop\<close> is closed only after the answer.
\<close>

definition encode_endpoint :: "endpoint \<Rightarrow> json" where
  "encode_endpoint e = JObj [(''service'', JStr (ep_Service e)), (''address'', JStr (ep_Host e)),
     (''port'', JNum (int (ep_Port e))), (''protocol'', JStr (ep_Protocol e))]"

definition discovery_poll ::
  "string \<Rightarrow> string \<Rightarrow> string \<Rightarrow> (listen_event \<times> discovery) list \<Rightarrow> discovery \<Rightarrow> (int \<times> json) outcome \<times> discovery" where
  "discovery_poll key name idx evs ag =
     (case poll_request name idx of
        Inl err \<Rightarrow> (Returns (400, JObj [(''error'', JStr err)]), ag)
      | Inr (n, l) \<Rightarrow>
          (case Listen key n l evs ag of (out, ag') \<Rightarrow>
             (bind_outcome out (\<lambda>(i, eps). Returns (200, JObj [(''endpoints'', JArr (map encode_endpoint eps)),
                (''index'', JNum i), (''service'', JStr n)])), ag')))"

text \<open>The loop of \<open>Run\<close> synchronises on every event and after every timeout, and drops the error.\<close>

definition discovery_subscription :: "string \<times> string" where
  "discovery_subscription = (''dc-agent'', ''*'')"

datatype discovery_event = AnyEvent | PollTimeout | DiscoveryQuit

definition discovery_step :: "bool \<Rightarrow> 'b scheduler_api \<Rightarrow> discovery_event \<Rightarrow> 'b \<Rightarrow> discovery \<Rightarrow> discovery outcome" where
  "discovery_step received api ev b ag =
     (if ev = DiscoveryQuit then Returns ag
      else (case discovery_sync received api b ag of (Synced _, ag') \<Rightarrow> Returns ag' | (SyncStops how, _) \<Rightarrow> stopped how))"

section \<open>Lemmas\<close>

lemma announce_fields:
  "fst (announce received name eps ag) = received"
  "da_locked (snd (announce received name eps ag)) = da_locked ag"
  "lookup (da_Services (snd (announce received name eps ag))) = (lookup (da_Services ag))(name \<mapsto> eps)"
  "\<not> received \<Longrightarrow> da_ChangeIdx (snd (announce received name eps ag)) = da_ChangeIdx ag"
  by (simp_all add: announce_def Let_def)

lemma endpoint_loop_known:
  assumes "\<forall>t \<in> set ts. GetHost api (tk_Cluster t) (tk_Host t) b = Ok (home t)"
  shows "endpoint_loop api b s ts eps = Ok (eps @ concat (map (\<lambda>t. task_endpoint s (home t) t) ts))"
  using assms by (induction ts arbitrary: eps) simp_all

text \<open>While nobody receives, the synchronisation of a list ends at the first service that changed, with the lock kept.\<close>

lemma sync_services_unreceived:
  assumes "\<forall>s \<in> set ss. \<exists>eps. endpoints api b (sv_Name s) = Ok eps"
  shows "case sync_services False api b ss ag of (how, ag') \<Rightarrow>
    da_locked ag' = da_locked ag \<and> da_ChangeIdx ag' = da_ChangeIdx ag \<and> da_subs ag' = da_subs ag \<and>
    (if \<exists>s \<in> set ss. \<exists>eps. endpoints api b (sv_Name s) = Ok eps \<and> endpoints_changed (lookup (da_Services ag) (sv_Name s)) eps
     then how = SyncStops Blocked else how = Synced None \<and> ag' = ag)"
  using assms
proof (induction ss)
  case (Cons s ss)
  obtain eps where eps: "endpoints api b (sv_Name s) = Ok eps" using Cons.prems by auto
  show ?case
  proof (cases "endpoints_changed (lookup (da_Services ag) (sv_Name s)) eps")
    case True
    then show ?thesis using eps by (auto simp: announce_def Let_def)
  next
    case False
    then show ?thesis using eps Cons by auto
  qed
qed simp

text \<open>With a receiver the synchronisation goes through all services, and leaves each with endpoints that look the same.\<close>

definition up_to_date :: "'b scheduler_api \<Rightarrow> 'b \<Rightarrow> discovery \<Rightarrow> string \<Rightarrow> bool" where
  "up_to_date api b ag name \<longleftrightarrow>
     (\<exists>eps. endpoints api b name = Ok eps \<and> \<not> endpoints_changed (lookup (da_Services ag) name) eps)"

lemma up_to_date_iff:
  "up_to_date api b ag name \<longleftrightarrow> (\<exists>eps ends. endpoints api b name = Ok eps \<and> lookup (da_Services ag) name = Some ends \<and>
     length ends = length eps \<and> Address ` set eps \<subseteq> Address ` set ends)"
  by (fastforce simp: up_to_date_def endpoints_changed_def image_subset_iff image_iff split: option.splits)

lemma up_to_date_announced:
  "endpoints api b name = Ok eps \<Longrightarrow> up_to_date api b ag n \<or> n = name \<Longrightarrow> up_to_date api b (snd (announce received name eps ag)) n"
  by (auto simp: up_to_date_def announce_fields endpoints_changed_def split: if_splits)

lemma sync_services_received:
  assumes "\<forall>s \<in> set ss. \<exists>eps. endpoints api b (sv_Name s) = Ok eps"
  shows "\<exists>ag'. sync_services True api b ss ag = (Synced None, ag') \<and> da_locked ag' = da_locked ag \<and>
    (\<forall>name. up_to_date api b ag name \<or> name \<in> sv_Name ` set ss \<longrightarrow> up_to_date api b ag' name)"
  using assms
proof (induction ss arbitrary: ag)
  case (Cons s ss)
  obtain eps where eps: "endpoints api b (sv_Name s) = Ok eps" using Cons.prems by auto
  show ?case
  proof (cases "endpoints_changed (lookup (da_Services ag) (sv_Name s)) eps")
    case True
    obtain ag1 where ag1: "announce True (sv_Name s) eps ag = (True, ag1)"
      using announce_fields(1) [of True] by (metis prod.collapse)
    moreover have "up_to_date api b ag name \<or> name = sv_Name s \<longrightarrow> up_to_date api b ag1 name" for name
      using up_to_date_announced [OF eps, of ag name True] ag1 by simp
    moreover have "da_locked ag1 = da_locked ag" using announce_fields(2) [of True "sv_Name s" eps ag] ag1 by simp
    moreover obtain ag' where "sync_services True api b ss ag1 = (Synced None, ag')" "da_locked ag' = da_locked ag1"
        "\<forall>name. up_to_date api b ag1 name \<or> name \<in> sv_Name ` set ss \<longrightarrow> up_to_date api b ag' name"
      using Cons.IH [of ag1] Cons.prems by (meson list.set_intros(2))
    ultimately show ?thesis using eps True by auto
  next
    case False
    then have "up_to_date api b ag (sv_Name s)" using eps by (auto simp: up_to_date_def)
    moreover obtain ag' where "sync_services True api b ss ag = (Synced None, ag')" "da_locked ag' = da_locked ag"
        "\<forall>name. up_to_date api b ag name \<or> name \<in> sv_Name ` set ss \<longrightarrow> up_to_date api b ag' name"
      using Cons.IH [of ag] Cons.prems by (meson list.set_intros(2))
    ultimately show ?thesis using eps False by auto
  qed
qed simp

end
