(* ===== verification/Actions.thy ===== *)
theory Actions
  imports Mock_Api
begin

text \<open>
  What an operator does from the command line (src/actions/apply.go, src/actions/tools.go and the
  commands of src/cli/tools.go that call them): apply a configuration file, scale a deployment, drain a
  host, list tasks and hosts. What is printed is a list of texts, in order. Reading the YAML file is
  outside the program: its outcome is an argument.
\<close>

section \<open>Applying a configuration (src/actions/apply.go)\<close>

record config_file =
  cf_Clusters :: "cluster list"
  cf_Deployments :: "deployment list"
  cf_TaskDefinitions :: "task_definition list"
  cf_Services :: "service list"
  cf_Deployment :: "deployment option"
  cf_TaskDefinition :: "task_definition option"
  cf_Cluster :: "cluster option"
  cf_Service :: "service option"

definition valid_errs :: "string list \<Rightarrow> go_error option \<times> string list" where
  "valid_errs errs =
     (if errs \<noteq> [] then (Some ErrValidationFailure, map (\<lambda>e. ''err: '' @ e @ ''\<newline>'') errs) else (None, []))"

text \<open>
  One object: it is validated, put if nothing is wrong with it, and reported. A validation may fill in
  defaults; what is put is the object with them.
\<close>

definition report :: "string \<Rightarrow> bool \<Rightarrow> string \<Rightarrow> string" where
  "report label ok name = label @ '': '' @ (if ok then ''OK '' else ''FAIL '') @ name @ ''\<newline>''"

definition apply_one ::
  "string \<Rightarrow> ('b \<Rightarrow> 'o \<Rightarrow> 'o \<times> string list) \<Rightarrow> ('o \<Rightarrow> 'b command) \<Rightarrow> ('o \<Rightarrow> string) \<Rightarrow> 'o \<Rightarrow>
   'b \<times> string list \<Rightarrow> 'b \<times> string list" where
  "apply_one label validate put name x = (\<lambda>(b, out).
     case validate b x of (x', errs) \<Rightarrow>
     case valid_errs errs of
       (None, lines) \<Rightarrow> (fst (put x' b), out @ lines @ [report label True (name x')])
     | (Some _, lines) \<Rightarrow> (b, out @ lines @ [report label False (name x')]))"

definition apply_task_definition :: "'b scheduler_api \<Rightarrow> task_definition \<Rightarrow> 'b \<times> string list \<Rightarrow> 'b \<times> string list" where
  "apply_task_definition api = apply_one ''task_definition'' (task_definition_Validate api) (PutTaskDefinition api) td_Name"

definition apply_deployment :: "'b scheduler_api \<Rightarrow> deployment \<Rightarrow> 'b \<times> string list \<Rightarrow> 'b \<times> string list" where
  "apply_deployment api = apply_one ''deployment'' (\<lambda>b d. (d, deployment_Validate api b d)) (PutDeployment api) dp_Name"

definition apply_cluster :: "'b scheduler_api \<Rightarrow> string \<Rightarrow> cluster \<Rightarrow> 'b \<times> string list \<Rightarrow> 'b \<times> string list" where
  "apply_cluster api label = apply_one label (\<lambda>b c. (c, cluster_Validate c)) (PutCluster api) cl_Name"

definition apply_service :: "'b scheduler_api \<Rightarrow> service \<Rightarrow> 'b \<times> string list \<Rightarrow> 'b \<times> string list" where
  "apply_service api = apply_one ''service'' (service_Validate api) (PutService api) sv_Name"

definition apply_optional :: "('o \<Rightarrow> 's \<Rightarrow> 's) \<Rightarrow> 'o option \<Rightarrow> 's \<Rightarrow> 's" where
  "apply_optional f x s = (case x of None \<Rightarrow> s | Some y \<Rightarrow> f y s)"

text \<open>
  The last step puts the task definition if the \<^emph>\<open>cluster\<close> of the file is valid, as the code does, which
  dereferences a nil pointer when the file has none.
\<close>

definition apply_last :: "'b scheduler_api \<Rightarrow> config_file \<Rightarrow> 'b \<times> string list \<Rightarrow> ('b \<times> string list) outcome" where
  "apply_last api obj s =
     (case cf_TaskDefinition obj of
        None \<Rightarrow> Returns s
      | Some td \<Rightarrow>
          (case cf_Cluster obj of
             None \<Rightarrow> Panics
           | Some c \<Rightarrow> Returns (apply_one ''task_definition'' (\<lambda>b td. (td, cluster_Validate c)) (PutTaskDefinition api) td_Name td s)))"

definition ApplyConfig ::
  "'b scheduler_api \<Rightarrow> go_error + config_file \<Rightarrow> 'b \<Rightarrow> (go_error option \<times> 'b \<times> string list) outcome" where
  "ApplyConfig api read b =
     (case read of
        Inl err \<Rightarrow> Returns (Some err, b, [])
      | Inr obj \<Rightarrow>
          bind_outcome
            (apply_last api obj
              (apply_optional (apply_cluster api ''deployment'') (cf_Cluster obj)
                (apply_optional (apply_deployment api) (cf_Deployment obj)
                  (apply_optional (apply_service api) (cf_Service obj)
                    (fold (apply_service api) (cf_Services obj)
                      (fold (apply_cluster api ''cluster'') (cf_Clusters obj)
                        (fold (apply_deployment api) (cf_Deployments obj)
                          (fold (apply_task_definition api) (cf_TaskDefinitions obj) (b, [])))))))))
            (\<lambda>(b', out). Returns (None, b', out)))"

section \<open>Scaling and draining (src/actions/tools.go)\<close>

definition Drain :: "'b scheduler_api \<Rightarrow> string \<Rightarrow> string \<Rightarrow> 'b \<Rightarrow> ('b \<times> go_error option) outcome" where
  "Drain api clusterName hostName b =
     (if hostName = '''' then Returns (b, Some (OtherError ''no host to scale''))
      else (case GetHost api clusterName hostName b of
              Stops how \<Rightarrow> stopped how
            | Fail err _ \<Rightarrow> Returns (b, Some err)
            | Ok h \<Rightarrow> Returns (PutHost api (h\<lparr>ho_Draining := True\<rparr>) b)))"

definition Scale :: "'b scheduler_api \<Rightarrow> string \<Rightarrow> int \<Rightarrow> 'b \<Rightarrow> ('b \<times> go_error option) outcome" where
  "Scale api serviceName desired b =
     (if serviceName = '''' then Returns (b, Some (OtherError ''no service to scale''))
      else (case GetDeployment api serviceName b of
              Stops how \<Rightarrow> stopped how
            | Fail err _ \<Rightarrow> Returns (b, Some err)
            | Ok deploy \<Rightarrow>
                (let d1 = (if desired < dp_Min deploy then deploy\<lparr>dp_Min := desired\<rparr> else deploy);
                     d2 = (if desired > dp_Max d1 then d1\<lparr>dp_Max := desired\<rparr> else d1)
                 in Returns (PutDeployment api (d2\<lparr>dp_Desired := desired\<rparr>) b))))"

text \<open>The command: its second argument is read in base eight, as the code does; a missing argument is blank.\<close>

definition arg :: "string list \<Rightarrow> nat \<Rightarrow> string" where
  "arg args i = (if i < length args then args ! i else '''')"

definition ScaleCmd :: "'b scheduler_api \<Rightarrow> string list \<Rightarrow> 'b \<Rightarrow> ('b \<times> go_error option) outcome" where
  "ScaleCmd api args b =
     (case ParseInt (arg args 1) 8 64 of
        None \<Rightarrow> Returns (b, Some (OtherError ''strconv.ParseInt''))
      | Some i \<Rightarrow> Scale api (arg args 0) i b)"

definition DrainCmd :: "'b scheduler_api \<Rightarrow> string \<Rightarrow> string list \<Rightarrow> 'b \<Rightarrow> ('b \<times> go_error option) outcome" where
  "DrainCmd api cluster args b = Drain api cluster (arg args 0) b"

section \<open>Tables\<close>

definition pad :: "string \<Rightarrow> int \<Rightarrow> string" where
  "pad x padding = x @ replicate (nat (padding - int (rune_count x))) CHR '' ''"

text \<open>The items and their widths; there is a width for every item.\<close>

definition row :: "string list \<Rightarrow> int list \<Rightarrow> string" where
  "row items widths = concat (map (\<lambda>(item, w). pad item w) (zip items widths))"

definition column_width :: "string list \<Rightarrow> string list list \<Rightarrow> nat \<Rightarrow> int" where
  "column_width header rows i =
     fold (\<lambda>r w. max w (int (rune_count (r ! i)) + 5)) rows (int (rune_count (header ! i)) + 5)"

definition table :: "string list \<Rightarrow> string list list \<Rightarrow> string list" where
  "table header rows =
     (let widths = map (column_width header rows) [0..<length header]; head = row header widths in
      [''\<newline>'', head @ ''\<newline>'', replicate (rune_count head) CHR ''-'' @ ''\<newline>''] @
      map (\<lambda>r. row r widths @ ''\<newline>'') rows)"

definition show_bool :: "bool \<Rightarrow> string" where
  "show_bool v = (if v then ''true'' else ''false'')"

fun task_rows :: "'b scheduler_api \<Rightarrow> 'b \<Rightarrow> task list \<Rightarrow> (go_error + string list list) outcome" where
  "task_rows api b [] = Returns (Inr [])"
| "task_rows api b (t # ts) =
     (case GetTaskState api t b of
        Stops how \<Rightarrow> stopped how
      | Fail err _ \<Rightarrow> Returns (Inl err)
      | Ok st \<Rightarrow> bind_outcome (task_rows api b ts) (\<lambda>res. Returns (case res of
            Inl err \<Rightarrow> Inl err
          | Inr rows \<Rightarrow> Inr ([task_ID t, tk_Host t, show_bool (tk_Rejected t), tk_Cluster t, tk_Deployment t,
              td_Name (tk_TaskDefinition t), dec_nat (td_Version (tk_TaskDefinition t)), st] # rows))))"

definition tasks_query :: "string \<Rightarrow> string \<Rightarrow> string \<Rightarrow> task_query" where
  "tasks_query byHost byCluster byDeployment =
     any_task\<lparr>tq_ByHost := byHost, tq_ByDeployment := byDeployment, tq_ByCluster := byCluster, tq_Scheduled := True\<rparr>"

definition show_tasks ::
  "'b scheduler_api \<Rightarrow> string \<Rightarrow> string \<Rightarrow> string \<Rightarrow> 'b \<Rightarrow> (go_error + string list) outcome" where
  "show_tasks api byHost byCluster byDeployment b =
     (case ListTasks api (tasks_query byHost byCluster byDeployment) b of
        Stops how \<Rightarrow> stopped how
      | Fail err _ \<Rightarrow> Returns (Inl err)
      | Ok ts \<Rightarrow> bind_outcome (task_rows api b ts) (\<lambda>res. Returns (case res of
            Inl err \<Rightarrow> Inl err
          | Inr rows \<Rightarrow> Inr (table [''id'', ''host'', ''rejected'', ''cluster'', ''service'', ''task def'', ''version'', ''state''] rows))))"

text \<open>A map prints its entries in the order of their keys that the loop of \<open>fmt\<close> visits.\<close>

definition show_tags :: "map_order \<Rightarrow> (string, string) gomap \<Rightarrow> string" where
  "show_tags ord m =
     (let kvs = map (\<lambda>k. k @ '':'' @ (case lookup m k of Some v \<Rightarrow> v | None \<Rightarrow> '''')) (range_keys ord m) in
      ''map['' @ (case kvs of [] \<Rightarrow> '''' | kv # rest \<Rightarrow> kv @ concat (map (\<lambda>x. '' '' @ x) rest)) @ '']'')"

fun host_rows :: "'b scheduler_api \<Rightarrow> map_order \<Rightarrow> 'b \<Rightarrow> host list \<Rightarrow> (go_error + string list list) outcome" where
  "host_rows api ord b [] = Returns (Inr [])"
| "host_rows api ord b (h # hs) =
     (case ListTasks api (any_task\<lparr>tq_ByHost := ho_Name h\<rparr>) b of
        Stops how \<Rightarrow> stopped how
      | Fail err _ \<Rightarrow> Returns (Inl err)
      | Ok ts \<Rightarrow> bind_outcome (host_rows api ord b hs) (\<lambda>res. Returns (case res of
            Inl err \<Rightarrow> Inl err
          | Inr rows \<Rightarrow> Inr ([ho_Name h, show_tags ord (ho_Tags h), dec_int (rs_CpuUnits (ho_CalculatedResources h)),
              dec_int (rs_Memory (ho_CalculatedResources h)), dec_int (rs_DiskSpace (ho_CalculatedResources h)),
              dec_nat (length ts)] # rows))))"

definition show_hosts :: "'b scheduler_api \<Rightarrow> map_order \<Rightarrow> string \<Rightarrow> 'b \<Rightarrow> (go_error + string list) outcome" where
  "show_hosts api ord cluster b =
     (case ListHosts api cluster b of
        Stops how \<Rightarrow> stopped how
      | Fail err _ \<Rightarrow> Returns (Inl err)
      | Ok hs \<Rightarrow> bind_outcome (host_rows api ord b hs) (\<lambda>res. Returns (case res of
            Inl err \<Rightarrow> Inl err
          | Inr rows \<Rightarrow> Inr (table [''name'', ''tags'', ''cpu'', ''mem'', ''disk'', ''tasks''] rows))))"

end
