(* ===== verification/Tool_Properties.thy ===== *)
theory Tool_Properties
  imports Health Discovery Actions Consul_Properties
begin

text \<open>The properties of the health agent, the discovery agent and the commands of the operator.\<close>

section \<open>The health agent\<close>

text \<open>Turns of a monitor, and the results its check gives in them.\<close>

primrec monitor_turns ::
  "'b scheduler_api \<Rightarrow> 'w probes \<Rightarrow> nat \<Rightarrow> monitor \<times> 'b \<times> 'w \<Rightarrow> (monitor \<times> 'b \<times> 'w) outcome" where
  "monitor_turns api pr 0 s = Returns s"
| "monitor_turns api pr (Suc n) s = bind_outcome (monitor_turn api pr (fst s) (snd s)) (monitor_turns api pr n)"

definition probe :: "'w probes \<Rightarrow> health_check \<Rightarrow> 'w \<Rightarrow> go_error option \<times> 'w" where
  "probe pr ch = the (lookup (checkers pr) (checkType ch)) ch"

primrec probe_results :: "'w probes \<Rightarrow> health_check \<Rightarrow> nat \<Rightarrow> 'w \<Rightarrow> go_error option list" where
  "probe_results pr ch 0 w = []"
| "probe_results pr ch (Suc n) w = fst (probe pr ch w) # probe_results pr ch n (snd (probe pr ch w))"

lemma length_probe_results [simp]: "length (probe_results pr ch n w) = n"
  by (induction n arbitrary: w) simp_all

lemma monitor_turn_probe:
  assumes "mn_Type m = checkType ch" and "mn_Check m = ch"
  shows "\<exists>b'. monitor_turn (mock_api ord) pr m (b, w) = Returns (record_result (fst (probe pr ch w)) m, b', snd (probe pr ch w)) \<and>
    lookup (mk_health b') (hc_TaskID ch) = Some (mn_Status (record_result (fst (probe pr ch w)) m))"
proof -
  obtain checker where c: "lookup (checkers pr) (checkType ch) = Some checker" using checkType_known by blast
  then have "probe pr ch w = checker ch w" by (simp add: probe_def)
  then show ?thesis
    using c assms by (cases "checker ch w") (simp add: monitor_turn_def Let_def mock_api_def mock_PutTaskState_def)
qed

lemma monitor_turns_probe:
  "mn_Type m = checkType ch \<Longrightarrow> mn_Check m = ch \<Longrightarrow>
   \<exists>b' w'. monitor_turns (mock_api ord) pr n (m, b, w) = Returns (fold record_result (probe_results pr ch n w) m, b', w') \<and>
     (n > 0 \<longrightarrow> lookup (mk_health b') (hc_TaskID ch) = Some (mn_Status (fold record_result (probe_results pr ch n w) m)))"
proof (induction n arbitrary: m b w)
  case (Suc n)
  obtain b1 where b1: "monitor_turn (mock_api ord) pr m (b, w) = Returns (record_result (fst (probe pr ch w)) m, b1, snd (probe pr ch w))"
      "lookup (mk_health b1) (hc_TaskID ch) = Some (mn_Status (record_result (fst (probe pr ch w)) m))"
    using monitor_turn_probe [OF Suc.prems, of ord pr b w] by blast
  show ?case
    using Suc.IH [of "record_result (fst (probe pr ch w)) m" b1 "snd (probe pr ch w)"] Suc.prems b1 by (cases "n = 0") simp_all
qed simp

text \<open>
  C33. The state a monitor reports is decided by the failures since its check last passed: none makes the
  task running, up to three a warning, more make it failing. A monitor never panics.
\<close>

theorem health_status:
  assumes "0 < n" and "int n < 2 ^ 63"
  shows "\<exists>m b' w'. monitor_turns (mock_api ord) pr n (NewMonitor ch, b, w) = Returns (m, b', w') \<and>
    lookup (mk_health b') (hc_TaskID ch) =
      Some (let f = trailing_failures (probe_results pr ch n w) in if f = 0 then RUNNING else if f \<le> 3 then WARNING else FAILING)"
proof -
  let ?rs = "probe_results pr ch n w"
  obtain b' w' where run: "monitor_turns (mock_api ord) pr n (NewMonitor ch, b, w) = Returns (fold record_result ?rs (NewMonitor ch), b', w')"
      "lookup (mk_health b') (hc_TaskID ch) = Some (mn_Status (fold record_result ?rs (NewMonitor ch)))"
    using monitor_turns_probe [of "NewMonitor ch" ch ord pr n b w] assms(1) by (auto simp: NewMonitor_def)
  moreover have "?rs \<noteq> []" using assms(1) length_probe_results [of pr ch n w] by (metis length_0_conv less_numeral_extra(3))
  then have "mn_Status (fold record_result ?rs (NewMonitor ch)) = status_of (trailing_failures ?rs)"
    using record_results [of ?rs ch] assms(2) by simp
  ultimately show ?thesis by (auto simp: status_of_def Let_def)
qed

text \<open>A script that always fails.\<close>

definition dead_probes :: "exec_command list probes" where
  "dead_probes = \<lparr>pr_system = broken, pr_get = (\<lambda>t u w. (Inl (OtherError ''refused''), w)), pr_dial = (\<lambda>a w. (Some (OtherError ''refused''), w))\<rparr>"

definition script_check :: health_check where
  "script_check = \<lparr>hc_TaskID = ''c-d-1-0'', hc_TCP = '''', hc_HTTP = '''', hc_Script = ''true'', hc_Docker = '''', hc_DockerID = '''',
     hc_Timeout = second, hc_Interval = second\<rparr>"

theorem health_status_witness:
  "\<exists>m b' w'. monitor_turns (mock_api listed_order) dead_probes 4 (NewMonitor script_check, NewMockApi, []) = Returns (m, b', w') \<and>
    lookup (mk_health b') ''c-d-1-0'' = Some FAILING"
proof -
  have "probe dead_probes script_check w = (Some (OtherError ''exec failed''), w)" for w
    by (simp add: probe_def checkers_def checkType_def script_check_def checkScript_def Exec_def dead_probes_def broken_def)
  then have "probe_results dead_probes script_check 4 [] = replicate 4 (Some (OtherError ''exec failed''))"
    by (simp add: numeral_eq_Suc)
  then have "trailing_failures (probe_results dead_probes script_check 4 []) = 4" by (simp add: trailing_failures_def)
  moreover have "hc_TaskID script_check = ''c-d-1-0''" by (simp add: script_check_def)
  ultimately show ?thesis
    using health_status [of 4 listed_order dead_probes script_check NewMockApi "[]"] by simp
qed

text \<open>
  The monitors are filed under the identifiers of the checks, which the instances of a deployment share:
  of several instances on one host only the first is monitored.
\<close>

lemma add_monitor_known: "lookup (ha_State h) (ch_ID c) \<noteq> None \<Longrightarrow> add_monitor t c h = h"
  by (auto simp: add_monitor_def)

lemma add_monitor_fields:
  "lookup (ha_State (add_monitor t c h)) k \<noteq> None \<longleftrightarrow> lookup (ha_State h) k \<noteq> None \<or> k = ch_ID c"
  "\<forall>m \<in> set (ha_monitors h). hc_TaskID (mn_Check m) = task_ID t \<Longrightarrow>
   \<forall>m \<in> set (ha_monitors (add_monitor t c h)). hc_TaskID (mn_Check m) = task_ID t"
  by (auto simp: add_monitor_def NewMonitor_def check_of_def split: option.split)

lemma add_monitors_keys:
  "lookup (ha_State (fold (\<lambda>(t, c). add_monitor t c) (map (Pair t) cs) h)) k \<noteq> None \<longleftrightarrow>
     lookup (ha_State h) k \<noteq> None \<or> k \<in> ch_ID ` set cs"
proof (induction cs arbitrary: h)
  case (Cons c cs)
  show ?case using Cons.IH [of "add_monitor t c h"] add_monitor_fields(1) [of t c h k] by simp
qed simp

lemma add_monitors_one:
  "\<forall>m \<in> set (ha_monitors h). hc_TaskID (mn_Check m) = task_ID t \<Longrightarrow>
   \<forall>m \<in> set (ha_monitors (fold (\<lambda>(t, c). add_monitor t c) (map (Pair t) cs) h)). hc_TaskID (mn_Check m) = task_ID t"
proof (induction cs arbitrary: h)
  case (Cons c cs)
  show ?case using Cons.IH [OF add_monitor_fields(2) [OF Cons.prems]] by simp
qed simp

lemma add_monitors_known:
  "\<forall>(t, c) \<in> set tcs. lookup (ha_State h) (ch_ID c) \<noteq> None \<Longrightarrow> fold (\<lambda>(t, c). add_monitor t c) tcs h = h"
proof (induction tcs)
  case (Cons tc tcs)
  then show ?case by (cases tc) (simp add: add_monitor_known)
qed simp

lemma collect_monitors [simp]: "ha_monitors (fold (collect_monitor ts) ks h) = ha_monitors h"
  by (induction ks arbitrary: h) (auto simp: collect_monitor_def split: option.split)

lemma task_checks_alt: "task_checks t = map (Pair t) (concat (map ct_Checks (td_Containers (tk_TaskDefinition t))))"
  by (simp add: task_checks_def map_concat comp_def)

theorem only_first_instance_monitored:
  assumes "ListTasks api (any_task\<lparr>tq_ByHost := ha_Host h\<rparr>) b = Ok (t # ts)" and "ha_State h = []" and "ha_monitors h = []"
    and "\<forall>u \<in> set ts. tk_TaskDefinition u = tk_TaskDefinition t"
  shows "\<exists>h'. health_sync api ord b h = Returns (None, h') \<and> (\<forall>m \<in> set (ha_monitors h'). hc_TaskID (mn_Check m) = task_ID t)"
proof -
  let ?cs = "concat (map ct_Checks (td_Containers (tk_TaskDefinition t)))"
  let ?h = "fold (\<lambda>(t, c). add_monitor t c) (map (Pair t) ?cs) h"
  have "c \<in> set ?cs" if "(u, c) \<in> set (concat (map task_checks ts))" for u c
    using that assms(4) by (auto simp: task_checks_alt)
  then have "\<forall>(u, c) \<in> set (concat (map task_checks ts)). lookup (ha_State ?h) (ch_ID c) \<noteq> None"
    using add_monitors_keys [of t ?cs h] by blast
  then have "fold (\<lambda>(t, c). add_monitor t c) (concat (map task_checks (t # ts))) h = ?h"
    using add_monitors_known [of "concat (map task_checks ts)" ?h] by (simp add: task_checks_alt)
  moreover have "\<forall>m \<in> set (ha_monitors ?h). hc_TaskID (mn_Check m) = task_ID t"
    using add_monitors_one [of h t ?cs] assms(3) by simp
  ultimately show ?thesis using assms(1) by (simp add: health_sync_def Let_def)
qed

section \<open>The discovery agent\<close>

text \<open>
  Nobody receives from the channel on which the discovery agent announces changes: the first
  synchronisation that finds a change never returns and keeps the lock. From then on no synchronisation
  returns, and no listener is answered; the index of the service has not moved.
\<close>

theorem discovery_blocks:
  assumes "services_of api b ag = Ok ss" and "\<forall>s \<in> set ss. \<exists>eps. endpoints api b (sv_Name s) = Ok eps" and "\<not> da_locked ag"
    and "s \<in> set ss" and "endpoints api b (sv_Name s) = Ok eps" and "endpoints_changed (lookup (da_Services ag) (sv_Name s)) eps"
  shows "\<exists>ag'. discovery_sync False api b ag = (SyncStops Blocked, ag') \<and> da_ChangeIdx ag' = da_ChangeIdx ag \<and>
    (\<forall>b'. (\<exists>ss'. services_of api b' ag' = Ok ss') \<longrightarrow> discovery_sync False api b' ag' = (SyncStops Blocked, ag')) \<and>
    (\<forall>key name i evs. Listen key name i evs ag' = (Hangs, ag'))"
proof -
  obtain how ag' where run: "sync_services False api b ss (ag\<lparr>da_locked := True\<rparr>) = (how, ag')" by (rule prod.exhaust)
  have "\<exists>s \<in> set ss. \<exists>eps. endpoints api b (sv_Name s) = Ok eps \<and> endpoints_changed (lookup (da_Services ag) (sv_Name s)) eps"
    using assms(4-6) by blast
  then have "how = SyncStops Blocked" "da_locked ag'" "da_ChangeIdx ag' = da_ChangeIdx ag"
    using sync_services_unreceived [OF assms(2), of "ag\<lparr>da_locked := True\<rparr>"] run by simp_all
  then show ?thesis using assms(1,3) run by (auto simp: discovery_sync_def Listen_def)
qed

text \<open>A service without tasks, stored in Consul.\<close>

definition web :: service where
  "web = \<lparr>sv_Name = ''web'', sv_Cluster = ''c'', sv_Deployment = ''d'', sv_Container = '''', sv_PortName = ''http'', sv_Protocol = ''http''\<rparr>"

definition web_store :: "store consul" where
  "web_store = fst (consul_PutService local_consul ''sked'' web empty_store)"

lemma web_known:
  "services_of (consul_api local_consul ''sked'') web_store (NewDiscovery [''web'']) = Ok [web]"
  "endpoints (consul_api local_consul ''sked'') web_store ''web'' = Ok []"
proof -
  have get: "consul_read local_consul ''sked'' service_field zero_service ''config/services/web'' web_store = Ok web"
    using consul_read_put [OF local_consul_store decode_service, of "''sked''" "''config/services/web''" web empty_store]
    by (simp add: web_store_def consul_PutService_def web_def)
  have list: "consul_list local_consul ''sked'' ''state/tasks/c-d'' web_store = Inr []"
    by (simp add: consul_list_def web_store_def consul_PutService_def consul_put_def local_consul_def empty_store_def
        NewConsulApi_def full_key_def web_def sorted_map_same)
  show "services_of (consul_api local_consul ''sked'') web_store (NewDiscovery [''web'']) = Ok [web]"
    using get by (simp add: services_of_def NewDiscovery_def consul_api_def consul_GetService_def)
  show "endpoints (consul_api local_consul ''sked'') web_store ''web'' = Ok []"
    using get list by (simp add: endpoints_def consul_api_def consul_GetService_def consul_ListTasks_def tasks_prefix_def
        service_query_def any_task_def web_def)
qed

theorem discovery_blocks_witness:
  "\<exists>ag'. discovery_sync False (consul_api local_consul ''sked'') web_store (NewDiscovery [''web'']) = (SyncStops Blocked, ag') \<and>
    fst (Listen ''id'' ''web'' 0 [] ag') = Hangs"
proof -
  have e: "\<forall>s \<in> set [web]. \<exists>eps. endpoints (consul_api local_consul ''sked'') web_store (sv_Name s) = Ok eps"
    using web_known(2) by (simp add: web_def)
  show ?thesis
    using discovery_blocks [OF web_known(1) e, of web "[]"] web_known(2)
    by (auto simp: web_def NewDiscovery_def endpoints_changed_def)
qed



section \<open>Scaling\<close>

text \<open>A deployment is in order when its minimum, its desired number and its maximum are.\<close>

definition in_order :: "deployment \<Rightarrow> bool" where
  "in_order d \<longleftrightarrow> dp_Min d \<le> dp_Desired d \<and> dp_Desired d \<le> dp_Max d"

text \<open>
  Scaling a stored deployment sets its desired number and widens its limits just as far as needed, so
  that a deployment that was in order stays in order; nothing else of it and no other deployment changes.
\<close>

theorem scale_result:
  assumes "lookup (mk_deployments b) name = Some d" and "dp_Name d = name" and "name \<noteq> ''''" and "in_order d"
  shows "\<exists>b'. Scale (mock_api ord) name n b = Returns (b', None) \<and>
    lookup (mk_deployments b') = (lookup (mk_deployments b))(name \<mapsto>
      d\<lparr>dp_Desired := n, dp_Min := min (dp_Min d) n, dp_Max := max (dp_Max d) n\<rparr>) \<and>
    in_order (d\<lparr>dp_Desired := n, dp_Min := min (dp_Min d) n, dp_Max := max (dp_Max d) n\<rparr>)"
  using assms
  by (auto simp: Scale_def mock_api_def mock_get_defs mock_PutDeployment_def Let_def in_order_def min_def max_def)

theorem scale_result_witness:
  "\<exists>b' d. Scale (mock_api listed_order) ''d'' 7 (NewMockApi\<lparr>mk_deployments := [(''d'', ex_deployment 1)]\<rparr>) = Returns (b', None) \<and>
    lookup (mk_deployments b') ''d'' = Some d \<and> dp_Desired d = 7 \<and> dp_Max d = 7"
  using scale_result [of "NewMockApi\<lparr>mk_deployments := [(''d'', ex_deployment 1)]\<rparr>" "''d''" "ex_deployment 1" listed_order 7]
  by (auto simp: ex_deployment_def in_order_def)

text \<open>
  The command reads the number in base eight: a number with a digit eight or nine is refused, any
  other scales to its octal value, so that ten asks for eight.
\<close>

theorem scale_command_octal:
  assumes "vs \<noteq> []" and "\<forall>v \<in> set vs. v < 10" and "base_value 8 vs 0 < 2 ^ 63"
  shows "ScaleCmd api [name, digits_text vs] b =
    (if \<exists>v \<in> set vs. 8 \<le> v then Returns (b, Some (OtherError ''strconv.ParseInt''))
     else Scale api name (int (base_value 8 vs 0)) b)"
proof (cases "\<exists>v \<in> set vs. 8 \<le> v")
  case True
  then show ?thesis
    using parse_digits_bad [OF True assms(2)] ParseInt_digits [OF assms(2,1), of 8 64] by (simp add: ScaleCmd_def arg_def)
next
  case False
  then have "parse_digits 8 (digits_text vs) 0 = Some (base_value 8 vs 0)" by (intro parse_digits_text) (auto simp: not_le)
  then have "ParseInt (digits_text vs) 8 64 = Some (int (base_value 8 vs 0))"
    using ParseInt_digits [OF assms(2,1), of 8 64] assms(3) by (simp add: signed_range_def)
  then show ?thesis using False by (simp add: ScaleCmd_def arg_def)
qed

theorem scale_command_octal_witness:
  "ScaleCmd (mock_api listed_order) [''d'', ''10''] NewMockApi = Scale (mock_api listed_order) ''d'' 8 NewMockApi \<and>
    ScaleCmd (mock_api listed_order) [''d'', ''9''] NewMockApi = Returns (NewMockApi, Some (OtherError ''strconv.ParseInt''))"
proof -
  have "digits_text [1, 0] = ''10''" "digits_text [9] = ''9''" by (simp_all add: digits_text_def char_of_def bit_0)
  then show ?thesis
    using scale_command_octal [of "[1, 0]" "mock_api listed_order" "''d''" NewMockApi]
      scale_command_octal [of "[9]" "mock_api listed_order" "''d''" NewMockApi] by simp
qed

section \<open>Applying a configuration\<close>

lemma apply_one_mock:
  assumes "\<And>x b. mk_deployments (fst (put x b)) = mk_deployments b"
  shows "mk_deployments (fst (apply_one label validate put name x s)) = mk_deployments (fst s)"
  using assms by (simp add: apply_one_def valid_errs_def split: prod.split option.split)

definition stored_in_order :: "mock \<times> string list \<Rightarrow> bool" where
  "stored_in_order s \<longleftrightarrow> (\<forall>k d. lookup (mk_deployments (fst s)) k = Some d \<longrightarrow> in_order d)"

lemma apply_keeps_order [simp]:
  "stored_in_order s \<Longrightarrow> stored_in_order (apply_task_definition (mock_api ord) td s)"
  "stored_in_order s \<Longrightarrow> stored_in_order (apply_cluster (mock_api ord) label c s)"
  "stored_in_order s \<Longrightarrow> stored_in_order (apply_service (mock_api ord) v s)"
  "stored_in_order s \<Longrightarrow> stored_in_order (apply_one label validate (PutTaskDefinition (mock_api ord)) td_Name td s)"
  by (simp_all add: stored_in_order_def apply_task_definition_def apply_cluster_def apply_service_def apply_one_mock
      mock_api_def mock_put_defs)

lemma apply_deployment_order [simp]:
  assumes "stored_in_order s"
  shows "stored_in_order (apply_deployment (mock_api ord) d s)"
proof (cases "deployment_Validate (mock_api ord) (fst s) d = []")
  case True
  then have "in_order d" by (auto simp: deployment_Validate_def in_order_def split: if_splits)
  then show ?thesis
    using assms True by (cases s) (auto simp: stored_in_order_def apply_deployment_def apply_one_def valid_errs_def mock_api_def mock_PutDeployment_def)
next
  case False
  then show ?thesis
    using assms by (cases s) (simp add: stored_in_order_def apply_deployment_def apply_one_def valid_errs_def)
qed

lemma stored_in_order_fold: "(\<And>x s. stored_in_order s \<Longrightarrow> stored_in_order (f x s)) \<Longrightarrow> stored_in_order s \<Longrightarrow> stored_in_order (fold f xs s)"
  by (induction xs arbitrary: s) simp_all

lemma stored_in_order_optional: "(\<And>x s. stored_in_order s \<Longrightarrow> stored_in_order (f x s)) \<Longrightarrow> stored_in_order s \<Longrightarrow> stored_in_order (apply_optional f x s)"
  by (simp add: apply_optional_def split: option.split)


definition only_definition :: config_file where
  "only_definition = \<lparr>cf_Clusters = [], cf_Deployments = [], cf_TaskDefinitions = [], cf_Services = [], cf_Deployment = None,
     cf_TaskDefinition = Some (ex_definition 1), cf_Cluster = None, cf_Service = None\<rparr>"


end
