(* ===== verification/Consul_Tasks.thy ===== *)
theory Consul_Tasks
  imports Consul_Laws Schedule_Counts Schedule_Effects Master
begin

text \<open>
  The laws of \<open>task_backend\<close> for the Consul backend: with a store that can be reached and documents the
  program can read back, the scheduler and the garbage collection meet in Consul what they meet in memory.
  Tasks are stored as documents, so only tasks whose numbers fit, with their provided ports in order, are
  the same when they are read back; the scheduler makes no others.
\<close>

section \<open>Documents that are read back as they were\<close>

definition storable :: "task \<Rightarrow> bool" where
  "storable t \<longleftrightarrow> fits_task t \<and> normal t = t"

definition consul_good :: "'c consul_client \<Rightarrow> ('c \<Rightarrow> string \<Rightarrow> kv_value option) \<Rightarrow> string \<Rightarrow> 'c consul \<Rightarrow> bool" where
  "consul_good cl view pre s \<longleftrightarrow>
     kv_store cl view \<and> readable view pre s \<and> (\<forall>t \<in> ran (stored_task view pre s). storable t) \<and>
     (\<forall>n v td. consul_GetTaskDefinition cl pre n v s = Ok td \<longrightarrow> fits_definition td)"

definition small_deployment :: "deployment \<Rightarrow> bool" where
  "small_deployment d \<longleftrightarrow> in_int64 (dp_Desired d)"

lemma consul_goodD:
  assumes "consul_good cl view pre s"
  shows "kv_store cl view" and "readable view pre s" and "stored_task view pre s k = Some t \<Longrightarrow> storable t"
    and "consul_GetTaskDefinition cl pre n v s = Ok td \<Longrightarrow> fits_definition td"
  using assms by (auto simp: consul_good_def ran_def)

lemma storable_iff: "storable t \<longleftrightarrow> fits_task t \<and> sorted_map (tk_ProvidedPorts t) = tk_ProvidedPorts t"
  by (cases t) (simp add: storable_def normal_def)

lemma storable_unscheduled: "storable t \<Longrightarrow> storable (t\<lparr>tk_Scheduled := False\<rparr>)"
  by (simp add: storable_iff fits_task_def)

lemma storable_new:
  assumes "fits_definition td" and "small_deployment d" and "0 \<le> i" and "i < dp_Desired d" and "listed_ports pp"
  shows "storable ((NewTask cl td d i)\<lparr>tk_Host := h, tk_ProvidedPorts := pp, tk_Scheduled := True\<rparr>)"
proof -
  have "in_int64 i" using assms(2-4) by (auto simp: small_deployment_def in_int64_def)
  then show ?thesis
    using assms(1,5)
    by (force simp: storable_iff fits_task_def NewTask_def listed_ports_def sorted_map_same fits_uint_def)
qed

text \<open>A number read into a field of a struct fits, whatever the document says.\<close>

lemma decode_fields_invariant:
  "decode_fields f kvs old = Some x \<Longrightarrow> P old \<Longrightarrow> (\<And>k j y z. P y \<Longrightarrow> f k j y = Some z \<Longrightarrow> P z) \<Longrightarrow> P x"
proof (induction kvs arbitrary: old)
  case (Cons kv kvs)
  obtain k j where kv: "kv = (k, j)" by (cases kv)
  then obtain y where y: "f (map lower k) j old = Some y" "decode_fields f kvs y = Some x"
    using Cons.prems(1) by (auto split: option.splits)
  then show ?case using Cons.IH [OF y(2)] Cons.prems(2,3) by blast
qed simp

lemma Decode_deployment_small: "Decode deployment_field zero_deployment v = Some d \<Longrightarrow> small_deployment d"
proof -
  have int: "in_int64 y" if "decode_int j x = Some y" "in_int64 x" for j x y
    using that by (auto simp: decode_int_def split: json.splits if_splits)
  have "small_deployment x" if "decode_fields deployment_field kvs zero_deployment = Some x" for kvs x
    by (rule decode_fields_invariant [OF that, of small_deployment])
      (auto simp: small_deployment_def zero_deployment_def in_int64_def [of 0] deployment_field_def set_field_def
        intro: int split: if_splits)
  then show "Decode deployment_field zero_deployment v = Some d \<Longrightarrow> small_deployment d"
    by (auto simp: Decode_def decode_struct_def small_deployment_def zero_deployment_def in_int64_def [of 0]
        split: kv_value.splits json.splits)
qed

section \<open>The laws\<close>

lemma consul_read_Decode: "consul_read cl pre f zero key s = Ok x \<Longrightarrow> \<exists>v. Decode f zero v = Some x"
  by (auto simp: consul_read_def split: prod.splits option.splits if_splits)

text \<open>Writing a task leaves what is stored under every other key alone.\<close>

lemma PutTask_other_key:
  assumes "kv_store cl view" and "\<And>k. key \<noteq> task_key k"
  shows "content view pre (fst (consul_PutTask cl pre t s)) key = content view pre s key"
  using consul_PutTask_content [OF assms(1), of pre t s] assms(2) by simp

lemma config_keys:
  "definition_key n v \<noteq> task_key k" "''config/deployments/'' @ n \<noteq> task_key k" "''config/clusters/'' @ n \<noteq> task_key k"
  "''hosts/'' @ n \<noteq> task_key k"
  by (simp_all add: definition_key_def task_key_def)

lemma consul_PutTask_config:
  assumes "kv_store cl view"
  shows "consul_GetTaskDefinition cl pre n v (fst (consul_PutTask cl pre t s)) = consul_GetTaskDefinition cl pre n v s"
    and "consul_GetDeployment cl pre n (fst (consul_PutTask cl pre t s)) = consul_GetDeployment cl pre n s"
    and "consul_GetCluster cl pre n (fst (consul_PutTask cl pre t s)) = consul_GetCluster cl pre n s"
    and "consul_ListHosts cl pre n (fst (consul_PutTask cl pre t s)) = consul_ListHosts cl pre n s"
  unfolding consul_GetTaskDefinition_def consul_GetDeployment_def consul_GetCluster_def consul_ListHosts_def
  by (rule consul_read_cong [OF assms] PutTask_other_key [OF assms] config_keys)+
    (auto intro!: consul_read_all_cong [OF assms] PutTask_other_key [OF assms] simp: task_key_def prefix_def)

lemma consul_PutTask_good:
  assumes "consul_good cl view pre s" and "storable t"
  shows "consul_good cl view pre (fst (consul_PutTask cl pre t s))"
proof -
  note store = consul_goodD(1) [OF assms(1)]
  have "fits_task t" "normal t = t" using assms(2) by (simp_all add: storable_def)
  then show ?thesis
    using consul_PutTask_store [OF store, of t pre s] assms
    by (auto simp: consul_good_def consul_PutTask_config [OF store] ran_def split: if_splits)
qed

interpretation consul_tasks: task_backend "consul_good cl view pre" "consul_api cl pre" "stored_task view pre"
    storable small_deployment for cl :: "'c consul_client" and view pre
proof
  fix b :: "'c consul" and k n v t d td i pp c h and q :: task_query
  assume good: "consul_good cl view pre b"
  note store = consul_goodD(1) [OF good] and readable = consul_goodD(2) [OF good]
  show "stored_task view pre b k = Some t \<Longrightarrow> task_ID t = k" by (rule stored_task_key [OF readable])
  show "stored_task view pre b k = Some t \<Longrightarrow> storable t" by (rule consul_goodD(3) [OF good])
  show "GetTaskDefinition (consul_api cl pre) n v b = Ok td \<Longrightarrow> small_deployment d \<Longrightarrow> 0 \<le> i \<Longrightarrow> i < dp_Desired d \<Longrightarrow>
      listed_ports pp \<Longrightarrow> storable ((NewTask c td d i)\<lparr>tk_Host := h, tk_ProvidedPorts := pp, tk_Scheduled := True\<rparr>)"
    using consul_goodD(4) [OF good] by (auto simp: consul_api_def intro: storable_new)
  show "GetDeployment (consul_api cl pre) n b = Ok d \<Longrightarrow> small_deployment d"
    by (auto simp: consul_api_def consul_GetDeployment_def dest: consul_read_Decode Decode_deployment_small)
  show "\<not> tq_Failing q \<Longrightarrow> \<not> tq_Running q \<Longrightarrow> \<exists>ts. ListTasks (consul_api cl pre) q b = Ok ts \<and>
      set ts = {t \<in> ran (stored_task view pre b). selects q PENDING t} \<and> distinct (map task_ID ts)"
    using consul_ListTasks_selects [OF store readable] by (simp add: consul_api_def)
  show "GetTaskDefinition (consul_api cl pre) n v (fst (PutTask (consul_api cl pre) t b)) = GetTaskDefinition (consul_api cl pre) n v b"
    "GetDeployment (consul_api cl pre) n (fst (PutTask (consul_api cl pre) t b)) = GetDeployment (consul_api cl pre) n b"
    "GetCluster (consul_api cl pre) n (fst (PutTask (consul_api cl pre) t b)) = GetCluster (consul_api cl pre) n b"
    "ListHosts (consul_api cl pre) n (fst (PutTask (consul_api cl pre) t b)) = ListHosts (consul_api cl pre) n b"
    by (simp_all add: consul_api_def consul_PutTask_config [OF store])
  assume fine: "storable t"
  show "consul_good cl view pre (fst (PutTask (consul_api cl pre) t b))"
    using consul_PutTask_good [OF good fine] by (simp add: consul_api_def)
  show "snd (PutTask (consul_api cl pre) t b) = None"
    "stored_task view pre (fst (PutTask (consul_api cl pre) t b)) = (stored_task view pre b)(task_ID t \<mapsto> t)"
    using consul_PutTask_store [OF store, of t pre b] fine by (simp_all add: consul_api_def storable_def)
qed (rule storable_unscheduled)

end
