(* ===== verification/Consul_Schedule.thy ===== *)
theory Consul_Schedule
  imports Consul_Tasks Consul_Properties Schedule_Properties
begin

text \<open>
  The scheduler, the garbage collection and the requests of the master over Consul: the properties that
  hold in memory, from the laws of \<open>Consul_Tasks\<close>, and what a call may write to the store.
\<close>

section \<open>What a call writes\<close>

text \<open>Only documents of tasks of the deployment have changed.\<close>

definition only_own ::
  "('c \<Rightarrow> string \<Rightarrow> kv_value option) \<Rightarrow> string \<Rightarrow> cluster \<Rightarrow> deployment \<Rightarrow> 'c consul \<Rightarrow> 'c consul \<Rightarrow> bool" where
  "only_own view pre cs d b b' \<longleftrightarrow>
     (\<forall>key. content view pre b' key \<noteq> content view pre b key \<longrightarrow>
        (\<exists>k t. key = task_key k \<and> stored_task view pre b' k = Some t \<and> own cs d t))"

lemma only_own_refl [simp]: "only_own view pre cs d b b"
  by (simp add: only_own_def)

lemma only_own_put:
  assumes "only_own view pre cs d b b'" and "consul_good cl view pre b'" and "storable t" and "own cs d t"
  shows "only_own view pre cs d b (fst (PutTask (consul_api cl pre) t b'))"
proof -
  note store = consul_goodD(1) [OF assms(2)]
  have "content view pre (fst (PutTask (consul_api cl pre) t b')) = (content view pre b')(task_key (task_ID t) \<mapsto> Doc (encode_task t))"
    using consul_PutTask_content [OF store] by (simp add: consul_api_def)
  moreover have "stored_task view pre (fst (PutTask (consul_api cl pre) t b')) = (stored_task view pre b')(task_ID t \<mapsto> t)"
    by (rule consul_tasks.PutTask_tasks [OF assms(2,3)])
  ultimately show ?thesis
    using assms(1,4) unfolding only_own_def by (metis fun_upd_apply)
qed

lemma consul_Schedule_writes:
  assumes run: "Schedule (consul_api cl pre) ch d s b = Returns (None, s', b')" and good: "consul_good cl view pre b"
    and keyed: "hosts_keyed s" and cl: "ds_cluster s = Some cs" and named: "named cs d" and small: "small_deployment d"
  shows "only_own view pre cs d b b'"
proof -
  obtain p :: "'a consul progress" where "b' = pg_backend p" "only_own view pre cs d b (pg_backend p)"
  proof (rule consul_tasks.Schedule_invariant [OF run good keyed cl named small,
        where P = "\<lambda>p. only_own view pre cs d b (pg_backend p)" and Q = "\<lambda>_ p. only_own view pre cs d b (pg_backend p)"])
    fix p k t
    assume t: "issued cs d (stored_task view pre b) k = Some t" and "mirror (consul_good cl view pre) (stored_task view pre) cs d p"
      and "only_own view pre cs d b (pg_backend p)"
    moreover have "own cs d (t\<lparr>tk_Scheduled := False\<rparr>)" using t by (simp add: issued_Some)
    ultimately show "only_own view pre cs d b (pg_backend (drop_task (consul_api cl pre) k t p))"
      using consul_tasks.issued_fine [OF good t] by (simp add: mirror_def only_own_put)
  next
    fix s1 s2 p i t td
    assume "only_own view pre cs d b (pg_backend p)" and "mirror (consul_good cl view pre) (stored_task view pre) cs d p"
      and "placement cs td d i s1 t s2" and "storable t"
    then show "only_own view pre cs d b (pg_backend (issue_task (consul_api cl pre) t p))"
      using placement_own by (auto simp: mirror_def intro: only_own_put)
  qed auto
  then show ?thesis by simp
qed

section \<open>An example\<close>

text \<open>A store with a host, a task definition, a deployment and a cluster, and one task that is no longer listed.\<close>

definition cx_container :: container where "cx_container = ex_container\<lparr>ct_Executor := Some (JObj [(''start'', JStr ''run'')])\<rparr>"

definition cx_definition :: task_definition where "cx_definition = (ex_definition 1)\<lparr>td_Containers := [cx_container]\<rparr>"

definition cx_task :: "int \<Rightarrow> task" where "cx_task i = (ex_task 1 i)\<lparr>tk_TaskDefinition := cx_definition\<rparr>"

definition cx_store :: "task list \<Rightarrow> store consul" where
  "cx_store ts = NewConsulApi (map (\<lambda>t. (full_key ''sked'' (task_key (task_ID t)), Doc (encode_task t))) ts @
     [(full_key ''sked'' (host_key ''c'' ''h''), Doc (encode_host (ex_host ''h'' 1000))),
      (full_key ''sked'' (definition_key ''t'' 1), Doc (encode_definition cx_definition)),
      (full_key ''sked'' (''config/deployments/d''), Doc (encode_deployment (ex_deployment 2))),
      (full_key ''sked'' (''config/clusters/c''), Doc (encode_cluster ex_cluster))])"

lemma cx_content:
  "content lookup ''sked'' (cx_store ts) key =
     (case lookup (map (\<lambda>t. (task_key (task_ID t), Doc (encode_task t))) ts) key of Some v \<Rightarrow> Some v
      | None \<Rightarrow> lookup [(host_key ''c'' ''h'', Doc (encode_host (ex_host ''h'' 1000))),
          (definition_key ''t'' 1, Doc (encode_definition cx_definition)),
          (''config/deployments/d'', Doc (encode_deployment (ex_deployment 2))),
          (''config/clusters/c'', Doc (encode_cluster ex_cluster))] key)"
  by (induction ts) (simp_all add: content_def cx_store_def NewConsulApi_def)

lemma cx_task_content:
  "content lookup ''sked'' (cx_store ts) (task_key k) = map_option (\<lambda>t. Doc (encode_task t)) (lookup (map (\<lambda>t. (task_ID t, t)) ts) k)"
proof -
  have "lookup (map (\<lambda>t. (task_key (task_ID t), Doc (encode_task t))) ts) (task_key k) =
      map_option (\<lambda>t. Doc (encode_task t)) (lookup (map (\<lambda>t. (task_ID t, t)) ts) k)"
    by (induction ts) simp_all
  then show ?thesis
    by (simp add: cx_content host_key_def definition_key_def task_key_def split: option.split)
qed

lemma cx_other_content:
  "(\<And>k. key \<noteq> task_key k) \<Longrightarrow> content lookup ''sked'' (cx_store ts) key =
     lookup [(host_key ''c'' ''h'', Doc (encode_host (ex_host ''h'' 1000))),
       (definition_key ''t'' 1, Doc (encode_definition cx_definition)),
       (''config/deployments/d'', Doc (encode_deployment (ex_deployment 2))),
       (''config/clusters/c'', Doc (encode_cluster ex_cluster))] key"
  unfolding cx_content by (induction ts) auto

lemma listed_storable: "\<forall>t \<in> set ts. storable t \<Longrightarrow> lookup (map (\<lambda>t. (task_ID t, t)) ts) k = Some t \<Longrightarrow> storable t"
  by (drule map_of_SomeD) auto

lemma cx_stored:
  assumes "\<forall>t \<in> set ts. storable t"
  shows "stored_task lookup ''sked'' (cx_store ts) = lookup (map (\<lambda>t. (task_ID t, t)) ts)"
proof
  fix k
  show "stored_task lookup ''sked'' (cx_store ts) k = lookup (map (\<lambda>t. (task_ID t, t)) ts) k"
    by (cases "lookup (map (\<lambda>t. (task_ID t, t)) ts) k")
      (auto simp: stored_task_def cx_task_content storable_def Decode_encode_task dest: listed_storable [OF assms])
qed

lemma cx_fits: "fits_definition cx_definition"
  by (simp add: fits_definition_def fits_container_def fits_uint_def fits_duration_def in_int64_def cx_definition_def
      ex_definition_def cx_container_def ex_container_def second_def)

lemma cx_task_storable: "in_int64 i \<Longrightarrow> storable (cx_task i)"
  using cx_fits by (simp add: storable_iff fits_task_def cx_task_def ex_task_def NewTask_def sorted_map_same)

lemma cx_definition_read:
  "consul_GetTaskDefinition local_consul ''sked'' n v (cx_store ts) =
     (if definition_key n v = definition_key ''t'' 1 then Ok cx_definition else Fail ErrNotFound (Some zero_definition))"
proof (cases "definition_key n v = definition_key ''t'' 1")
  case True
  have "content lookup ''sked'' (cx_store ts) (definition_key ''t'' 1) = Some (Doc (encode_definition cx_definition))"
    by (subst cx_other_content) (simp_all add: config_keys, simp add: host_key_def definition_key_def)
  with True show ?thesis
    by (simp add: consul_GetTaskDefinition_def consul_read_doc [OF local_consul_store _ decode_definition_top [OF cx_fits]])
next
  case False
  then have "content lookup ''sked'' (cx_store ts) (definition_key n v) = None"
    by (subst cx_other_content) (simp_all add: config_keys, simp add: host_key_def definition_key_def)
  with False show ?thesis by (simp add: consul_GetTaskDefinition_def consul_read_none [OF local_consul_store])
qed

lemma cx_good:
  assumes "\<forall>t \<in> set ts. storable t"
  shows "consul_good local_consul lookup ''sked'' (cx_store ts)"
proof -
  note st = listed_storable [OF assms]
  have "readable lookup ''sked'' (cx_store ts)"
    using st by (fastforce simp: readable_def cx_task_content storable_def Decode_encode_task dest: map_of_SomeD)
  then show ?thesis
    using st cx_fits by (auto simp: consul_good_def local_consul_store cx_stored [OF assms] cx_definition_read ran_def split: if_splits)
qed

lemma cx_hosts: "ListHosts (consul_api local_consul ''sked'') ''c'' (cx_store ts) = Ok [ex_host ''h'' 1000]"
proof -
  have "ListHosts (consul_api local_consul ''sked'') ''c'' (cx_store ts) = ListHosts (consul_api local_consul ''sked'') ''c'' (cx_store [])"
    unfolding consul_api_def scheduler_api.simps consul_ListHosts_def
    by (intro consul_read_all_cong [OF local_consul_store]) (auto simp: cx_other_content prefix_def task_key_def)
  moreover have "kv_List local_consul (full_key ''sked'' (''hosts/'' @ ''c'')) (cs_consul (cx_store [])) =
      Inr [(full_key ''sked'' (host_key ''c'' ''h''), Doc (encode_host (ex_host ''h'' 1000)))]" (is "_ = Inr [?entry]")
  proof -
    obtain kvs where kvs: "kv_List local_consul (full_key ''sked'' (''hosts/'' @ ''c'')) (cs_consul (cx_store [])) = Inr kvs"
        "distinct (map fst kvs)" "set kvs = {(k, v). lookup (cs_consul (cx_store [])) k = Some v \<and> prefix (full_key ''sked'' (''hosts/'' @ ''c'')) k}"
      by (rule kv_store_list [OF local_consul_store])
    have "set kvs = {?entry}"
      unfolding kvs(3) by (auto simp: cx_store_def NewConsulApi_def full_key_def host_key_def definition_key_def split: if_splits)
    then have "kvs = [?entry]" using kvs(2) by (intro distinct_single) (simp_all add: distinct_map)
    with kvs(1) show ?thesis by simp
  qed
  moreover have "Decode host_field zero_host (Doc (encode_host (ex_host ''h'' 1000))) = Some (ex_host ''h'' 1000)"
    using decode_host [of "ex_host ''h'' 1000"]
    by (simp add: Decode_def fits_host_def fits_resources_def ex_host_def box_def in_int64_def sorted_map_same)
  ultimately show ?thesis by (simp add: consul_api_def consul_ListHosts_def consul_read_all_def consul_list_def)
qed

lemma cx_sync:
  "syncHosts (consul_api local_consul ''sked'') (cx_store ts) ex_scheduler =
    Returns (None, ex_scheduler\<lparr>ds_hosts := [(''h'', ex_host ''h'' 1000)]\<rparr>)"
  using cx_hosts [of ts]
  by (simp add: syncHosts_def ex_scheduler_def SetCluster_def NewDefaultScheduler_def ex_cluster_def sync_host_def ex_host_def)

lemma cx_definition_get:
  "GetTaskDefinition (consul_api local_consul ''sked'') (dp_TaskName (ex_deployment n)) (dp_TaskVersion (ex_deployment n)) (cx_store ts) =
    Ok cx_definition"
  by (simp add: consul_api_def cx_definition_read ex_deployment_def)

lemma cx_runs:
  assumes "\<forall>t \<in> set ts. storable t"
  shows "\<exists>s' b'. Schedule (consul_api local_consul ''sked'') ex_choices (ex_deployment n) ex_scheduler (cx_store ts) = Returns (None, s', b')"
proof -
  obtain us where "ListTasks (consul_api local_consul ''sked'') (list_query ex_cluster (ex_deployment n)) (cx_store ts) = Ok us"
    using consul_tasks.ListTasks_selects [OF cx_good [OF assms], of "list_query ex_cluster (ex_deployment n)"]
    by (auto simp: list_query_def any_task_def)
  moreover have "ListHosts (consul_api local_consul ''sked'') (cl_Name ex_cluster) (cx_store ts) = Ok [ex_host ''h'' 1000]"
    using cx_hosts by (simp add: ex_cluster_def)
  moreover have "searchable cx_definition s" for s
    by (simp add: searchable_def task_ports_def cx_definition_def cx_container_def ex_definition_def ex_container_def)
  moreover have "fold sync_host [ex_host ''h'' 1000] (ds_hosts ex_scheduler) \<noteq> []"
    by (simp add: sync_host_def ex_host_def ex_scheduler_def SetCluster_def NewDefaultScheduler_def)
  ultimately show ?thesis
    using Schedule_ends [OF ex_premises(2,1), of "consul_api local_consul ''sked''" "cx_store ts" "[ex_host ''h'' 1000]" "ex_deployment n" us ex_choices]
    by (auto simp: cx_definition_get found_def)
qed

lemma small_ex_deployment: "in_int64 (dp_Desired (ex_deployment 2))"
  by (simp add: ex_deployment_def in_int64_def)

section \<open>Calls of \<open>Schedule\<close>\<close>



text \<open>
  C11. Over Consul too no host is promised more than it offered, while no host is lost and no task was
  rejected the minimum of the deployment stays scheduled, and the desired number is reached if one host
  has room for all of it.
\<close>

theorem consul_schedule_numbers:
  assumes "Schedule (consul_api cl pre) ch d s b = Returns (None, s', b')"
    and "consul_good cl view pre b" and "in_int64 (dp_Desired d)"
    and "hosts_keyed s" and "ds_cluster s = Some cs" and "cl_Name cs \<noteq> ''''" and "dp_Name d \<noteq> ''''"
    and "syncHosts (consul_api cl pre) b s = Returns (None, s1)"
    and "GetTaskDefinition (consul_api cl pre) (dp_TaskName d) (dp_TaskVersion d) b = Ok td"
    and "(figure, need) \<in> {(rs_Memory, cn_Memory), (rs_CpuUnits, cn_CpuUnits), (rs_DiskSpace, cn_DiskUse)}"
    and "0 \<le> need (Counts td)"
    and "\<forall>h \<in> ran (lookup (ds_hosts s1)). 0 \<le> figure (ho_CalculatedResources h) \<and> in_int64 (figure (ho_CalculatedResources h))"
    and "0 \<le> dp_Min d" and "dp_Min d \<le> dp_Desired d"
  shows "(\<forall>n h'. lookup (ds_hosts s') n = Some h' \<longrightarrow>
      (\<exists>h. lookup (ds_hosts s1) n = Some h \<and> 0 \<le> figure (ho_CalculatedResources h') \<and>
        figure (ho_CalculatedResources h') +
          int (card (new_on cs d (stored_task view pre b) (stored_task view pre b') n)) * need (Counts td)
        \<le> figure (ho_CalculatedResources h))) \<and>
    ((\<forall>t \<in> ran (issued cs d (stored_task view pre b)). in_place s1 t) \<longrightarrow>
      min (int (card (dom (issued cs d (stored_task view pre b))))) (dp_Min d) \<le> int (card (dom (issued cs d (stored_task view pre b'))))) \<and>
    (roomy td (dp_Desired d) s1 \<and> modest td \<and> td_Version td = dp_TaskVersion d \<longrightarrow>
      dp_Desired d \<le> int (card (dom (issued cs d (stored_task view pre b')))))"
proof (intro conjI)
  have named: "named cs d" and small: "small_deployment d" using assms by (simp_all add: named_def small_deployment_def)
  note call = assms(1,2,4,5) named small
  have "charged (\<lambda>h. figure (ho_CalculatedResources h)) (\<lambda>td. need (Counts td))"
    using assms(10) charged_resources [unfolded comp_def] by auto
  then have "covers (\<lambda>h. figure (ho_CalculatedResources h)) (need (Counts td)) (ds_hosts s1) (ds_hosts s')
      (new_on cs d (stored_task view pre b) (stored_task view pre b')) \<and> in_stock (\<lambda>h. figure (ho_CalculatedResources h)) (ds_hosts s')"
    by (rule consul_tasks.Schedule_covers [OF call assms(9,8)]) (use assms(11,12) in \<open>simp_all add: in_stock_def\<close>)
  then show "\<forall>n h'. lookup (ds_hosts s') n = Some h' \<longrightarrow>
      (\<exists>h. lookup (ds_hosts s1) n = Some h \<and> 0 \<le> figure (ho_CalculatedResources h') \<and>
        figure (ho_CalculatedResources h') +
          int (card (new_on cs d (stored_task view pre b) (stored_task view pre b') n)) * need (Counts td)
        \<le> figure (ho_CalculatedResources h))"
    by (auto simp: covers_def in_stock_def ran_def)
  have "in_int64 (dp_Desired d - 1)" using assms(3,13,14) by (simp add: in_int64_def)
  then show "(\<forall>t \<in> ran (issued cs d (stored_task view pre b)). in_place s1 t) \<longrightarrow>
      min (int (card (dom (issued cs d (stored_task view pre b))))) (dp_Min d) \<le> int (card (dom (issued cs d (stored_task view pre b'))))"
    using consul_tasks.Schedule_minimum [OF call assms(8)] assms(14) by blast
  show "roomy td (dp_Desired d) s1 \<and> modest td \<and> td_Version td = dp_TaskVersion d \<longrightarrow>
      dp_Desired d \<le> int (card (dom (issued cs d (stored_task view pre b'))))"
    using consul_tasks.Schedule_reaches_desired [OF call assms(8,9)] assms(13,14) by fastforce
qed

theorem consul_schedule_numbers_witness:
  "\<exists>s' b'. Schedule (consul_api local_consul ''sked'') ex_choices (ex_deployment 2) ex_scheduler (cx_store []) = Returns (None, s', b') \<and>
    2 \<le> card (dom (issued ex_cluster (ex_deployment 2) (stored_task lookup ''sked'' b')))"
proof -
  have st: "\<forall>t \<in> set []. storable t" by simp
  from cx_runs [OF st] obtain s' b' where
    run: "Schedule (consul_api local_consul ''sked'') ex_choices (ex_deployment 2) ex_scheduler (cx_store []) = Returns (None, s', b')"
    by blast
  have "roomy cx_definition 2 (ex_scheduler\<lparr>ds_hosts := [(''h'', ex_host ''h'' 1000)]\<rparr>)" "modest cx_definition"
    by (simp_all add: roomy_def room_for_def modest_def cx_definition_def cx_container_def ex_eval)
  moreover have "0 \<le> cn_Memory (Counts cx_definition)" "td_Version cx_definition = 1"
    by (simp_all add: cx_definition_def cx_container_def ex_eval)
  moreover have "\<forall>h \<in> ran (lookup (ds_hosts (ex_scheduler\<lparr>ds_hosts := [(''h'', ex_host ''h'' 1000)]\<rparr>))).
      0 \<le> rs_Memory (ho_CalculatedResources h) \<and> in_int64 (rs_Memory (ho_CalculatedResources h))"
    by (simp add: ex_host_def box_def in_int64_def)
  ultimately have "2 \<le> int (card (dom (issued ex_cluster (ex_deployment 2) (stored_task lookup ''sked'' b'))))"
    using consul_schedule_numbers [OF run cx_good [OF st] small_ex_deployment ex_premises ex_names(1,2) cx_sync cx_definition_get,
        of rs_Memory cn_Memory] by (simp add: ex_names)
  with run show ?thesis by auto
qed

section \<open>Garbage collection\<close>

text \<open>
  C21. A garbage collection over Consul takes off exactly the tasks of the cluster whose deployment is no
  longer listed, and every other stored task stays as it is.
\<close>

theorem consul_garbage_collection:
  assumes "consul_good cl view pre b" and "mc_Cluster (ms_Config s) \<noteq> ''''"
    and "GetCluster (consul_api cl pre) (mc_Cluster (ms_Config s)) b = Ok cs"
  shows "\<exists>b' n. runGarbageCollect (consul_api cl pre) s b = Returns (None, b', n) \<and> consul_good cl view pre b' \<and>
    (\<forall>k. stored_task view pre b' k = map_option
      (\<lambda>t. if tk_Cluster t = mc_Cluster (ms_Config s) \<and> tk_Deployment t \<notin> set (cl_Deployments cs)
        then t\<lparr>tk_Scheduled := False\<rparr> else t) (stored_task view pre b k))"
  using consul_tasks.garbage_collected [OF assms] by (auto simp: gc_view_def fun_eq_iff)

theorem consul_garbage_collection_witness:
  "\<exists>b' n. runGarbageCollect (consul_api local_consul ''sked'')
      (NewMaster \<lparr>mc_Runners = 1, mc_SyncInterval = 0, mc_Cluster = ''c''\<rparr> :: unit master)
      (cx_store [(cx_task 0)\<lparr>tk_Deployment := ''gone''\<rparr>, cx_task 1]) = Returns (None, b', n) \<and>
    map_option tk_Scheduled (stored_task lookup ''sked'' b' ''c-gone-1-0'') = Some False \<and>
    stored_task lookup ''sked'' b' ''c-d-1-1'' = Some (cx_task 1)"
proof -
  let ?ts = "[(cx_task 0)\<lparr>tk_Deployment := ''gone''\<rparr>, cx_task 1]"
  let ?m = "NewMaster \<lparr>mc_Runners = 1, mc_SyncInterval = 0, mc_Cluster = ''c''\<rparr> :: unit master"
  have st: "\<forall>t \<in> set ?ts. storable t"
    using cx_task_storable [of 0] cx_task_storable [of 1] by (simp add: storable_iff fits_task_def in_int64_def)
  have c: "mc_Cluster (ms_Config ?m) = ''c''" by (simp add: NewMaster_def)
  have "content lookup ''sked'' (cx_store ?ts) (''config/clusters/c'') = Some (Doc (encode_cluster ex_cluster))"
    by (subst cx_other_content) (simp_all add: task_key_def host_key_def definition_key_def)
  then have cs: "GetCluster (consul_api local_consul ''sked'') (mc_Cluster (ms_Config ?m)) (cx_store ?ts) = Ok ex_cluster"
    unfolding c using consul_read_doc [OF local_consul_store _ decode_cluster]
    by (simp add: consul_api_def consul_GetCluster_def)
  have named: "mc_Cluster (ms_Config ?m) \<noteq> ''''" by (simp add: c)
  have ids: "task_ID ((cx_task 0)\<lparr>tk_Deployment := ''gone''\<rparr>) = ''c-gone-1-0''" "task_ID (cx_task 1) = ''c-d-1-1''"
    by (simp_all add: ex_ids cx_task_def cx_definition_def ex_definition_def ex_cluster_def ex_deployment_def)
  have fields: "tk_Cluster (cx_task i) = ''c''" "tk_Deployment (cx_task i) = ''d''" for i
    by (simp_all add: cx_task_def ex_task_def NewTask_def ex_cluster_def ex_deployment_def)
  from consul_garbage_collection [OF cx_good [OF st] named cs] show ?thesis
    unfolding cx_stored [OF st] by (fastforce simp: ids fields c ex_cluster_def)
qed

section \<open>A request of the master\<close>

text \<open>The lock objects of the library write nothing below the prefix of the application.\<close>

definition quiet_locks :: "('c, 'k) consul_lock_client \<Rightarrow> ('c \<Rightarrow> string \<Rightarrow> kv_value option) \<Rightarrow> string \<Rightarrow> bool" where
  "quiet_locks lk view pre \<longleftrightarrow>
     (\<forall>l c key. view (snd (fst (lk_Lock lk l c))) (full_key pre key) = view c (full_key pre key) \<and>
        view (snd (fst (lk_Unlock lk l c))) (full_key pre key) = view c (full_key pre key))"

lemma consul_good_cong:
  assumes "content view pre s' = content view pre s"
  shows "stored_task view pre s' = stored_task view pre s" and "consul_good cl view pre s' = consul_good cl view pre s"
proof -
  show st: "stored_task view pre s' = stored_task view pre s" using assms by (intro tasks_frame) simp
  have "consul_GetTaskDefinition cl pre n v s' = consul_GetTaskDefinition cl pre n v s" if "kv_store cl view" for n v
    unfolding consul_GetTaskDefinition_def using assms by (intro consul_read_cong [OF that]) simp
  moreover have "readable view pre s' = readable view pre s" using assms by (intro tasks_frame) simp
  ultimately show "consul_good cl view pre s' = consul_good cl view pre s" by (auto simp: consul_good_def st)
qed

lemma consul_Lock_content:
  assumes "quiet_locks lk view pre" and "SchedulerLocks_Lock (consul_locks lk) name (ls, b) = ((ls', b'), r)"
  shows "content view pre b' = content view pre b"
  using assms
  by (auto simp: SchedulerLocks_Lock_def lock_stored_def consul_locks_def consul_Lock_def consul_LockIt_def content_def quiet_locks_def
      fun_eq_iff split: option.splits sum.splits prod.splits) (metis fst_conv snd_conv)+

lemma consul_Unlock_content:
  assumes "quiet_locks lk view pre" and "SchedulerLocks_Unlock (consul_locks lk) name (ls, b) = (ls', b')"
  shows "content view pre b' = content view pre b"
  using assms
  by (auto simp: SchedulerLocks_Unlock_def consul_locks_def consul_UnlockIt_def content_def quiet_locks_def
      fun_eq_iff split: option.splits prod.splits) (metis fst_conv snd_conv)+

text \<open>What a request may have done, from one state of Consul to another.\<close>

definition request_done ::
  "('c \<Rightarrow> string \<Rightarrow> kv_value option) \<Rightarrow> string \<Rightarrow> cluster \<Rightarrow> deployment \<Rightarrow> default_scheduler \<Rightarrow> 'c consul \<Rightarrow> 'c consul \<Rightarrow> bool" where
  "request_done view pre cs d sked b b' \<longleftrightarrow>
     only_own view pre cs d b b' \<and> (\<forall>t \<in> ran (issued cs d (stored_task view pre b')). in_place sked t)"

lemma request_done_cong:
  assumes "content view pre c = content view pre b" and "content view pre c' = content view pre b'"
  shows "request_done view pre cs d sked c c' = request_done view pre cs d sked b b'"
  using assms(1) consul_good_cong(1) [OF assms(2)] assms(2) by (simp add: request_done_def only_own_def)

lemma consul_schedule_locked:
  assumes run: "schedule_locked (consul_api cl pre) ch c n sk b = Returns (sk', b')" and good: "consul_good cl view pre b"
    and ok: "schedulers_ok sk"
    and names: "\<And>cs. GetCluster (consul_api cl pre) c b = Ok cs \<Longrightarrow> cl_Name cs \<noteq> ''''"
      "\<And>d. GetDeployment (consul_api cl pre) n b = Ok d \<Longrightarrow> dp_Name d \<noteq> ''''"
  shows "b' = b \<or> (consul_good cl view pre b' \<and>
    (\<exists>cs d m sked. GetCluster (consul_api cl pre) c b = Ok cs \<and> GetDeployment (consul_api cl pre) n b = Ok d \<and>
      Schedulers_Get (dp_Scheduler d) sk' = Some (m, sked) \<and> request_done view pre cs d sked b b'))"
proof (cases "b' = b")
  case False
  then obtain cs d m sked err sked' where cs: "GetCluster (consul_api cl pre) c b = Ok cs"
    and d: "GetDeployment (consul_api cl pre) n b = Ok d" and get: "Schedulers_Get (dp_Scheduler d) sk = Some (m, sked)"
    and sched: "Schedule (consul_api cl pre) ch d (SetCluster cs sked) b = Returns (err, sked', b')"
    and sk': "sk' = put_object m sked' sk"
    using run by (auto simp: schedule_locked_def bind_outcome_Returns_iff split: reply.splits option.splits)
  have "err = None" using False sched by (cases err) (auto dest: Schedule_error_frame)
  with sched have sched: "Schedule (consul_api cl pre) ch d (SetCluster cs sked) b = Returns (None, sked', b')" by simp
  have keyed: "hosts_keyed (SetCluster cs sked)" using Schedulers_Get_keyed [OF ok get] by simp
  have cl: "ds_cluster (SetCluster cs sked) = Some cs" by (simp add: SetCluster_def)
  have named: "named cs d" using names cs d by (simp add: named_def)
  note call = sched good keyed cl named consul_tasks.deployment_sane [OF good d]
  have "\<forall>t \<in> ran (issued cs d (stored_task view pre b')). in_place sked' t"
    using consul_tasks.Schedule_in_place [OF call] by (auto simp: ran_def)
  moreover have "Schedulers_Get (dp_Scheduler d) sk' = Some (m, sked')"
    using get by (auto simp: sk' Schedulers_Get_def put_object_def split: option.splits)
  ultimately show ?thesis
    using cs d consul_Schedule_writes [OF call] consul_tasks.Schedule_config [OF call] by (auto simp: request_done_def)
qed simp

lemma consul_failed_lock:
  assumes "SchedulerLocks_Lock (consul_locks lk) name (ls, b) = ((ls', b'), Fail e p)"
    and "holds (consul_locks lk) name (ls', b')"
  shows "holds (consul_locks lk) name (ls, b)"
  using assms
  by (auto simp: SchedulerLocks_Lock_def lock_stored_def consul_locks_def consul_Lock_def consul_LockIt_def holds_def consul_IsHeld_def
      split: option.splits sum.splits prod.splits if_splits)

lemma consul_request_step:
  assumes "Master_schedule (consul_api cl pre) (consul_locks lk) ch c n (s, b) = Returns (s', b')"
    and "consul_good cl view pre b" and "quiet_locks lk view pre" and "schedulers_ok (ms_schedulers s)"
    and "\<forall>cs. GetCluster (consul_api cl pre) c b = Ok cs \<longrightarrow> cl_Name cs \<noteq> ''''"
    and "\<forall>d. GetDeployment (consul_api cl pre) n b = Ok d \<longrightarrow> dp_Name d \<noteq> ''''"
  shows "consul_good cl view pre b' \<and> schedulers_ok (ms_schedulers s') \<and>
    (holds (consul_locks lk) (c @ '':'' @ n) (ms_locks s', b') \<longrightarrow> holds (consul_locks lk) (c @ '':'' @ n) (ms_locks s, b)) \<and>
    (content view pre b' = content view pre b \<or>
     (\<exists>cs d m sked. GetCluster (consul_api cl pre) c b = Ok cs \<and> GetDeployment (consul_api cl pre) n b = Ok d \<and>
       Schedulers_Get (dp_Scheduler d) (ms_schedulers s') = Some (m, sked) \<and> request_done view pre cs d sked b b'))"
proof -
  let ?name = "c @ '':'' @ n" and ?la = "consul_locks lk"
  obtain ls b1 r where lock: "SchedulerLocks_Lock ?la ?name (ms_locks s, b) = ((ls, b1), r)" by (metis prod.exhaust)
  have b1: "content view pre b1 = content view pre b" by (rule consul_Lock_content [OF assms(3) lock])
  then have good1: "consul_good cl view pre b1" using consul_good_cong(2) [OF b1] assms(2) by simp
  note store = consul_goodD(1) [OF assms(2)]
  have same: "GetCluster (consul_api cl pre) c b1 = GetCluster (consul_api cl pre) c b"
    "GetDeployment (consul_api cl pre) n b1 = GetDeployment (consul_api cl pre) n b"
    unfolding consul_api_def scheduler_api.simps consul_GetCluster_def consul_GetDeployment_def
    using b1 by (auto intro!: consul_read_cong [OF store])
  show ?thesis
  proof (cases r)
    case (Ok l)
    obtain sk b2 ls' where body: "(if IsHeld ?la l b1 then schedule_locked (consul_api cl pre) ch c n (ms_schedulers s) b1
        else Returns (ms_schedulers s, b1)) = Returns (sk, b2)"
      and un: "SchedulerLocks_Unlock ?la ?name (ls, b2) = (ls', b')" and s': "s' = s\<lparr>ms_locks := ls', ms_schedulers := sk\<rparr>"
      using assms(1) lock [unfolded Ok] by (rule Master_schedule_locked)
    have b': "content view pre b' = content view pre b2" by (rule consul_Unlock_content [OF assms(3) un])
    have ok: "schedulers_ok sk" using body assms(4) by (auto intro: schedule_locked_ok split: if_splits)
    have free: "\<not> holds ?la ?name (ms_locks s', b')"
      using consul_lock_service.Unlock_released [of lk ?name ls b2] un by (simp add: s')
    have "b2 = b1 \<or> (consul_good cl view pre b2 \<and>
        (\<exists>cs d m sked. GetCluster (consul_api cl pre) c b1 = Ok cs \<and> GetDeployment (consul_api cl pre) n b1 = Ok d \<and>
          Schedulers_Get (dp_Scheduler d) sk = Some (m, sked) \<and> request_done view pre cs d sked b1 b2))"
      using body consul_schedule_locked [OF _ good1 assms(4), of ch c n sk b2] assms(5,6) same by (auto split: if_splits)
    then show ?thesis
    proof
      assume "b2 = b1"
      with b' b1 free ok good1 consul_good_cong(2) [OF b'] show ?thesis by (simp add: s')
    next
      assume "consul_good cl view pre b2 \<and>
        (\<exists>cs d m sked. GetCluster (consul_api cl pre) c b1 = Ok cs \<and> GetDeployment (consul_api cl pre) n b1 = Ok d \<and>
          Schedulers_Get (dp_Scheduler d) sk = Some (m, sked) \<and> request_done view pre cs d sked b1 b2)"
      with free ok consul_good_cong(2) [OF b'] request_done_cong [OF b1 [symmetric] b'] show ?thesis
        by (auto simp: s' same)
    qed
  next
    case (Fail e p)
    then have "s' = s\<lparr>ms_locks := ls\<rparr>" "b' = b1" using assms(1) lock by (auto simp: Master_schedule_def Let_def)
    then show ?thesis using good1 b1 assms(4) lock Fail consul_failed_lock [of lk ?name "ms_locks s" b ls b1 e p] by simp
  next
    case (Stops how)
    then show ?thesis using assms(1) lock by (auto simp: Master_schedule_def Let_def stopped_def split: stop.splits)
  qed
qed


lemma consul_config_cong:
  assumes "kv_store cl view" and "\<forall>key. content view pre s' key \<noteq> content view pre s key \<longrightarrow> (\<exists>k. key = task_key k)"
  shows "GetCluster (consul_api cl pre) n s' = GetCluster (consul_api cl pre) n s"
    and "GetDeployment (consul_api cl pre) n s' = GetDeployment (consul_api cl pre) n s"
proof -
  have other: "''config/clusters/'' @ n \<noteq> task_key k" "''config/deployments/'' @ n \<noteq> task_key k" for k
    by (simp_all add: task_key_def)
  have "content view pre s' (''config/clusters/'' @ n) = content view pre s (''config/clusters/'' @ n)"
    "content view pre s' (''config/deployments/'' @ n) = content view pre s (''config/deployments/'' @ n)"
    using assms(2) other by blast+
  then show "GetCluster (consul_api cl pre) n s' = GetCluster (consul_api cl pre) n s"
    and "GetDeployment (consul_api cl pre) n s' = GetDeployment (consul_api cl pre) n s"
    unfolding consul_api_def scheduler_api.simps consul_GetCluster_def consul_GetDeployment_def
    by (auto intro!: consul_read_cong [OF assms(1)])
qed

text \<open>A task that one of the requests asked for, by the configuration that is stored.\<close>

definition asked_for :: "'c consul_client \<Rightarrow> string \<Rightarrow> scheduleReq list \<Rightarrow> 'c consul \<Rightarrow> task \<Rightarrow> bool" where
  "asked_for cl pre rs b t \<longleftrightarrow> (\<exists>r \<in> set rs. \<exists>cs d. GetCluster (consul_api cl pre) (rq_cluster r) b = Ok cs \<and>
     GetDeployment (consul_api cl pre) (rq_service r) b = Ok d \<and> tk_Cluster t = cl_Name cs \<and> tk_Deployment t = dp_Name d)"

text \<open>
  C18. However many requests a master runs over Consul, whoever holds the locks, every document they write
  is that of a task of a deployment that was asked for, filed under its identifier, and reads back as a
  task with all its numbers in their widths; the configuration and the hosts stay as they were.
\<close>

theorem consul_requests_typed:
  assumes "run_requests (consul_api cl pre) (consul_locks lk) chs rs (s, b) = Returns (s', b')"
    and "consul_good cl view pre b" and "quiet_locks lk view pre" and "schedulers_ok (ms_schedulers s)"
    and "\<forall>r \<in> set rs. (\<forall>cs. GetCluster (consul_api cl pre) (rq_cluster r) b = Ok cs \<longrightarrow> cl_Name cs \<noteq> '''') \<and>
      (\<forall>d. GetDeployment (consul_api cl pre) (rq_service r) b = Ok d \<longrightarrow> dp_Name d \<noteq> '''')"
  shows "consul_good cl view pre b' \<and> schedulers_ok (ms_schedulers s') \<and>
    (\<forall>key. content view pre b' key \<noteq> content view pre b key \<longrightarrow>
      (\<exists>t. key = task_key (task_ID t) \<and> stored_task view pre b' (task_ID t) = Some t \<and> fits_task t \<and> asked_for cl pre rs b t))"
  using assms
proof (induction rs arbitrary: s b)
  case (Cons r rs)
  let ?api = "consul_api cl pre" and ?la = "consul_locks lk"
  obtain s1 b1 where first: "Master_schedule ?api ?la (chs (length rs)) (rq_cluster r) (rq_service r) (s, b) = Returns (s1, b1)"
    and rest: "run_requests ?api ?la chs rs (s1, b1) = Returns (s', b')"
    using Cons.prems(1) by (auto simp: bind_outcome_Returns_iff)
  note store = consul_goodD(1) [OF Cons.prems(2)]
  have step: "consul_good cl view pre b1" "schedulers_ok (ms_schedulers s1)"
    and request: "content view pre b1 = content view pre b \<or>
      (\<exists>cs d m sked. GetCluster ?api (rq_cluster r) b = Ok cs \<and> GetDeployment ?api (rq_service r) b = Ok d \<and>
       Schedulers_Get (dp_Scheduler d) (ms_schedulers s1) = Some (m, sked) \<and> request_done view pre cs d sked b b1)"
    using consul_request_step [OF first Cons.prems(2-4)] Cons.prems(5) by simp_all
  have wrote: "\<exists>k t. key = task_key k \<and> stored_task view pre b1 k = Some t \<and> asked_for cl pre [r] b t"
    if changed: "content view pre b1 key \<noteq> content view pre b key" for key
  proof -
    obtain cs d where "GetCluster ?api (rq_cluster r) b = Ok cs" "GetDeployment ?api (rq_service r) b = Ok d" "only_own view pre cs d b b1"
      using request changed unfolding request_done_def by auto
    moreover from this(3) changed obtain k t where "key = task_key k" "stored_task view pre b1 k = Some t" "own cs d t"
      unfolding only_own_def by blast
    ultimately show ?thesis by (auto simp: asked_for_def own_def)
  qed
  have config: "GetCluster ?api n b1 = GetCluster ?api n b" "GetDeployment ?api n b1 = GetDeployment ?api n b" for n
    by (rule consul_config_cong [OF store]; use wrote in blast)+
  have asked: "asked_for cl pre rs b1 t \<Longrightarrow> asked_for cl pre (r # rs) b t"
    "asked_for cl pre [r] b t \<Longrightarrow> asked_for cl pre (r # rs) b t" for t
    by (auto simp: asked_for_def config)
  have later: "consul_good cl view pre b'" "schedulers_ok (ms_schedulers s')"
    "\<forall>key. content view pre b' key \<noteq> content view pre b1 key \<longrightarrow>
      (\<exists>t. key = task_key (task_ID t) \<and> stored_task view pre b' (task_ID t) = Some t \<and> fits_task t \<and> asked_for cl pre rs b1 t)"
    using Cons.IH [OF rest step(1) Cons.prems(3) step(2)] Cons.prems(5) by (simp_all add: config)
  have "\<exists>t. key = task_key (task_ID t) \<and> stored_task view pre b' (task_ID t) = Some t \<and> fits_task t \<and> asked_for cl pre (r # rs) b t"
    if changed: "content view pre b' key \<noteq> content view pre b key" for key
  proof (cases "content view pre b' key = content view pre b1 key")
    case True
    then have "content view pre b1 key \<noteq> content view pre b key" using changed by simp
    from wrote [OF this] obtain k t where key: "key = task_key k" and t: "stored_task view pre b1 k = Some t" "asked_for cl pre [r] b t"
      by blast
    have "task_ID t = k" "storable t"
      using consul_goodD(2,3) [OF step(1)] t(1) stored_task_key by blast+
    moreover have "stored_task view pre b' k = Some t" using True t(1) by (simp add: key stored_task_def task_key_def)
    ultimately show ?thesis using key asked(2) [OF t(2)] by (auto simp: storable_def)
  qed (use later(3) asked(1) in blast)
  with later(1,2) show ?case by blast
qed simp

text \<open>Locks that are always free.\<close>

definition free_locks :: "(store, unit) consul_lock_client" where
  "free_locks = \<lparr>lk_Opts = (\<lambda>key once c. Inr ()), lk_Lock = (\<lambda>l c. ((l, c), True, None)), lk_Unlock = (\<lambda>l c. ((l, c), None))\<rparr>"

definition cx_master :: "unit consul_lock master" where
  "cx_master = Master_Run_setup 0 (NewMaster \<lparr>mc_Runners = 1, mc_SyncInterval = 0, mc_Cluster = ''c''\<rparr>)"

lemma cx_config:
  "GetCluster (consul_api local_consul ''sked'') ''c'' (cx_store ts) = Ok ex_cluster"
  "GetDeployment (consul_api local_consul ''sked'') ''d'' (cx_store ts) = Ok (ex_deployment 2)"
proof -
  have "content lookup ''sked'' (cx_store ts) (''config/clusters/'' @ ''c'') = Some (Doc (encode_cluster ex_cluster))"
    "content lookup ''sked'' (cx_store ts) (''config/deployments/'' @ ''d'') = Some (Doc (encode_deployment (ex_deployment 2)))"
    by (subst cx_other_content; simp add: task_key_def host_key_def definition_key_def)+
  moreover have "fits_deployment (ex_deployment 2)" by (simp add: fits_deployment_def fits_uint_def in_int64_def ex_deployment_def)
  ultimately show "GetCluster (consul_api local_consul ''sked'') ''c'' (cx_store ts) = Ok ex_cluster"
    "GetDeployment (consul_api local_consul ''sked'') ''d'' (cx_store ts) = Ok (ex_deployment 2)"
    unfolding consul_api_def scheduler_api.simps consul_GetCluster_def consul_GetDeployment_def
    by (auto intro!: consul_read_doc [OF local_consul_store] decode_cluster decode_deployment)
qed

lemma host_not_task: "host_key c h \<noteq> task_key k"
  by (simp add: host_key_def task_key_def)

lemma cx_request:
  "\<exists>s' b'. Master_schedule (consul_api local_consul ''sked'') (consul_locks free_locks) ex_choices ''c'' ''d'' (cx_master, cx_store []) =
      Returns (s', b')"
proof -
  have st: "\<forall>t \<in> set []. storable t" by simp
  from cx_runs [OF st] obtain s1 b1 where
    run: "Schedule (consul_api local_consul ''sked'') ex_choices (ex_deployment 2) ex_scheduler (cx_store []) = Returns (None, s1, b1)"
    by blast
  show ?thesis
    using run [unfolded ex_scheduler_def]
    by (cases b1) (auto simp: Master_schedule_def Let_def SchedulerLocks_Lock_def lock_stored_def SchedulerLocks_Unlock_def consul_locks_def
        consul_Lock_def consul_LockIt_def consul_UnlockIt_def consul_IsHeld_def free_locks_def schedule_locked_def cx_config Schedulers_Get_def
        cx_master_def Master_Run_setup_def NewMaster_def Schedulers_Use_def put_object_def NewSchedulerMap_def NewSchedulerLocks_def
        ex_deployment_def split: prod.splits)
qed


theorem consul_requests_typed_witness:
  "\<exists>s' b'. run_requests (consul_api local_consul ''sked'') (consul_locks free_locks) (\<lambda>_. ex_choices)
      [\<lparr>rq_cluster = ''c'', rq_service = ''d''\<rparr>] (cx_master, cx_store []) = Returns (s', b') \<and>
    content lookup ''sked'' b' (host_key ''c'' ''h'') = content lookup ''sked'' (cx_store []) (host_key ''c'' ''h'')"
proof -
  have st: "\<forall>t \<in> set []. storable t" by simp
  obtain s' b' where "Master_schedule (consul_api local_consul ''sked'') (consul_locks free_locks) ex_choices ''c'' ''d'' (cx_master, cx_store []) =
      Returns (s', b')"
    using cx_request by blast
  then have run: "run_requests (consul_api local_consul ''sked'') (consul_locks free_locks) (\<lambda>_. ex_choices)
      [\<lparr>rq_cluster = ''c'', rq_service = ''d''\<rparr>] (cx_master, cx_store []) = Returns (s', b')" by simp
  have quiet: "quiet_locks free_locks lookup ''sked''" by (simp add: quiet_locks_def free_locks_def)
  have ok: "schedulers_ok (ms_schedulers cx_master)" by (simp add: cx_master_def schedulers_ok_setup)
  have "\<forall>r \<in> set [\<lparr>rq_cluster = ''c'', rq_service = ''d''\<rparr>].
      (\<forall>cs. GetCluster (consul_api local_consul ''sked'') (rq_cluster r) (cx_store []) = Ok cs \<longrightarrow> cl_Name cs \<noteq> '''') \<and>
      (\<forall>d. GetDeployment (consul_api local_consul ''sked'') (rq_service r) (cx_store []) = Ok d \<longrightarrow> dp_Name d \<noteq> '''')"
    by (simp add: cx_config ex_cluster_def ex_deployment_def)
  from consul_requests_typed [OF run cx_good [OF st] quiet ok this]
  have "content lookup ''sked'' b' (host_key ''c'' ''h'') = content lookup ''sked'' (cx_store []) (host_key ''c'' ''h'')"
    by (metis host_not_task)
  with run show ?thesis by blast
qed

end
