(* ===== verification/Consul_Notices.thy ===== *)
theory Consul_Notices
  imports Consul_Properties Agent Health Master
begin

text \<open>
  Who is told of what: the writes of the Consul backend, the paths its monitors watch, the events they make
  of the entries there, and the subscriptions of the master, the agents and the health agents.
\<close>

section \<open>What is written\<close>

text \<open>Every command of the interface that writes to the store.\<close>

definition consul_writes :: "'c consul_client \<Rightarrow> string \<Rightarrow> 'c consul command set" where
  "consul_writes cl pre =
     range (PutCluster (consul_api cl pre)) \<union> range (DelCluster (consul_api cl pre)) \<union>
     range (PutDeployment (consul_api cl pre)) \<union> range (DelDeployment (consul_api cl pre)) \<union>
     range (PutService (consul_api cl pre)) \<union> range (DelService (consul_api cl pre)) \<union>
     range (PutTaskDefinition (consul_api cl pre)) \<union>
     range (PutHost (consul_api cl pre)) \<union> {DelHost (consul_api cl pre) c n | c n. True} \<union>
     range (PutTask (consul_api cl pre)) \<union> range (DelTask (consul_api cl pre)) \<union>
     {PutTaskState (consul_api cl pre) tid st | tid st. True}"

text \<open>The keys below the prefix of the application that the backend uses.\<close>

definition config_keys :: "string set" where
  "config_keys = range (\<lambda>n. ''config/clusters/'' @ n) \<union> range (\<lambda>n. ''config/deployments/'' @ n) \<union>
     range (\<lambda>n. ''config/services/'' @ n) \<union> range (\<lambda>n. ''config/task_definitions/'' @ n)"

definition state_keys :: "string set" where
  "state_keys = range (\<lambda>n. ''state/tasks/'' @ n) \<union> range (\<lambda>n. ''state/health/'' @ n)"

definition host_keys :: "string set" where
  "host_keys = range (\<lambda>n. ''hosts/'' @ n)"

text \<open>The keys in the form the operations write them.\<close>

lemma own_keys:
  "''config/clusters/'' @ n \<in> config_keys" "''config/deployments/'' @ n \<in> config_keys"
  "''config/services/'' @ n \<in> config_keys" "definition_key n v \<in> config_keys"
  "''state/tasks/'' @ n \<in> state_keys" "''state/health/'' @ n \<in> state_keys" "host_key c n \<in> host_keys"
  unfolding config_keys_def state_keys_def host_keys_def definition_key_def host_key_def by blast+

lemma written_keys:
  assumes store: "kv_store cl view" and op: "op \<in> consul_writes cl pre"
    and changed: "content view pre (fst (op s)) key \<noteq> content view pre s key"
  shows "key \<in> config_keys \<union> state_keys \<union> host_keys"
proof -
  have put: "content view pre (fst (consul_put cl pre k v s')) key \<noteq> content view pre s key \<Longrightarrow>
      content view pre s' = content view pre s \<Longrightarrow> key = k" for k v s'
    using content_put [OF store, of pre k v s'] by (auto split: if_splits)
  have del: "content view pre (fst (consul_del cl pre k s')) key \<noteq> content view pre s key \<Longrightarrow>
      content view pre s' = content view pre s \<Longrightarrow> key = k" for k s'
    using content_del [OF store, of pre k s'] by (auto split: if_splits)
  have services: "content view pre (fst (consul_register cl t s)) = content view pre s"
    "content view pre (fst (consul_deRegister cl n s)) = content view pre s" for t n
    using kv_store_laws(7,8) [OF store] by (simp_all add: consul_register_def consul_deRegister_def content_def fun_eq_iff)
  have host: "content view pre (fst (consul_PutHost cl pre h s)) key \<noteq> content view pre s key \<Longrightarrow>
      key = host_key (ho_Cluster h) (ho_Name h)" for h
    using consul_PutHost_content [OF store, of pre h s] by (auto split: if_splits)
  show ?thesis
    using op changed own_keys
    by (auto simp: consul_writes_def consul_api_def consul_PutCluster_def consul_DelCluster_def consul_PutDeployment_def
        consul_DelDeployment_def consul_PutService_def consul_DelService_def consul_PutTaskDefinition_def consul_DelHost_def
        consul_PutTask_def consul_DelTask_def consul_PutTaskState_def services dest!: put del host)
qed

section \<open>Who hears of it\<close>

lemma runes_Cons: "(of_char c :: nat) < 128 \<Longrightarrow> runes (c # s) = (of_char c, 1) # runes s"
  by (simp add: runes_def decode_runes_ascii)

text \<open>The events of the entries, with the prefix an application has when none is given.\<close>

lemma config_event: "\<exists>rest. key_event ''registry'' ''config'' k = ''config::'' @ rest"
  by (rule exI [of _ "replace_first (''registry'' @ ''/'') '''' (replace_first ''config/'' '''' k)"]) (simp add: key_event_def)

lemma config_watched:
  "key \<in> config_keys \<Longrightarrow> \<exists>path. (path, ''config'') \<in> set (consul_monitored ''registry'') \<and> prefix path (full_key ''registry'' key)"
  unfolding config_keys_def by (elim UnE rangeE; simp add: full_key_def consul_monitored_def conj_disj_distribR ex_disj_distrib) 

lemma config_watched_name:
  "key \<in> config_keys \<Longrightarrow> (path, name) \<in> set (consul_monitored ''registry'') \<Longrightarrow> prefix path (full_key ''registry'' key) \<Longrightarrow>
     name = ''config''"
  unfolding config_keys_def by (elim UnE rangeE; auto simp: full_key_def consul_monitored_def)

lemma state_event:
  "key \<in> state_keys \<Longrightarrow> \<exists>rest. key_event ''registry'' ''state'' (full_key ''registry'' key) \<in>
     {''state::state/tasks/'' @ rest, ''state::state/health/'' @ rest}"
  by (auto simp: state_keys_def key_event_def full_key_def)

lemma state_watched:
  "key \<in> state_keys \<Longrightarrow> (path, name) \<in> set (consul_monitored ''registry'') \<Longrightarrow> prefix path (full_key ''registry'' key) \<Longrightarrow>
     name = ''state''"
  by (auto simp: state_keys_def full_key_def consul_monitored_def)

lemma host_unwatched:
  "key \<in> host_keys \<Longrightarrow> \<forall>(path, name) \<in> set (consul_monitored ''registry''). \<not> prefix path (full_key ''registry'' key)"
  by (auto simp: host_keys_def full_key_def consul_monitored_def)

lemma config_heard: "consul_match ''config::*'' (''config::'' @ rest)"
  by (simp add: consul_match_def runes_Cons)

lemma config_not_heard:
  "\<not> consul_match (''state::state/hosts/'' @ host) (''config::'' @ rest)"
  by (simp add: consul_match_def runes_Cons)

lemma state_not_heard:
  "\<not> consul_match (''state::state/hosts/'' @ host) (''state::state/tasks/'' @ rest)"
  "\<not> consul_match (''state::state/hosts/'' @ host) (''state::state/health/'' @ rest)"
  "\<not> consul_match ''config::*'' (''state::state/tasks/'' @ rest)"
  "\<not> consul_match ''config::*'' (''state::state/health/'' @ rest)"
  by (simp_all add: consul_match_def runes_Cons)



lemma star_match:
  assumes "ascii h" and "ascii r" and "CHR ''*'' \<notin> set h"
  shows "consul_match (h @ ''*'') (h @ r)"
proof -
  have "ascii (h @ ''*'')" "ascii (h @ r)" using assms(1,2) by (auto simp: ascii_def)
  from event_match_ascii [OF this] show ?thesis
    using assms(3) by (auto simp: event_match_def consul_match_def takeWhile_append)
qed

text \<open>The agent is told of a check of a task of its host that fails.\<close>

lemma failing_check_announced:
  assumes "hk_Status ch \<in> {''critical'', ''warning''}" and "hk_ServiceID ch \<noteq> ''''" and "hk_Node ch = ag_Host ag"
    and "ascii (ag_Host ag)" and "ascii (hk_ServiceID ch)" and "CHR ''*'' \<notin> set (ag_Host ag)"
  shows "(''agent-health'', evt) \<in> set (agent_subscriptions ag) \<Longrightarrow> consul_match evt (health_event ch)"
proof -
  let ?head = "''health::task:'' @ ag_Host ag @ '':failing:''"
  have "ascii ?head" "CHR ''*'' \<notin> set ?head" using assms(4,6) by (auto simp: ascii_def)
  then have match: "consul_match (?head @ ''*'') (?head @ hk_ServiceID ch)" using star_match assms(5) by blast
  assume "(''agent-health'', evt) \<in> set (agent_subscriptions ag)"
  then have "evt = ?head @ ''*''" by (auto simp: agent_subscriptions_def)
  moreover have "health_event ch = ?head @ hk_ServiceID ch" using assms(1-3) by (auto simp: health_event_def)
  ultimately show ?thesis using match by metis
qed

text \<open>A monitor of the master that ends leaves both its subscriptions behind.\<close>

lemma master_stays_subscribed:
  assumes "lookup (cs_listeners s) ''dispatch'' = None"
  shows "map_option ls_on (lookup (cs_listeners (fold consul_UnSubscribe master_unsubscribed
    (fold (\<lambda>(key, evt). consul_Subscribe key evt 100) master_subscriptions s))) ''dispatch-config'') = Some ''config::*''"
  using assms by (simp add: master_unsubscribed_def master_subscriptions_def consul_Subscribe_def consul_UnSubscribe_def)

end
