(* ===== verification/Processes.thy ===== *)
theory Processes
  imports Master Agent Health Discovery Actions Consul_Events
begin

text \<open>
  The command line (src/cli/app.go, src/cli/processes.go, src/cli/tools.go) and the settings (src/config):
  what a process is made of, in which order it starts, and what an interrupt does to it. The library that
  parses the command line is outside the program; what the code reads from it is a record of look-ups.
  A process is a list of steps over the fields of \<open>App\<close>; goroutines that are started take no part in it,
  but for the routes they register.
\<close>

section \<open>Settings (src/config)\<close>

text \<open>Of the settings of the client library the program sets three; \<open>DefaultConfig\<close> of the library is an argument.\<close>

record consul_config =
  co_Address :: string
  co_Datacenter :: string
  co_Token :: string

record config =
  cg_Addr :: string
  cg_Port :: int
  cg_Advertise :: string
  cg_LogLevel :: string
  cg_Version :: string
  cg_Backend :: string
  cg_ConsulConfig :: consul_config

definition CONSUL :: string where "CONSUL = ''consul''"
definition MEMORY :: string where "MEMORY = ''memory''"
definition VERSION :: string where "VERSION = ''0.2.1''"

definition NewConfig :: "consul_config \<Rightarrow> config" where
  "NewConfig dflt = \<lparr>cg_Addr = ''0.0.0.0'', cg_Port = 8231, cg_Advertise = ''127.0.0.1:8231'', cg_LogLevel = ''info'',
     cg_Version = VERSION, cg_Backend = CONSUL, cg_ConsulConfig = dflt\<rparr>"

section \<open>Flags\<close>

datatype flag_kind = StringFlag string | IntFlag int | BoolFlag | DurationFlag duration

record flag =
  fl_names :: "string list"
  fl_kind :: flag_kind
  fl_env :: string

abbreviation flag :: "string list \<Rightarrow> flag_kind \<Rightarrow> flag" where
  "flag names kind \<equiv> \<lparr>fl_names = names, fl_kind = kind, fl_env = ''''\<rparr>"

abbreviation env_flag :: "string list \<Rightarrow> flag_kind \<Rightarrow> string \<Rightarrow> flag" where
  "env_flag names kind env \<equiv> \<lparr>fl_names = names, fl_kind = kind, fl_env = env\<rparr>"

text \<open>The flags before the command, and those of each command.\<close>

definition app_flags :: "flag list" where
  "app_flags = [
     env_flag [''log-level'', ''l''] (StringFlag ''debug'') ''LOG_LEVEL'',
     env_flag [''backend''] (StringFlag ''consul'') ''BACKEND'',
     env_flag [''consul-api''] (StringFlag '''') ''CONSUL_API'',
     env_flag [''consul-dc''] (StringFlag '''') ''CONSUL_DC'',
     env_flag [''consul-token''] (StringFlag '''') ''CONSUL_TOKEN'',
     env_flag [''bind'', ''b''] (StringFlag ''0.0.0.0'') ''BIND'',
     env_flag [''advertise'', ''a''] (StringFlag ''127.0.0.1:8231'') ''ADVERTISE'',
     flag [''prefix''] (StringFlag ''registry''),
     env_flag [''port'', ''p''] (IntFlag 8231) ''PORT'']"

definition agent_flags :: "flag list" where
  "agent_flags = [flag [''agent-sync-interval''] (DurationFlag (30 * second)), flag [''agent-runners''] (IntFlag 3),
     flag [''health-agent''] BoolFlag, flag [''run-consul''] (StringFlag '''')]"

definition scheduler_flags :: "flag list" where
  "scheduler_flags = [flag [''scheduler-sync-interval''] (DurationFlag (30 * second)), flag [''scheduler-runners''] (IntFlag 0),
     flag [''scheduler-cluster''] (StringFlag ''''), flag [''run-consul''] (StringFlag '''')]"

definition combined_flags :: "flag list" where
  "combined_flags = [flag [''agent-sync-interval''] (DurationFlag (30 * second)), flag [''agent-runners''] (IntFlag 3),
     flag [''scheduler-sync-interval''] (DurationFlag (30 * second)), flag [''scheduler-runners''] (IntFlag 0),
     flag [''scheduler-cluster''] (StringFlag ''''), flag [''agent-check-health''] BoolFlag,
     flag [''run-consul''] (StringFlag ''''), flag [''health-agent''] BoolFlag]"

text \<open>What a command asks of the parsed command line: global flags, its own flags, its arguments.\<close>

record cli_context =
  GlobalString :: "string \<Rightarrow> string"
  GlobalInt :: "string \<Rightarrow> int"
  StringOf :: "string \<Rightarrow> string"
  IntOf :: "string \<Rightarrow> int"
  Int64Of :: "string \<Rightarrow> int64"
  BoolOf :: "string \<Rightarrow> bool"
  DurationOf :: "string \<Rightarrow> duration"
  StringSliceOf :: "string \<Rightarrow> string list"
  ArgsOf :: "string list"

text \<open>
  The documented behaviour of the library: a flag that is not given has the value it was declared with, a
  name that is declared with another type, or not at all, the zero value of the type asked for.
\<close>

definition declared :: "flag list \<Rightarrow> string \<Rightarrow> flag_kind option" where
  "declared flags name = map_option fl_kind (find (\<lambda>f. name \<in> set (fl_names f)) flags)"

definition default_string :: "flag list \<Rightarrow> string \<Rightarrow> string" where
  "default_string flags name = (case declared flags name of Some (StringFlag v) \<Rightarrow> v | _ \<Rightarrow> '''')"

definition default_int :: "flag list \<Rightarrow> string \<Rightarrow> int" where
  "default_int flags name = (case declared flags name of Some (IntFlag v) \<Rightarrow> v | _ \<Rightarrow> 0)"

definition default_duration :: "flag list \<Rightarrow> string \<Rightarrow> duration" where
  "default_duration flags name = (case declared flags name of Some (DurationFlag v) \<Rightarrow> v | _ \<Rightarrow> 0)"

definition reads_flags :: "flag list \<Rightarrow> flag list \<Rightarrow> string set \<Rightarrow> cli_context \<Rightarrow> bool" where
  "reads_flags global flags given c \<longleftrightarrow>
     (\<forall>name. name \<notin> given \<longrightarrow>
        GlobalString c name = default_string global name \<and> GlobalInt c name = default_int global name \<and>
        StringOf c name = default_string flags name \<and> IntOf c name = default_int flags name \<and>
        DurationOf c name = default_duration flags name \<and> \<not> BoolOf c name) \<and>
     (\<forall>name. Int64Of c name = 0 \<and> StringSliceOf c name = [])"

section \<open>The commands of an operator (src/cli/tools.go)\<close>

text \<open>Scaling and draining, which take arguments, are in \<open>Actions\<close>; \<open>read\<close> reads and decodes a file.\<close>

definition apply_flags :: "flag list" where "apply_flags = [flag [''file'', ''f''] (StringFlag ''sked-conf.yml'')]"

definition tasks_flags :: "flag list" where
  "tasks_flags = [flag [''by-host''] (StringFlag ''''), flag [''by-cluster''] (StringFlag ''''), flag [''by-service''] (StringFlag '''')]"

definition hosts_flags :: "flag list" where "hosts_flags = [flag [''cluster''] (StringFlag ''default'')]"

definition ApplyCmd ::
  "'b scheduler_api \<Rightarrow> (string \<Rightarrow> go_error + config_file) \<Rightarrow> cli_context \<Rightarrow> 'b \<Rightarrow> (go_error option \<times> 'b \<times> string list) outcome" where
  "ApplyCmd api read c = ApplyConfig api (read (StringOf c ''file''))"

definition TasksCmd :: "'b scheduler_api \<Rightarrow> cli_context \<Rightarrow> 'b \<Rightarrow> (go_error + string list) outcome" where
  "TasksCmd api c = show_tasks api (StringOf c ''by-host'') (StringOf c ''by-cluster'') (StringOf c ''by-service'')"

definition HostsCmd :: "'b scheduler_api \<Rightarrow> map_order \<Rightarrow> cli_context \<Rightarrow> 'b \<Rightarrow> (go_error + string list) outcome" where
  "HostsCmd api ord c = show_hosts api ord (StringOf c ''cluster'')"

section \<open>Before a command\<close>

text \<open>The backend that is made; an unknown one ends the process.\<close>

datatype backend_choice = ConsulBackend string consul_config | MemoryBackend

datatype level = DebugLevel | InfoLevel | WarnLevel | ErrorLevel

definition log_level :: "string \<Rightarrow> level" where
  "log_level l = (if l = ''debug'' then DebugLevel else if l = ''info'' then InfoLevel else if l = ''warn'' then WarnLevel
     else if l = ''error'' then ErrorLevel else DebugLevel)"

definition given_or :: "string \<Rightarrow> string \<Rightarrow> string" where
  "given_or v old = (if v \<noteq> '''' then v else old)"

definition app_Before :: "cli_context \<Rightarrow> config \<Rightarrow> (config \<times> backend_choice \<times> level) option" where
  "app_Before c conf =
     (let co = cg_ConsulConfig conf;
          conf' = conf\<lparr>cg_Port := GlobalInt c ''port'', cg_Addr := GlobalString c ''bind'',
            cg_Advertise := GlobalString c ''advertise'', cg_LogLevel := GlobalString c ''log-level'',
            cg_Backend := GlobalString c ''backend'',
            cg_ConsulConfig := co\<lparr>co_Address := given_or (GlobalString c ''consul-api'') (co_Address co),
              co_Datacenter := given_or (GlobalString c ''consul-dc'') (co_Datacenter co),
              co_Token := given_or (GlobalString c ''consul-token'') (co_Token co)\<rparr>\<rparr>;
          made = (if cg_Backend conf' = CONSUL then Some (ConsulBackend (GlobalString c ''prefix'') (cg_ConsulConfig conf'))
                  else if cg_Backend conf' = MEMORY then Some MemoryBackend else None)
      in map_option (\<lambda>be. (conf', be, log_level (cg_LogLevel conf'))) made)"

section \<open>The parts of a process\<close>

datatype part = AgentPart | MasterPart | HealthPart | DiscoveryPart

text \<open>What the handler of interrupts does: stop a part, or stop it if there is one.\<close>

datatype exit_step = StopPart part | StopIfThere part

text \<open>\<open>ap_closed\<close> remembers whose channel \<open>quit\<close> was closed, \<open>ap_running\<close> the parts whose \<open>Run\<close> was called.\<close>

record 'l app =
  ap_Config :: config
  ap_Agent :: "agent option"
  ap_Master :: "'l master option"
  ap_Health :: "health_agent option"
  ap_Discovery :: "discovery option"
  ap_atExit :: "exit_step list option"
  ap_routes :: "string list"
  ap_running :: "part list"
  ap_closed :: "part list"
  ap_consul :: "string list"

definition NewApp :: "config \<Rightarrow> 'l app" where
  "NewApp conf = \<lparr>ap_Config = conf, ap_Agent = None, ap_Master = None, ap_Health = None, ap_Discovery = None,
     ap_atExit = None, ap_routes = [], ap_running = [], ap_closed = [], ap_consul = []\<rparr>"

definition RegisterAgent :: "figures \<Rightarrow> cli_context \<Rightarrow> 'l app \<Rightarrow> 'l app" where
  "RegisterAgent f c app = app\<lparr>ap_Agent := Some (NewAgent f \<lparr>
     ac_Runners = IntOf c ''agent-runners'', ac_SyncInterval = DurationOf c ''agent-sync-interval'',
     ac_Resources = Some \<lparr>rs_Memory = Int64Of c ''memory'', rs_CpuUnits = Int64Of c ''cpu-units'',
       rs_DiskSpace = Int64Of c ''disk-space'', rs_MemUsePercent = 0\<rparr>,
     ac_Cluster = '''', ac_Address = '''', ac_Advertise = cg_Advertise (ap_Config app)\<rparr>)\<rparr>"

definition RegisterHealthAgent :: "'l app \<Rightarrow> 'l app" where
  "RegisterHealthAgent app = app\<lparr>ap_Health := Some NewHealthAgent\<rparr>"

definition RegisterMaster :: "cli_context \<Rightarrow> 'l app \<Rightarrow> 'l app" where
  "RegisterMaster c app = app\<lparr>ap_Master := Some (NewMaster \<lparr>mc_Runners = IntOf c ''scheduler-runners'',
     mc_SyncInterval = DurationOf c ''scheduler-sync-interval'', mc_Cluster = StringOf c ''scheduler-cluster''\<rparr>)\<rparr>"

definition RegisterDiscoveryAgent :: "cli_context \<Rightarrow> 'l app \<Rightarrow> 'l app" where
  "RegisterDiscoveryAgent c app = app\<lparr>ap_Discovery := Some (NewDiscovery (StringSliceOf c ''discover-services''))\<rparr>"

section \<open>Routes\<close>

text \<open>The patterns each part registers; \<open>http.HandleFunc\<close> panics on a pattern that is registered already.\<close>

definition agent_routes :: "string list" where "agent_routes = [''/agent/status'', ''/agent/health'']"
definition master_routes :: "string list" where "master_routes = [''/scheduler/health'']"
definition health_routes :: "string list" where "health_routes = [''/scheduler/health'']"
definition discovery_routes :: "string list" where
  "discovery_routes = [''/discovery/status'', ''/discovery/poll'', ''/agent/health'']"
definition serve_routes :: "string list" where "serve_routes = [''/'', ''/stats'']"

definition routes_of :: "part \<Rightarrow> string list" where
  "routes_of p = (case p of AgentPart \<Rightarrow> agent_routes | MasterPart \<Rightarrow> master_routes | HealthPart \<Rightarrow> health_routes
     | DiscoveryPart \<Rightarrow> discovery_routes)"

fun HandleFuncs :: "string list \<Rightarrow> 'l app \<Rightarrow> 'l app outcome" where
  "HandleFuncs [] app = Returns app"
| "HandleFuncs (pat # pats) app =
     (if pat \<in> set (ap_routes app) then Panics else HandleFuncs pats (app\<lparr>ap_routes := ap_routes app @ [pat]\<rparr>))"

section \<open>The steps of a process\<close>

datatype step = StartConsul string | ApiStart | AtExit "exit_step list" | Register part | RegisterRoutes part
  | Serve | Run part | GoRun part

definition there :: "part \<Rightarrow> 'l app \<Rightarrow> bool" where
  "there p app = (case p of AgentPart \<Rightarrow> ap_Agent app \<noteq> None | MasterPart \<Rightarrow> ap_Master app \<noteq> None
     | HealthPart \<Rightarrow> ap_Health app \<noteq> None | DiscoveryPart \<Rightarrow> ap_Discovery app \<noteq> None)"

text \<open>The part that runs itself, or in a goroutine, must be there: \<open>Run\<close> reads its fields at once.\<close>

definition do_step :: "figures \<Rightarrow> cli_context \<Rightarrow> step \<Rightarrow> 'l app \<Rightarrow> 'l app outcome" where
  "do_step f c st app =
     (case st of
        StartConsul flags \<Rightarrow> Returns (app\<lparr>ap_consul := ap_consul app @ [''consul agent '' @ flags]\<rparr>)
      | ApiStart \<Rightarrow> Returns app
      | AtExit h \<Rightarrow> Returns (app\<lparr>ap_atExit := Some h\<rparr>)
      | Register AgentPart \<Rightarrow> Returns (RegisterAgent f c app)
      | Register MasterPart \<Rightarrow> Returns (RegisterMaster c app)
      | Register HealthPart \<Rightarrow> Returns (RegisterHealthAgent app)
      | Register DiscoveryPart \<Rightarrow> Returns (RegisterDiscoveryAgent c app)
      | RegisterRoutes p \<Rightarrow> HandleFuncs (routes_of p) app
      | Serve \<Rightarrow> HandleFuncs serve_routes app
      | Run p \<Rightarrow> if there p app then Returns (app\<lparr>ap_running := ap_running app @ [p]\<rparr>) else Panics
      | GoRun p \<Rightarrow> if there p app then Returns (app\<lparr>ap_running := ap_running app @ [p]\<rparr>) else Panics)"

fun do_steps :: "figures \<Rightarrow> cli_context \<Rightarrow> step list \<Rightarrow> 'l app \<Rightarrow> 'l app outcome" where
  "do_steps f c [] app = Returns app"
| "do_steps f c (st # sts) app = bind_outcome (do_step f c st app) (do_steps f c sts)"

section \<open>The processes (src/cli/processes.go)\<close>

definition run_consul :: "cli_context \<Rightarrow> step list" where
  "run_consul c = (if StringOf c ''run-consul'' \<noteq> '''' then [StartConsul (StringOf c ''run-consul'')] else [])"

definition AgentCmd :: "cli_context \<Rightarrow> step list" where
  "AgentCmd c = run_consul c @ [ApiStart, AtExit [StopPart AgentPart, StopIfThere HealthPart]] @
     (if BoolOf c ''health-agent'' then [Register HealthPart, RegisterRoutes HealthPart, GoRun HealthPart] else []) @
     [Register AgentPart, RegisterRoutes AgentPart, Serve, Run AgentPart]"

definition HealthAgentCmd :: "cli_context \<Rightarrow> step list" where
  "HealthAgentCmd c = [ApiStart, AtExit [StopPart HealthPart], Register HealthPart, RegisterRoutes HealthPart, Serve, Run HealthPart]"

definition DiscoveryAgentCmd :: "cli_context \<Rightarrow> step list" where
  "DiscoveryAgentCmd c = [ApiStart, AtExit [StopPart DiscoveryPart], Register DiscoveryPart, RegisterRoutes DiscoveryPart, Serve,
     Run DiscoveryPart]"

definition SchedulerCmd :: "cli_context \<Rightarrow> step list" where
  "SchedulerCmd c = run_consul c @ [ApiStart, Register MasterPart, AtExit [StopPart MasterPart], RegisterRoutes MasterPart, Serve,
     Run MasterPart]"

definition CombinedCmd :: "cli_context \<Rightarrow> step list" where
  "CombinedCmd c = run_consul c @ [ApiStart, AtExit [StopPart AgentPart, StopPart MasterPart, StopIfThere HealthPart],
     Register MasterPart, Register AgentPart, RegisterRoutes MasterPart, RegisterRoutes AgentPart] @
     (if BoolOf c ''health-agent'' then [Register HealthPart, RegisterRoutes HealthPart] else []) @
     [Serve, GoRun AgentPart, GoRun MasterPart] @ (if BoolOf c ''health-agent'' then [GoRun HealthPart] else [])"

section \<open>An interrupt\<close>

text \<open>Stopping a part: the receiver must be there, and a channel is closed once.\<close>

definition close_quit :: "part \<Rightarrow> 'l app \<Rightarrow> 'l app outcome" where
  "close_quit p app = (if p \<in> set (ap_closed app) then Panics else Returns (app\<lparr>ap_closed := ap_closed app @ [p]\<rparr>))"

definition Master_Stop :: "('b, 'l) lock_api \<Rightarrow> map_order \<Rightarrow> 'l master \<times> 'b \<Rightarrow> 'l master \<times> 'b" where
  "Master_Stop la ord = (\<lambda>(s, b). case SchedulerLocks_Stop la ord (ms_locks s, b) of (ls, b') \<Rightarrow> (s\<lparr>ms_locks := ls\<rparr>, b'))"

definition stop_part :: "('b, 'l) lock_api \<Rightarrow> map_order \<Rightarrow> part \<Rightarrow> 'l app \<times> 'b \<Rightarrow> ('l app \<times> 'b) outcome" where
  "stop_part la ord p = (\<lambda>(app, b).
     (case p of
        AgentPart \<Rightarrow> (case ap_Agent app of None \<Rightarrow> Panics
          | Some _ \<Rightarrow> bind_outcome (close_quit AgentPart app) (\<lambda>app'. Returns (app', b)))
      | MasterPart \<Rightarrow> (case ap_Master app of None \<Rightarrow> Panics
          | Some m \<Rightarrow> (case Master_Stop la ord (m, b) of (m', b') \<Rightarrow>
              bind_outcome (close_quit MasterPart (app\<lparr>ap_Master := Some m'\<rparr>)) (\<lambda>app'. Returns (app', b'))))
      | HealthPart \<Rightarrow> (case ap_Health app of None \<Rightarrow> Panics
          | Some h \<Rightarrow> bind_outcome (HealthAgent_Stop h) (\<lambda>h'. Returns (app\<lparr>ap_Health := Some h'\<rparr>, b)))
      | DiscoveryPart \<Rightarrow> (case ap_Discovery app of None \<Rightarrow> Panics
          | Some _ \<Rightarrow> bind_outcome (close_quit DiscoveryPart app) (\<lambda>app'. Returns (app', b)))))"

definition exit_part :: "('b, 'l) lock_api \<Rightarrow> map_order \<Rightarrow> exit_step \<Rightarrow> 'l app \<times> 'b \<Rightarrow> ('l app \<times> 'b) outcome" where
  "exit_part la ord e = (\<lambda>(app, b).
     (case e of
        StopPart p \<Rightarrow> stop_part la ord p (app, b)
      | StopIfThere p \<Rightarrow> if there p app then stop_part la ord p (app, b) else Returns (app, b)))"

fun exit_parts :: "('b, 'l) lock_api \<Rightarrow> map_order \<Rightarrow> exit_step list \<Rightarrow> 'l app \<times> 'b \<Rightarrow> ('l app \<times> 'b) outcome" where
  "exit_parts la ord [] st = Returns st"
| "exit_parts la ord (e # es) st = bind_outcome (exit_part la ord e st) (exit_parts la ord es)"

text \<open>Without a handler the signal ends the process: nothing is stopped.\<close>

definition interrupt :: "('b, 'l) lock_api \<Rightarrow> map_order \<Rightarrow> 'l app \<times> 'b \<Rightarrow> ('l app \<times> 'b) outcome" where
  "interrupt la ord = (\<lambda>(app, b). case ap_atExit app of None \<Rightarrow> Returns (app, b) | Some es \<Rightarrow> exit_parts la ord es (app, b))"

end
