(* ===== verification/Process_Properties.thy ===== *)
theory Process_Properties
  imports Processes Consul_Schedule
begin

text \<open>
  Properties of the processes: what a start registers, what an interrupt does at each moment, which
  settings a process has that was given no flags, and where the hosts of the agents end up.
\<close>

section \<open>Starting and stopping\<close>

lemmas process_steps = do_step_def AgentCmd_def HealthAgentCmd_def DiscoveryAgentCmd_def SchedulerCmd_def CombinedCmd_def run_consul_def
  NewApp_def RegisterAgent_def RegisterMaster_def RegisterHealthAgent_def RegisterDiscoveryAgent_def there_def routes_of_def
  agent_routes_def master_routes_def health_routes_def discovery_routes_def serve_routes_def

text \<open>
  Every process starts with exactly its parts running, but the combined one when it is asked for a
  health agent: it panics while it starts, because the master and the health agent register the same route.
\<close>

theorem process_starts:
  "(\<exists>app. do_steps f c (AgentCmd c) (NewApp conf :: 'l app) = Returns app \<and>
      set (ap_running app) = (if BoolOf c ''health-agent'' then {AgentPart, HealthPart} else {AgentPart})) \<and>
   (\<exists>app. do_steps f c (HealthAgentCmd c) (NewApp conf :: 'l app) = Returns app \<and> set (ap_running app) = {HealthPart}) \<and>
   (\<exists>app. do_steps f c (DiscoveryAgentCmd c) (NewApp conf :: 'l app) = Returns app \<and> set (ap_running app) = {DiscoveryPart}) \<and>
   (\<exists>app. do_steps f c (SchedulerCmd c) (NewApp conf :: 'l app) = Returns app \<and> set (ap_running app) = {MasterPart}) \<and>
   (if BoolOf c ''health-agent'' then do_steps f c (CombinedCmd c) (NewApp conf :: 'l app) = Panics
    else \<exists>app. do_steps f c (CombinedCmd c) (NewApp conf :: 'l app) = Returns app \<and> set (ap_running app) = {AgentPart, MasterPart})"
  by (cases "BoolOf c ''health-agent''"; cases "StringOf c ''run-consul'' = ''''") (simp_all add: process_steps insert_commute)

text \<open>The processes at a moment of their start: some of the steps are done.\<close>

definition reached :: "figures \<Rightarrow> cli_context \<Rightarrow> step list \<Rightarrow> config \<Rightarrow> 'l app \<Rightarrow> bool" where
  "reached f c sts conf app \<longleftrightarrow> (\<exists>k. do_steps f c (take k sts) (NewApp conf) = Returns app)"

lemma HandleFuncs_frame:
  "HandleFuncs pats app = Returns app' \<Longrightarrow> ap_Agent app' = ap_Agent app \<and> ap_Master app' = ap_Master app \<and>
     ap_Health app' = ap_Health app \<and> ap_Discovery app' = ap_Discovery app \<and> ap_atExit app' = ap_atExit app \<and>
     ap_closed app' = ap_closed app"
  by (induction pats arbitrary: app) (auto split: if_splits)

text \<open>What every start keeps: no channel is closed, a health agent is a new one, the handler is one of its steps.\<close>

definition starting :: "step list \<Rightarrow> 'l app \<Rightarrow> bool" where
  "starting sts app \<longleftrightarrow> ap_closed app = [] \<and> ap_Health app \<in> {None, Some NewHealthAgent} \<and>
     (\<forall>h. ap_atExit app = Some h \<longrightarrow> AtExit h \<in> set sts) \<and>
     (\<forall>p. there p app \<longrightarrow> Register p \<in> set sts)"

lemma starting_new: "starting sts (NewApp conf)"
  by (simp add: starting_def NewApp_def there_def split: part.split)

lemma starting_step:
  assumes "do_step f c st app = Returns app'" and "starting sts app" and "st \<in> set sts"
  shows "starting sts app'"
proof -
  note defs = do_step_def starting_def there_def RegisterAgent_def RegisterMaster_def RegisterHealthAgent_def RegisterDiscoveryAgent_def
  show ?thesis
  proof (cases st)
    case (Register p)
    then show ?thesis using assms by (cases p) (auto simp: defs split: part.splits)
  next
    case (RegisterRoutes p)
    then have "HandleFuncs (routes_of p) app = Returns app'" using assms(1) by (simp add: do_step_def)
    from HandleFuncs_frame [OF this] show ?thesis using assms(2) by (simp add: starting_def there_def split: part.splits)
  next
    case Serve
    then have "HandleFuncs serve_routes app = Returns app'" using assms(1) by (simp add: do_step_def)
    from HandleFuncs_frame [OF this] show ?thesis using assms(2) by (simp add: starting_def there_def split: part.splits)
  qed (use assms in \<open>auto simp: defs split: part.splits if_splits\<close>)
qed

lemma starting_steps:
  "do_steps f c done app = Returns app' \<Longrightarrow> starting sts app \<Longrightarrow> set done \<subseteq> set sts \<Longrightarrow> starting sts app'"
proof (induction "done" arbitrary: app)
  case (Cons st "done")
  then show ?case by (cases "do_step f c st app") (auto dest: starting_step)
qed simp

lemma reached_starting: "reached f c sts conf app \<Longrightarrow> starting sts app"
  unfolding reached_def by (metis starting_steps starting_new set_take_subset)

lemma do_steps_append: "do_steps f c (xs @ ys) app = bind_outcome (do_steps f c xs app) (do_steps f c ys)"
proof (induction xs arbitrary: app)
  case (Cons st xs)
  then show ?case by (cases "do_step f c st app") simp_all
qed simp

lemma master_stays_step: "do_step f c st app = Returns app' \<Longrightarrow> ap_Master app \<noteq> None \<Longrightarrow> ap_Master app' \<noteq> None"
  by (cases st) (auto simp: do_step_def RegisterAgent_def RegisterMaster_def RegisterHealthAgent_def
      RegisterDiscoveryAgent_def dest!: HandleFuncs_frame split: part.splits if_splits)

lemma master_stays: "do_steps f c sts app = Returns app' \<Longrightarrow> ap_Master app \<noteq> None \<Longrightarrow> ap_Master app' \<noteq> None"
proof (induction sts arbitrary: app)
  case (Cons st sts)
  then show ?case by (cases "do_step f c st app") (auto dest: master_stays_step)
qed simp

text \<open>The scheduler makes the master before the handler that stops it.\<close>

lemma scheduler_handler:
  assumes "reached f c (SchedulerCmd c) conf app" and "ap_atExit app \<noteq> None"
  shows "ap_Master app \<noteq> None"
proof -
  define pre where "pre = run_consul c @ [ApiStart, Register MasterPart]"
  obtain post where sts: "SchedulerCmd c = pre @ post" by (simp add: SchedulerCmd_def pre_def)
  from assms(1) obtain k where run: "do_steps f c (take k (pre @ post)) (NewApp conf) = Returns app"
    by (auto simp: reached_def sts)
  have no_handler: "AtExit h \<notin> set pre" for h by (auto simp: pre_def run_consul_def)
  from starting_steps [OF run starting_new subset_refl] assms(2)
  have handler: "\<exists>h. AtExit h \<in> set (take k (pre @ post))" by (auto simp: starting_def)
  show ?thesis
  proof (cases "k \<le> length pre")
    case True
    then show ?thesis using handler no_handler in_set_takeD by (fastforce simp: take_append)
  next
    case False
    obtain app1 where "do_steps f c pre (NewApp conf :: 'a app) = Returns app1" "ap_Master app1 \<noteq> None"
      by (cases "StringOf c ''run-consul'' = ''''") (simp_all add: pre_def process_steps)
    moreover from this run False have "do_steps f c (take (k - length pre) post) app1 = Returns app"
      by (simp add: take_append do_steps_append)
    ultimately show ?thesis using master_stays by blast
  qed
qed

text \<open>A command line on which no flag is given, and one that asks for a health agent.\<close>

definition unset :: "flag list \<Rightarrow> cli_context" where
  "unset flags = \<lparr>GlobalString = default_string app_flags, GlobalInt = default_int app_flags, StringOf = default_string flags,
     IntOf = default_int flags, Int64Of = (\<lambda>_. 0), BoolOf = (\<lambda>_. False), DurationOf = default_duration flags,
     StringSliceOf = (\<lambda>_. []), ArgsOf = []\<rparr>"

definition with_health :: "flag list \<Rightarrow> cli_context" where
  "with_health flags = (unset flags)\<lparr>BoolOf := (\<lambda>name. name = ''health-agent'')\<rparr>"

lemma unset_reads: "reads_flags app_flags flags {} (unset flags)"
  by (simp add: reads_flags_def unset_def)

definition px_config :: config where "px_config = NewConfig \<lparr>co_Address = '''', co_Datacenter = '''', co_Token = ''''\<rparr>"

definition px_figures :: figures where "px_figures = \<lparr>fg_memory = 1073741824, fg_disk = 0, fg_cpus = 2\<rparr>"

section \<open>Interrupts\<close>

lemmas interrupt_simps = interrupt_def exit_part_def stop_part_def close_quit_def HealthAgent_Stop_def NewHealthAgent_def there_def

text \<open>
  C37. At any moment of a start, an interrupt never fails the scheduler. The other processes install their
  handler before they make the parts it stops, so an interrupt in between panics on a missing part; and a
  process with a health agent always panics, since no channel \<open>quit\<close> was made for it.
\<close>

theorem interrupt_panics:
  "(reached f c (SchedulerCmd c) conf app \<longrightarrow> interrupt la ord (app :: 'l app, b) \<noteq> Panics) \<and>
   (reached f c (HealthAgentCmd c) conf app \<longrightarrow> (interrupt la ord (app, b) = Panics \<longleftrightarrow> ap_atExit app \<noteq> None)) \<and>
   (reached f c (DiscoveryAgentCmd c) conf app \<longrightarrow>
      (interrupt la ord (app, b) = Panics \<longleftrightarrow> ap_atExit app \<noteq> None \<and> ap_Discovery app = None)) \<and>
   (reached f c (AgentCmd c) conf app \<longrightarrow>
      (interrupt la ord (app, b) = Panics \<longleftrightarrow> ap_atExit app \<noteq> None \<and> (ap_Agent app = None \<or> ap_Health app \<noteq> None))) \<and>
   (reached f c (CombinedCmd c) conf app \<longrightarrow>
      (interrupt la ord (app, b) = Panics \<longleftrightarrow>
         ap_atExit app \<noteq> None \<and> (ap_Agent app = None \<or> ap_Master app = None \<or> ap_Health app \<noteq> None)))"
proof (intro conjI impI)
  assume "reached f c (HealthAgentCmd c) conf app"
  then have "starting (HealthAgentCmd c) app" by (rule reached_starting)
  then show "interrupt la ord (app, b) = Panics \<longleftrightarrow> ap_atExit app \<noteq> None"
    by (auto simp: starting_def HealthAgentCmd_def interrupt_simps split: option.splits)
next
  assume "reached f c (DiscoveryAgentCmd c) conf app"
  then have "starting (DiscoveryAgentCmd c) app" by (rule reached_starting)
  then show "interrupt la ord (app, b) = Panics \<longleftrightarrow> ap_atExit app \<noteq> None \<and> ap_Discovery app = None"
    by (auto simp: starting_def DiscoveryAgentCmd_def interrupt_simps split: option.splits)
next
  assume "reached f c (AgentCmd c) conf app"
  then have "starting (AgentCmd c) app" by (rule reached_starting)
  then show "interrupt la ord (app, b) = Panics \<longleftrightarrow> ap_atExit app \<noteq> None \<and> (ap_Agent app = None \<or> ap_Health app \<noteq> None)"
    by (auto simp: starting_def AgentCmd_def run_consul_def interrupt_simps split: option.splits if_splits)
next
  assume "reached f c (CombinedCmd c) conf app"
  then have "starting (CombinedCmd c) app" by (rule reached_starting)
  then show "interrupt la ord (app, b) = Panics \<longleftrightarrow>
      ap_atExit app \<noteq> None \<and> (ap_Agent app = None \<or> ap_Master app = None \<or> ap_Health app \<noteq> None)"
    by (auto simp: starting_def CombinedCmd_def run_consul_def interrupt_simps split: option.splits if_splits prod.splits)
next
  assume "reached f c (SchedulerCmd c) conf app"
  then have "starting (SchedulerCmd c) app" and "ap_atExit app \<noteq> None \<longrightarrow> ap_Master app \<noteq> None"
    using reached_starting scheduler_handler by blast+
  then show "interrupt la ord (app, b) \<noteq> Panics"
    by (auto simp: starting_def SchedulerCmd_def run_consul_def interrupt_simps split: option.splits if_splits prod.splits)
qed

lemma reached_steps: "do_steps f c (take k sts) (NewApp conf) = Returns app \<Longrightarrow> reached f c sts conf app"
  by (auto simp: reached_def)

lemma px_early:
  "reached px_figures (unset agent_flags) (AgentCmd (unset agent_flags)) px_config
     ((NewApp px_config)\<lparr>ap_atExit := Some [StopPart AgentPart, StopIfThere HealthPart]\<rparr>)"
  by (rule reached_steps [where k = 2]) (simp add: AgentCmd_def run_consul_def unset_def default_string_def declared_def agent_flags_def
      do_step_def numeral_2_eq_2)

theorem interrupt_panics_witness:
  "interrupt (consul_locks free_locks) listed_order
     ((NewApp px_config)\<lparr>ap_atExit := Some [StopPart AgentPart, StopIfThere HealthPart]\<rparr>, empty_store) = Panics"
proof -
  let ?app = "(NewApp px_config)\<lparr>ap_atExit := Some [StopPart AgentPart, StopIfThere HealthPart]\<rparr> :: unit consul_lock app"
  have "interrupt (consul_locks free_locks) listed_order (?app, empty_store) = Panics \<longleftrightarrow>
      ap_atExit ?app \<noteq> None \<and> (ap_Agent ?app = None \<or> ap_Health ?app \<noteq> None)"
    by (rule interrupt_panics [THEN conjunct2, THEN conjunct2, THEN conjunct2, THEN conjunct1, THEN mp, OF px_early])
  then show ?thesis by (simp add: NewApp_def)
qed


text \<open>A scheduler that was started, whose master holds a lock.\<close>

definition px_master :: "unit consul_lock master" where
  "px_master = (NewMaster \<lparr>mc_Runners = 0, mc_SyncInterval = 0, mc_Cluster = ''''\<rparr>)
     \<lparr>ms_locks := \<lparr>sl_locks = [(''d'', \<lparr>kl_key = ''schedulers/d'', kl_lock = (), kl_held = True\<rparr>)]\<rparr>\<rparr>"

lemma px_started:
  "reached px_figures (unset scheduler_flags) (SchedulerCmd (unset scheduler_flags)) px_config
     ((RegisterMaster (unset scheduler_flags) (NewApp px_config))\<lparr>ap_atExit := Some [StopPart MasterPart]\<rparr>)"
  by (rule reached_steps [where k = 3]) (simp add: SchedulerCmd_def run_consul_def unset_def default_string_def declared_def
      scheduler_flags_def do_step_def numeral_3_eq_3)



section \<open>Settings that were not given\<close>

text \<open>
  Without flags the scheduler stores under \<open>registry\<close> in the Consul of the library's settings, logs
  everything and runs three workers for the cluster \<open>default\<close> every 30 seconds; the agent has three runners
  every 30 seconds. No flag sets the resources of an agent: they are those of its machine.
\<close>

theorem process_defaults:
  "(reads_flags app_flags scheduler_flags {} c \<longrightarrow>
      app_Before c (NewConfig dflt) = Some ((NewConfig dflt)\<lparr>cg_LogLevel := ''debug''\<rparr>, ConsulBackend ''registry'' dflt, DebugLevel) \<and>
      map_option (\<lambda>m. ms_Config (Master_Run_setup n m)) (ap_Master (RegisterMaster c (app :: 'l app))) =
        Some \<lparr>mc_Runners = 3, mc_SyncInterval = 30 * second, mc_Cluster = ''default''\<rparr>) \<and>
   (reads_flags app_flags agent_flags given c \<longrightarrow>
      (\<exists>ag. ap_Agent (RegisterAgent f c (app :: 'l app)) = Some ag \<and>
         base_resources ag = no_resources\<lparr>rs_Memory := ToMb (fg_memory f),
           rs_DiskSpace := ToMb (fg_disk f), rs_CpuUnits := w64 (fg_cpus f * 1024)\<rparr> \<and>
         ({''agent-runners'', ''agent-sync-interval''} \<inter> given = {} \<longrightarrow>
            ac_Runners (ag_Config ag) = 3 \<and> ac_SyncInterval (ag_Config ag) = 30 * second)))"
proof (intro conjI impI)
  assume flags: "reads_flags app_flags scheduler_flags {} c"
  note read = flags [unfolded reads_flags_def, simplified]
  show "app_Before c (NewConfig dflt) = Some ((NewConfig dflt)\<lparr>cg_LogLevel := ''debug''\<rparr>, ConsulBackend ''registry'' dflt, DebugLevel)"
    by (simp add: app_Before_def NewConfig_def Let_def read default_string_def default_int_def declared_def app_flags_def
        given_or_def log_level_def CONSUL_def)
  show "map_option (\<lambda>m. ms_Config (Master_Run_setup n m)) (ap_Master (RegisterMaster c app)) =
      Some \<lparr>mc_Runners = 3, mc_SyncInterval = 30 * second, mc_Cluster = ''default''\<rparr>"
    by (simp add: RegisterMaster_def NewMaster_def Master_Run_setup_def run_defaults_def read default_string_def default_int_def
        default_duration_def declared_def scheduler_flags_def IsNone_def second_def)
next
  assume flags: "reads_flags app_flags agent_flags given c"
  then have none: "Int64Of c name = 0" for name by (simp add: reads_flags_def)
  have own: "name \<notin> given \<Longrightarrow> IntOf c name = default_int agent_flags name \<and> DurationOf c name = default_duration agent_flags name" for name
    using flags by (simp add: reads_flags_def)
  show "\<exists>ag. ap_Agent (RegisterAgent f c app) = Some ag \<and>
      base_resources ag = no_resources\<lparr>rs_Memory := ToMb (fg_memory f),
        rs_DiskSpace := ToMb (fg_disk f), rs_CpuUnits := w64 (fg_cpus f * 1024)\<rparr> \<and>
      ({''agent-runners'', ''agent-sync-interval''} \<inter> given = {} \<longrightarrow>
         ac_Runners (ag_Config ag) = 3 \<and> ac_SyncInterval (ag_Config ag) = 30 * second)"
    by (simp add: RegisterAgent_def NewAgent_def config_defaults_def Let_def base_resources_def none own no_resources_def default_int_def
        default_duration_def declared_def agent_flags_def default_figure_def IsNone_def second_def)
qed

theorem process_defaults_witness:
  "app_Before (unset scheduler_flags) px_config = Some (px_config\<lparr>cg_LogLevel := ''debug''\<rparr>,
      ConsulBackend ''registry'' \<lparr>co_Address = '''', co_Datacenter = '''', co_Token = ''''\<rparr>, DebugLevel) \<and>
   (\<exists>ag. ap_Agent (RegisterAgent px_figures (unset agent_flags) (NewApp px_config :: unit app)) = Some ag \<and>
      ac_Runners (ag_Config ag) = 3 \<and> rs_Memory (base_resources ag) = 1024)"
  using process_defaults [of "unset scheduler_flags" "\<lparr>co_Address = '''', co_Datacenter = '''', co_Token = ''''\<rparr>" 0
      "NewApp px_config :: unit app" "{}" px_figures] unset_reads [of scheduler_flags]
    process_defaults [of "unset agent_flags" "\<lparr>co_Address = '''', co_Datacenter = '''', co_Token = ''''\<rparr>" 0
      "NewApp px_config :: unit app" "{}" px_figures] unset_reads [of agent_flags]
  by (auto simp: px_config_def px_figures_def ToMb_def megabyte_def)

section \<open>The hosts of the agents\<close>

text \<open>
  C24. No flag names the cluster of an agent: whatever the command line, its host is stored under the
  cluster \<open>default\<close>, and it stays there when the agent leaves, because the name to remove was read before
  the agent had one.
\<close>

theorem agents_join_default:
  assumes "kv_store cl view" and "name \<noteq> ''''" and "ap_Agent (RegisterAgent f c app) = Some ag"
  shows "\<exists>n' h. agent_begin (consul_api cl pre) ord f None name \<lparr>nd_agent = ag, nd_backend = s, nd_machine = w\<rparr> = Returns n' \<and>
    ho_Name h = name \<and> ho_Cluster h = ''default'' \<and>
    content view pre (nd_backend n') = (content view pre s)(''hosts/default/'' @ name \<mapsto> Doc (encode_host h)) \<and>
    (\<forall>n2. ag_Config (nd_agent n2) = ag_Config (nd_agent n') \<longrightarrow>
       content view pre (nd_backend (agent_end (consul_api cl pre) (ag_Host ag) n2)) (''hosts/default/'' @ name) =
       content view pre (nd_backend n2) (''hosts/default/'' @ name))"
proof -
  have ag: "ag_Host ag = ''''" "ag_LastState ag = None" "ag_TaskState ag = []" "ac_Cluster (ag_Config ag) = ''''"
    using assms(3) by (auto simp: RegisterAgent_def NewAgent_def config_defaults_def Let_def)
  define ag' where "ag' = ag\<lparr>ag_Config := (ag_Config ag)\<lparr>ac_Cluster := ''default''\<rparr>, ag_Host := name\<rparr>"
  define h where "h = published f \<lparr>us_reserved = [], us_memory = 0, us_disk = 0, us_cpu = 0\<rparr> ag'"
  define n' where "n' = \<lparr>nd_agent = ag'\<lparr>ag_LastState := Some h\<rparr>, nd_backend = fst (consul_PutHost cl pre h s), nd_machine = w\<rparr>"
  have none: "range_values ord ([] :: agent_state) = []" by (simp add: range_values_def range_keys_def key_list_def List.map_filter_def flip: length_0_conv)
  have run: "agent_begin (consul_api cl pre) ord f None name \<lparr>nd_agent = ag, nd_backend = s, nd_machine = w\<rparr> = Returns n'"
    by (simp add: agent_begin_def PublishState_def Let_def ag state_load_def none n'_def h_def ag'_def consul_api_def)
  have h: "ho_Name h = name" "ho_Cluster h = ''default''"
    by (simp_all add: h_def published_def last_state_def ag'_def Let_def ag)
  have key: "host_key ''default'' x = ''hosts/default/'' @ x" for x by (simp add: host_key_def)
  have stored: "content view pre (nd_backend n') = (content view pre s)(''hosts/default/'' @ name \<mapsto> Doc (encode_host h))"
    using consul_PutHost_content [OF assms(1), of pre h s] unfolding n'_def h key by simp
  have left: "content view pre (nd_backend (agent_end (consul_api cl pre) (ag_Host ag) n2)) (''hosts/default/'' @ name) =
      content view pre (nd_backend n2) (''hosts/default/'' @ name)"
    if "ag_Config (nd_agent n2) = ag_Config (nd_agent n')" for n2
  proof -
    have "ac_Cluster (ag_Config (nd_agent n2)) = ''default''" by (simp add: that n'_def ag'_def)
    then have "nd_backend (agent_end (consul_api cl pre) (ag_Host ag) n2) = fst (consul_del cl pre (''hosts/default/'' @ '''') (nd_backend n2))"
      unfolding agent_end_def ag by (simp add: on_backend_def consul_api_def consul_DelHost_def host_key_def split: prod.split)
    then show ?thesis using content_del [OF assms(1), of pre] assms(2) by simp
  qed
  from run h stored left show ?thesis by blast
qed

text \<open>An agent that is asked for a health agent too.\<close>

theorem agents_join_default_witness:
  "\<exists>n' h ag. ap_Agent (RegisterAgent px_figures (with_health agent_flags) (NewApp px_config :: unit app)) = Some ag \<and>
     agent_begin (consul_api local_consul ''sked'') listed_order px_figures None ''h''
       \<lparr>nd_agent = ag, nd_backend = cx_store [], nd_machine = ()\<rparr> = Returns n' \<and>
     content lookup ''sked'' (nd_backend (agent_end (consul_api local_consul ''sked'') (ag_Host ag) n')) ''hosts/default/h'' =
       Some (Doc (encode_host h))"
proof -
  obtain ag where ag: "ap_Agent (RegisterAgent px_figures (with_health agent_flags) (NewApp px_config :: unit app)) = Some ag"
    by (simp add: RegisterAgent_def)
  have "''h'' \<noteq> ''''" by simp
  from agents_join_default [OF local_consul_store this ag, of "''sked''" listed_order "cx_store []" "()"] ag show ?thesis
    by fastforce
qed

text \<open>
  A scheduler of a cluster whose name does not begin the path of these hosts finds none: it reports so
  and leaves the store as it is.
\<close>

theorem other_cluster_has_no_hosts:
  assumes "kv_store cl view" and hosts: "\<forall>key. content view pre b (''hosts/'' @ key) \<noteq> None \<longrightarrow> prefix ''default/'' key"
    and name: "\<forall>host. \<not> prefix (cl_Name cs) (''default/'' @ host)"
  shows "Schedule (consul_api cl pre) ch d (SetCluster cs NewDefaultScheduler) b =
    Returns (Some (OtherError ''no hosts to schedule on''), SetCluster cs NewDefaultScheduler, b)"
proof -
  obtain kvs where kvs: "kv_List cl (full_key pre (''hosts/'' @ cl_Name cs)) (cs_consul b) = Inr kvs"
      "set kvs = {(k, v). view (cs_consul b) k = Some v \<and> prefix (full_key pre (''hosts/'' @ cl_Name cs)) k}"
    by (rule kv_store_list [OF assms(1), of "full_key pre (''hosts/'' @ cl_Name cs)" "cs_consul b"])
  have False if "(k, v) \<in> set kvs" for k v
  proof -
    from that kvs(2) have "prefix (full_key pre (''hosts/'' @ cl_Name cs)) k" "view (cs_consul b) k = Some v" by auto
    then obtain rest where k: "k = full_key pre (''hosts/'' @ cl_Name cs @ rest)" by (auto simp: prefix_def full_key_def)
    then have "content view pre b (''hosts/'' @ cl_Name cs @ rest) \<noteq> None"
      using \<open>view (cs_consul b) k = Some v\<close> by (simp add: content_def)
    with hosts obtain host where "cl_Name cs @ rest = ''default/'' @ host" unfolding prefix_def by blast
    with name show False by (metis prefixI)
  qed
  then have "kvs = []" by (cases kvs) auto
  with kvs(1) have "ListHosts (consul_api cl pre) (cl_Name cs) b = Ok []"
    by (simp add: consul_api_def consul_ListHosts_def consul_read_all_def consul_list_def)
  then show ?thesis by (simp add: Schedule_def syncHosts_def SetCluster_def NewDefaultScheduler_def)
qed

theorem other_cluster_has_no_hosts_witness:
  "content lookup ''sked'' (fst (consul_PutHost local_consul ''sked'' ((ex_host ''h'' 1000)\<lparr>ho_Cluster := ''default''\<rparr>) empty_store))
     ''hosts/default/h'' \<noteq> None \<and>
   Schedule (consul_api local_consul ''sked'') ex_choices (ex_deployment 2) (SetCluster (ex_cluster\<lparr>cl_Name := ''eu''\<rparr>) NewDefaultScheduler)
     (fst (consul_PutHost local_consul ''sked'' ((ex_host ''h'' 1000)\<lparr>ho_Cluster := ''default''\<rparr>) empty_store)) =
   Returns (Some (OtherError ''no hosts to schedule on''), SetCluster (ex_cluster\<lparr>cl_Name := ''eu''\<rparr>) NewDefaultScheduler,
     fst (consul_PutHost local_consul ''sked'' ((ex_host ''h'' 1000)\<lparr>ho_Cluster := ''default''\<rparr>) empty_store))"
proof -
  let ?h = "(ex_host ''h'' 1000)\<lparr>ho_Cluster := ''default''\<rparr>"
  let ?b = "fst (consul_PutHost local_consul ''sked'' ?h empty_store)"
  have "content lookup ''sked'' empty_store key = None" for key
    by (simp add: content_def empty_store_def NewConsulApi_def)
  moreover have "host_key (ho_Cluster ?h) (ho_Name ?h) = ''hosts/default/h''" by (simp add: host_key_def ex_host_def)
  ultimately have b: "content lookup ''sked'' ?b key = (if key = ''hosts/default/h'' then Some (Doc (encode_host ?h)) else None)" for key
    using consul_PutHost_content [OF local_consul_store, of "''sked''" ?h empty_store] by simp
  then have "\<forall>key. content lookup ''sked'' ?b (''hosts/'' @ key) \<noteq> None \<longrightarrow> prefix ''default/'' key" by simp
  moreover have "\<forall>host. \<not> prefix (cl_Name (ex_cluster\<lparr>cl_Name := ''eu''\<rparr>)) (''default/'' @ host)" by simp
  ultimately show ?thesis using b other_cluster_has_no_hosts [OF local_consul_store] by simp
qed

end
