(* ===== verification/Samples.thy ===== *)
theory Samples
  imports Consul_Properties Executors
begin

text \<open>
  Helpers: random texts and lists of errors (src/tools/rand.go, src/tools/errors.go), and the resources the
  tests of the program are built from (src/api/testing.go).
\<close>

section \<open>Random texts and lists of errors\<close>

definition letterBytes :: string where
  "letterBytes = ''abcdefghijklmnopqrstuvwxyzABCDEFGHIJKLMNOPQRSTUVWXYZ''"

text \<open>\<open>draws\<close> are the results of \<open>rand.Intn(len(letterBytes))\<close>, all below the length.\<close>

definition RandString :: "(nat \<Rightarrow> nat) \<Rightarrow> nat \<Rightarrow> string" where
  "RandString draws n = map (\<lambda>i. letterBytes ! draws i) [0..<n]"

record multi_error =
  me_Errors :: "string list"

definition multi_Append :: "string \<Rightarrow> multi_error \<Rightarrow> multi_error" where
  "multi_Append err m = m\<lparr>me_Errors := me_Errors m @ [err]\<rparr>"

definition multi_Error :: "multi_error \<Rightarrow> string" where
  "multi_Error m = fold (\<lambda>e s. s @ '', '' @ e) (me_Errors m) ''''"

section \<open>Samples\<close>

definition SampleContainer :: container where
  "SampleContainer = \<lparr>ct_Name = ''test'', ct_Type = ''bash'',
     ct_Executor = Some (JObj [(''start'', JStr ''echo start''), (''stop'', JStr ''echo stop'')]),
     ct_Setup = [], ct_Teardown = [], ct_Checks = [], ct_Ports = [], ct_Memory = 100000, ct_CpuUnits = 100000,
     ct_DiskUse = 100000, ct_Essential = False\<rparr>"

definition SampleTaskDefinition :: task_definition where
  "SampleTaskDefinition = \<lparr>td_Name = ''test'', td_Version = 1, td_Tags = [''test''], td_Containers = [SampleContainer],
     td_GracePeriod = 10 * second\<rparr>"

definition SampleDeployment :: deployment where
  "SampleDeployment = \<lparr>dp_Name = ''test'', dp_Scheduler = '''', dp_TaskName = ''test'', dp_TaskVersion = 0, dp_Desired = 5,
     dp_Min = 0, dp_Max = 5, dp_MaxAttempts = 0\<rparr>"

definition SampleService :: service where
  "SampleService = \<lparr>sv_Name = ''test'', sv_Cluster = ''test'', sv_Deployment = ''test'', sv_Container = ''test'',
     sv_PortName = '''', sv_Protocol = ''''\<rparr>"

definition SampleHost :: host where
  "SampleHost = (let r = \<lparr>rs_Memory = 1000000000, rs_CpuUnits = 1000000000, rs_DiskSpace = 1000000000, rs_MemUsePercent = 0\<rparr> in
     \<lparr>ho_Name = ''testinghost'', ho_Address = '''', ho_Draining = False,
      ho_ReservedPorts = [1000, 1001, 1002, 1003, 1004, 1005, 1006], ho_HealthCheck = '''', ho_ObservedResources = r,
      ho_CalculatedResources = r, ho_BaseResources = r, ho_Cluster = ''default'', ho_Tags = []\<rparr>)"

definition SampleCluster :: cluster where
  "SampleCluster = \<lparr>cl_Name = ''test'', cl_Deployments = [''test''], cl_Hosts = []\<rparr>"

definition SampleTask :: task where
  "SampleTask = NewTask SampleCluster SampleTaskDefinition SampleDeployment 1"

section \<open>Lemmas\<close>

lemma RandString_letters:
  assumes "\<forall>i < n. draws i < length letterBytes"
  shows "length (RandString draws n) = n" and "set (RandString draws n) \<subseteq> set letterBytes"
  using assms by (auto simp: RandString_def)

lemma multi_Error_Append: "multi_Error (multi_Append err m) = multi_Error m @ '', '' @ err"
  by (simp add: multi_Error_def multi_Append_def)

text \<open>A task is named after the version of its definition, an instance that is looked for after the version of the deployment.\<close>

lemma sample_task: "task_ID SampleTask = ''test-test-1-1''" "MakeTaskId SampleCluster SampleDeployment 1 = ''test-test-0-1''"
  by (simp_all add: SampleTask_def NewTask_def task_ID_def task_Name_def SampleTaskDefinition_def MakeTaskId_def SampleCluster_def SampleDeployment_def dec_int_def char_of_def bit_0 dec_nat.simps [of 0] dec_nat.simps [of "Suc 0"])

text \<open>
  The sample deployment asks for version 0 of a definition that has version 1: the backend in memory hands
  it out, as it does not look at versions, Consul has no such document.
\<close>

lemma sample_version:
  "GetTaskDefinition (mock_api ord) (dp_TaskName SampleDeployment) (dp_TaskVersion SampleDeployment)
     (fst (PutTaskDefinition (mock_api ord) SampleTaskDefinition a)) = Ok SampleTaskDefinition"
  "kv_store cl view \<Longrightarrow> content view pre s (definition_key ''test'' 0) = None \<Longrightarrow>
     GetTaskDefinition (consul_api cl pre) (dp_TaskName SampleDeployment) (dp_TaskVersion SampleDeployment)
       (fst (PutTaskDefinition (consul_api cl pre) SampleTaskDefinition s)) = Fail ErrNotFound (Some zero_definition)"
proof -
  show "GetTaskDefinition (mock_api ord) (dp_TaskName SampleDeployment) (dp_TaskVersion SampleDeployment)
      (fst (PutTaskDefinition (mock_api ord) SampleTaskDefinition a)) = Ok SampleTaskDefinition"
    by (simp add: mock_api_def mock_PutTaskDefinition_def mock_GetTaskDefinition_def get_or_not_found_def mock_emit_def
        SampleDeployment_def SampleTaskDefinition_def)
next
  assume store: "kv_store cl view" and none: "content view pre s (definition_key ''test'' 0) = None"
  have "definition_key ''test'' 1 \<noteq> definition_key ''test'' 0" by (simp add: definition_key_def char_of_def bit_0 dec_nat.simps [of 0] dec_nat.simps [of "Suc 0"])
  then show "GetTaskDefinition (consul_api cl pre) (dp_TaskName SampleDeployment) (dp_TaskVersion SampleDeployment)
      (fst (PutTaskDefinition (consul_api cl pre) SampleTaskDefinition s)) = Fail ErrNotFound (Some zero_definition)"
    using content_put [OF store, of pre "definition_key ''test'' 1"] none
    by (simp add: consul_api_def consul_GetTaskDefinition_def consul_PutTaskDefinition_def SampleDeployment_def
        SampleTaskDefinition_def consul_read_none [OF store])
qed

text \<open>The backend in memory knows no versions: once one is stored, the validation refuses every other.\<close>

lemma memory_refuses_versions:
  "''version already provisioned'' \<in> set (snd (task_definition_Validate (mock_api ord)
     (fst (PutTaskDefinition (mock_api ord) td a)) (td'\<lparr>td_Name := td_Name td, td_Version := v\<rparr>)))"
  by (simp add: task_definition_Validate_def mock_api_def mock_PutTaskDefinition_def mock_GetTaskDefinition_def get_or_not_found_def
      mock_emit_def found_def)

end
