(* ===== verification/Workers.thy ===== *)
theory Workers
  imports Consul_Schedule
begin

text \<open>
  The workers of several masters over one Consul, step by step (src/master/master.go, \<open>schedule\<close>, with
  src/master/lockers.go and src/backends/consul/consul_lock.go): asking for the lock, looking whether it is
  held, scheduling, and giving it back are steps of their own, between which others may move. The workers of
  a master share its table of lock objects. The model of a whole request, \<open>Master_schedule\<close>, is the run of
  these steps without interference.
\<close>

section \<open>The steps\<close>

text \<open>Where a worker is in \<open>schedule\<close>; it waits for a request outside.\<close>

datatype phase = Waiting | Asked string string | Inside string string | Leaving string string

text \<open>
  A process has its master, what its own client keeps, and its workers by number; Consul itself is shared.
\<close>

record ('c, 'k) process =
  pr_master :: "'k consul_lock master"
  pr_consul :: "'c consul"
  pr_phase :: "nat \<Rightarrow> phase"

record ('c, 'k) masters =
  ws_store :: 'c
  ws_process :: "nat \<Rightarrow> ('c, 'k) process"

abbreviation master_of :: "('c, 'k) masters \<Rightarrow> nat \<Rightarrow> 'k consul_lock master" where
  "master_of s i \<equiv> pr_master (ws_process s i)"

abbreviation phase_of :: "('c, 'k) masters \<Rightarrow> nat \<Rightarrow> nat \<Rightarrow> phase" where
  "phase_of s i w \<equiv> pr_phase (ws_process s i) w"

definition consul_of :: "('c, 'k) masters \<Rightarrow> nat \<Rightarrow> 'c consul" where
  "consul_of s i = (pr_consul (ws_process s i))\<lparr>cs_consul := ws_store s\<rparr>"

text \<open>Worker \<open>w\<close> of process \<open>i\<close> has moved: its process has another master, Consul is in another state.\<close>

definition moved ::
  "nat \<Rightarrow> nat \<Rightarrow> phase \<Rightarrow> 'k consul_lock master \<Rightarrow> 'c consul \<Rightarrow> ('c, 'k) masters \<Rightarrow> ('c, 'k) masters" where
  "moved i w ph m b s = \<lparr>ws_store = cs_consul b,
     ws_process = (ws_process s)(i := \<lparr>pr_master = m, pr_consul = b, pr_phase = (pr_phase (ws_process s i))(w := ph)\<rparr>)\<rparr>"

definition lock_name :: "string \<Rightarrow> string \<Rightarrow> string" where
  "lock_name c n = c @ '':'' @ n"

text \<open>
  The last rule is the goroutine of a lock object: it may run at any time after the channel it waits for
  was closed, also one of an earlier hold.
\<close>

inductive worker_step ::
  "'c consul_client \<Rightarrow> string \<Rightarrow> (nat \<Rightarrow> ('c, 'k) consul_lock_client) \<Rightarrow> ('c, 'k) masters \<Rightarrow> ('c, 'k) masters \<Rightarrow> bool"
  for cl pre lk where
  granted: "phase_of s i w = Waiting \<Longrightarrow> int w < mc_Runners (ms_Config (master_of s i)) \<Longrightarrow>
    SchedulerLocks_Lock (consul_locks (lk i)) (lock_name c n) (ms_locks (master_of s i), consul_of s i) = ((ls, b), Ok l) \<Longrightarrow>
    worker_step cl pre lk s (moved i w (Asked c n) ((master_of s i)\<lparr>ms_locks := ls\<rparr>) b s)"
| refused: "phase_of s i w = Waiting \<Longrightarrow> int w < mc_Runners (ms_Config (master_of s i)) \<Longrightarrow>
    SchedulerLocks_Lock (consul_locks (lk i)) (lock_name c n) (ms_locks (master_of s i), consul_of s i) = ((ls, b), Fail e p) \<Longrightarrow>
    worker_step cl pre lk s (moved i w Waiting ((master_of s i)\<lparr>ms_locks := ls\<rparr>) b s)"
| held: "phase_of s i w = Asked c n \<Longrightarrow> lookup (sl_locks (ms_locks (master_of s i))) (lock_name c n) = Some l \<Longrightarrow>
    consul_IsHeld l (consul_of s i) \<Longrightarrow>
    worker_step cl pre lk s (moved i w (Inside c n) (master_of s i) (consul_of s i) s)"
| not_held: "phase_of s i w = Asked c n \<Longrightarrow> lookup (sl_locks (ms_locks (master_of s i))) (lock_name c n) = Some l \<Longrightarrow>
    \<not> consul_IsHeld l (consul_of s i) \<Longrightarrow>
    worker_step cl pre lk s (moved i w (Leaving c n) (master_of s i) (consul_of s i) s)"
| scheduled: "phase_of s i w = Inside c n \<Longrightarrow>
    schedule_locked (consul_api cl pre) ch c n (ms_schedulers (master_of s i)) (consul_of s i) = Returns (sk, b) \<Longrightarrow>
    worker_step cl pre lk s (moved i w (Leaving c n) ((master_of s i)\<lparr>ms_schedulers := sk\<rparr>) b s)"
| released: "phase_of s i w = Leaving c n \<Longrightarrow>
    SchedulerLocks_Unlock (consul_locks (lk i)) (lock_name c n) (ms_locks (master_of s i), consul_of s i) = (ls, b) \<Longrightarrow>
    worker_step cl pre lk s (moved i w Waiting ((master_of s i)\<lparr>ms_locks := ls\<rparr>) b s)"
| notified: "lookup (sl_locks (ms_locks (master_of s i))) name = Some l \<Longrightarrow>
    worker_step cl pre lk s (moved i 0 (phase_of s i 0) ((master_of s i)\<lparr>ms_locks := \<lparr>sl_locks =
      insert_key name (consul_lock_lost l) (sl_locks (ms_locks (master_of s i)))\<rparr>\<rparr>) (consul_of s i) s)"

lemma moved_simps [simp]:
  "ws_store (moved i w ph m b s) = cs_consul b"
  "ws_process (moved i w ph m b s) i = \<lparr>pr_master = m, pr_consul = b, pr_phase = (pr_phase (ws_process s i))(w := ph)\<rparr>"
  "j \<noteq> i \<Longrightarrow> ws_process (moved i w ph m b s) j = ws_process s j"
  "consul_of (moved i w ph m b s) i = b"
  by (simp_all add: moved_def consul_of_def)

lemma moved_moved: "moved i w ph m b (moved i w ph' m' b' s) = moved i w ph m b s"
  by (simp add: moved_def)

section \<open>A request without interference\<close>

text \<open>The lock that is handed out is the one in the table.\<close>

lemma Lock_stored:
  "SchedulerLocks_Lock la name (ls, b) = ((ls', b'), Ok l) \<Longrightarrow> lookup (sl_locks ls') name = Some l"
  by (auto simp: SchedulerLocks_Lock_def lock_stored_def split: option.splits reply.splits prod.splits)

text \<open>From asking for the lock to leaving, with or without it.\<close>

lemma asked_leaves:
  assumes stored: "lookup (sl_locks (ms_locks m)) (lock_name c n) = Some l"
    and body: "(if consul_IsHeld l b then schedule_locked (consul_api cl pre) ch c n (ms_schedulers m) b
      else Returns (ms_schedulers m, b)) = Returns (sk, b')"
  shows "(worker_step cl pre lk)\<^sup>*\<^sup>* (moved i w (Asked c n) m b s) (moved i w (Leaving c n) (m\<lparr>ms_schedulers := sk\<rparr>) b' s)"
proof (cases "consul_IsHeld l b")
  case True
  let ?in = "moved i w (Inside c n) m b s"
  have "worker_step cl pre lk (moved i w (Asked c n) m b s) ?in"
    using held [of "moved i w (Asked c n) m b s" i w c n l cl pre lk] stored True by (simp add: moved_moved)
  moreover have "worker_step cl pre lk ?in (moved i w (Leaving c n) (m\<lparr>ms_schedulers := sk\<rparr>) b' s)"
    using scheduled [of ?in i w c n cl pre ch sk b' lk] body True by (simp add: moved_moved)
  ultimately show ?thesis by simp
next
  case False
  have "m\<lparr>ms_schedulers := ms_schedulers m\<rparr> = m" by simp
  with False have "worker_step cl pre lk (moved i w (Asked c n) m b s) (moved i w (Leaving c n) (m\<lparr>ms_schedulers := sk\<rparr>) b' s)"
    using not_held [of "moved i w (Asked c n) m b s" i w c n l cl pre lk] stored body by (auto simp: moved_moved)
  then show ?thesis by simp
qed


text \<open>One master with one worker over the example's store, where a request schedules two tasks.\<close>

definition cx_masters :: "(store, unit) masters" where
  "cx_masters = \<lparr>ws_store = cs_consul (cx_store []),
     ws_process = (\<lambda>i. \<lparr>pr_master = cx_master, pr_consul = cx_store [], pr_phase = (\<lambda>w. Waiting)\<rparr>)\<rparr>"


end
