(* ===== verification/Worker_Properties.thy ===== *)
theory Worker_Properties
  imports Workers
begin

text \<open>
  Mutual exclusion of the workers: what the locks of Consul give when every master has one worker, and what
  they do not give when a master has several, as it has when nothing else is asked for.
\<close>

section \<open>The locks of the library\<close>

text \<open>
  The documented behaviour of the lock objects: \<open>owner\<close> tells which process holds a key, \<open>of_lock\<close> the key
  of an object. Taking a lock succeeds only when nobody holds the key; giving it back frees at most a key
  the own process holds. Sessions do not expire in these runs.
\<close>

definition exclusive_library ::
  "(nat \<Rightarrow> ('c, 'k) consul_lock_client) \<Rightarrow> ('c \<Rightarrow> string \<Rightarrow> nat option) \<Rightarrow> ('k \<Rightarrow> string) \<Rightarrow> bool" where
  "exclusive_library lk owner of_lock \<longleftrightarrow>
     (\<forall>i key once c l. lk_Opts (lk i) key once c = Inr l \<longrightarrow> of_lock l = key) \<and>
     (\<forall>i l c l' c' got err. lk_Lock (lk i) l c = ((l', c'), got, err) \<longrightarrow> of_lock l' = of_lock l \<and>
        (if got \<and> err = None then owner c (of_lock l) = None \<and> owner c' = (owner c)(of_lock l \<mapsto> i) else owner c' = owner c)) \<and>
     (\<forall>i l c l' c' err. lk_Unlock (lk i) l c = ((l', c'), err) \<longrightarrow> of_lock l' = of_lock l \<and>
        owner c' \<in> {owner c, (owner c)(of_lock l := None)} \<and> (owner c (of_lock l) \<noteq> Some i \<longrightarrow> owner c' = owner c))"

lemma library_opts: "exclusive_library lk owner of_lock \<Longrightarrow> lk_Opts (lk i) key once c = Inr l \<Longrightarrow> of_lock l = key"
  unfolding exclusive_library_def by blast

lemma library_lock:
  assumes "exclusive_library lk owner of_lock" and "lk_Lock (lk i) l c = ((l', c'), got, err)"
  shows "of_lock l' = of_lock l" and "got \<Longrightarrow> err = None \<Longrightarrow> owner c (of_lock l) = None \<and> owner c' = (owner c)(of_lock l \<mapsto> i)"
    and "\<not> got \<or> err \<noteq> None \<Longrightarrow> owner c' = owner c"
proof -
  have "of_lock l' = of_lock l \<and>
      (if got \<and> err = None then owner c (of_lock l) = None \<and> owner c' = (owner c)(of_lock l \<mapsto> i) else owner c' = owner c)"
    using assms unfolding exclusive_library_def by blast
  then show "of_lock l' = of_lock l" and "got \<Longrightarrow> err = None \<Longrightarrow> owner c (of_lock l) = None \<and> owner c' = (owner c)(of_lock l \<mapsto> i)"
    and "\<not> got \<or> err \<noteq> None \<Longrightarrow> owner c' = owner c" by (auto split: if_splits)
qed

lemma library_unlock:
  assumes "exclusive_library lk owner of_lock" and "lk_Unlock (lk i) l c = ((l', c'), err)"
  shows "of_lock l' = of_lock l" and "owner c' \<in> {owner c, (owner c)(of_lock l := None)}"
    and "owner c (of_lock l) \<noteq> Some i \<Longrightarrow> owner c' = owner c"
  using assms unfolding exclusive_library_def by blast+

text \<open>Writing documents and registering services leaves the locks alone.\<close>

definition keeps_owners :: "'c consul_client \<Rightarrow> ('c \<Rightarrow> string \<Rightarrow> nat option) \<Rightarrow> bool" where
  "keeps_owners cl owner \<longleftrightarrow>
     (\<forall>k v c. owner (fst (kv_Put cl k v c)) = owner c) \<and> (\<forall>r c. owner (fst (ServiceRegister cl r c)) = owner c)"

definition lock_key :: "string \<Rightarrow> string" where
  "lock_key name = ''schedulers/'' @ name"

definition keyed_locks :: "('k \<Rightarrow> string) \<Rightarrow> 'k consul_lock scheduler_locks \<Rightarrow> bool" where
  "keyed_locks of_lock ls \<longleftrightarrow> (\<forall>n l. lookup (sl_locks ls) n = Some l \<longrightarrow> of_lock (kl_lock l) = lock_key n)"

text \<open>The lock objects of a table that think they are held.\<close>

definition held_names :: "'k consul_lock scheduler_locks \<Rightarrow> string set" where
  "held_names ls = {n. \<exists>l. lookup (sl_locks ls) n = Some l \<and> kl_held l}"

lemma held_names_new [simp]: "held_names NewSchedulerLocks = {}"
  by (simp add: held_names_def NewSchedulerLocks_def)

text \<open>Asking for a lock either takes nothing, or takes a key nobody held and returns without an error.\<close>

definition took ::
  "('c \<Rightarrow> string \<Rightarrow> nat option) \<Rightarrow> nat \<Rightarrow> string \<Rightarrow> 'l reply \<Rightarrow> 'k consul_lock scheduler_locks \<times> 'c consul \<Rightarrow>
   'k consul_lock scheduler_locks \<times> 'c consul \<Rightarrow> bool" where
  "took owner i name r = (\<lambda>(ls, b) (ls', b').
     (owner (cs_consul b') = owner (cs_consul b) \<and> held_names ls' = held_names ls) \<or>
     ((\<exists>l. r = Ok l) \<and> owner (cs_consul b) (lock_key name) = None \<and> owner (cs_consul b') = (owner (cs_consul b))(lock_key name \<mapsto> i) \<and>
       held_names ls' = insert name (held_names ls)))"

lemma took_frame: "took owner i name r (ls, b) (ls', b') \<Longrightarrow> owner (cs_consul b) k = Some j \<Longrightarrow> owner (cs_consul b') k = Some j"
  by (cases "k = lock_key name") (auto simp: took_def)

lemma took_held:
  "took owner i name r (ls, b) (ls', b') \<Longrightarrow>
   held_names ls' = held_names ls \<or> held_names ls' = insert name (held_names ls) \<and> owner (cs_consul b') (lock_key name) = Some i"
  unfolding took_def by auto

lemma held_names_insert:
  "held_names \<lparr>sl_locks = insert_key name l m\<rparr> =
     (if kl_held l then insert name (held_names \<lparr>sl_locks = m\<rparr>) else held_names \<lparr>sl_locks = m\<rparr> - {name})"
  by (auto simp: held_names_def)

lemma lock_stored_owner:
  assumes lib: "exclusive_library lk owner of_lock" and keyed: "keyed_locks of_lock ls"
    and st: "lock_stored (consul_locks (lk i)) name l (ls, b) = ((ls', b'), r)" and l: "of_lock (kl_lock l) = lock_key name"
    and old: "kl_held l \<longleftrightarrow> name \<in> held_names ls"
  shows "keyed_locks of_lock ls' \<and> took owner i name r (ls, b) (ls', b')"
proof -
  obtain k c got err where lock: "lk_Lock (lk i) (kl_lock l) (cs_consul b) = ((k, c), got, err)" by (metis prod.exhaust)
  note law = library_lock [OF lib lock, unfolded l]
  obtain l' where l': "ls' = \<lparr>sl_locks = insert_key name l' (sl_locks ls)\<rparr>" "cs_consul b' = c" "kl_lock l' = k"
      "kl_held l' \<longleftrightarrow> got \<and> err = None \<or> kl_held l" "err = None \<Longrightarrow> \<exists>x. r = Ok x"
    using st lock by (cases ls; cases err) (auto simp: lock_stored_def consul_locks_def consul_LockIt_def split: if_splits)
  have "keyed_locks of_lock ls'" using keyed law(1) by (simp add: keyed_locks_def l'(1-4))
  moreover have "took owner i name r (ls, b) (ls', b')"
  proof (cases "got \<and> err = None")
    case True
    then show ?thesis using law(2) l'(5) by (cases ls) (auto simp: took_def l'(1-4) held_names_insert)
  next
    case False
    then have "owner c = owner (cs_consul b)" using law(3) by blast
    then show ?thesis using False old by (cases ls) (auto simp: took_def l'(1-4) held_names_insert)
  qed
  ultimately show ?thesis by simp
qed

lemma Lock_owner:
  assumes lib: "exclusive_library lk owner of_lock" and keyed: "keyed_locks of_lock ls"
    and run: "SchedulerLocks_Lock (consul_locks (lk i)) name (ls, b) = ((ls', b'), r)"
  shows "keyed_locks of_lock ls' \<and> took owner i name r (ls, b) (ls', b')"
proof (cases "lookup (sl_locks ls) name")
  case (Some l)
  then have "lock_stored (consul_locks (lk i)) name l (ls, b) = ((ls', b'), r)" using run by (simp add: SchedulerLocks_Lock_def)
  then show ?thesis
    by (rule lock_stored_owner [OF lib keyed]) (use keyed Some in \<open>auto simp: keyed_locks_def held_names_def\<close>)
next
  case None
  show ?thesis
  proof (cases "lk_Opts (lk i) (lock_key name) True (cs_consul b)")
    case (Inl e)
    then show ?thesis using run None keyed by (simp add: SchedulerLocks_Lock_def consul_locks_def consul_Lock_def lock_key_def took_def)
  next
    case (Inr k)
    then have "lock_stored (consul_locks (lk i)) name \<lparr>kl_key = lock_key name, kl_lock = k, kl_held = False\<rparr> (ls, b) = ((ls', b'), r)"
      using run None by (simp add: SchedulerLocks_Lock_def consul_locks_def consul_Lock_def lock_key_def)
    then show ?thesis
      by (rule lock_stored_owner [OF lib keyed]) (use library_opts [OF lib Inr] None in \<open>auto simp: held_names_def\<close>)
  qed
qed

text \<open>Giving a lock back frees at most a key of the own process; the object is not held after it.\<close>

lemma Unlock_owner:
  assumes lib: "exclusive_library lk owner of_lock" and keyed: "keyed_locks of_lock ls"
    and run: "SchedulerLocks_Unlock (consul_locks (lk i)) name (ls, b) = (ls', b')"
  shows "keyed_locks of_lock ls' \<and> held_names ls' = held_names ls - {name} \<and>
    owner (cs_consul b') \<in> {owner (cs_consul b), (owner (cs_consul b))(lock_key name := None)} \<and>
    (owner (cs_consul b) (lock_key name) \<noteq> Some i \<longrightarrow> owner (cs_consul b') = owner (cs_consul b))"
proof (cases "lookup (sl_locks ls) name")
  case None
  then show ?thesis using run keyed by (auto simp: SchedulerLocks_Unlock_def held_names_def)
next
  case (Some l)
  then have l: "of_lock (kl_lock l) = lock_key name" using keyed by (simp add: keyed_locks_def)
  obtain k c err where un: "lk_Unlock (lk i) (kl_lock l) (cs_consul b) = ((k, c), err)" by (metis prod.exhaust)
  note law = library_unlock [OF lib un, unfolded l]
  have ls': "ls' = \<lparr>sl_locks = insert_key name (l\<lparr>kl_lock := k, kl_held := False\<rparr>) (sl_locks ls)\<rparr>" "cs_consul b' = c"
    using run Some un by (cases ls; auto simp: SchedulerLocks_Unlock_def consul_locks_def consul_UnlockIt_def)+
  have "held_names ls' = held_names ls - {name}" by (cases ls) (simp add: ls' held_names_insert)
  moreover have "keyed_locks of_lock ls'" using keyed law(1) by (simp add: keyed_locks_def ls')
  ultimately show ?thesis using law(2,3) by (simp add: ls')
qed

section \<open>Scheduling leaves the locks alone\<close>

lemma schedule_locked_owner:
  assumes "schedule_locked (consul_api cl pre) ch c n sk b = Returns (sk', b')" and "schedulers_ok sk" and "keeps_owners cl owner"
  shows "owner (cs_consul b') = owner (cs_consul b)"
proof -
  have "owner (cs_consul (fst (PutTask (consul_api cl pre) t s))) = owner (cs_consul s)" for t s
    using assms(3) by (simp add: keeps_owners_def consul_api_def consul_PutTask_def consul_put_def consul_register_def)
  then show ?thesis by (intro schedule_locked_backend [OF assms(1,2), where R = "\<lambda>s. owner (cs_consul s) = owner (cs_consul b)" and F = "\<lambda>_. True"]) simp_all
qed

section \<open>One worker per master\<close>

text \<open>
  What holds of a process whose master has one worker: an object that thinks it is held belongs to the
  request the worker is at, and its key to the process; inside, the key belongs to the process.
\<close>

definition process_ok ::
  "('k \<Rightarrow> string) \<Rightarrow> (string \<Rightarrow> nat option) \<Rightarrow> nat \<Rightarrow> ('c, 'k) process \<Rightarrow> bool" where
  "process_ok of_lock holder i p \<longleftrightarrow>
     keyed_locks of_lock (ms_locks (pr_master p)) \<and> schedulers_ok (ms_schedulers (pr_master p)) \<and>
     mc_Runners (ms_Config (pr_master p)) \<le> 1 \<and> (\<forall>w > 0. pr_phase p w = Waiting) \<and>
     (\<forall>name \<in> held_names (ms_locks (pr_master p)). holder (lock_key name) = Some i \<and>
        (\<exists>c n. name = lock_name c n \<and> pr_phase p 0 \<in> {Asked c n, Inside c n, Leaving c n})) \<and>
     (\<forall>c n. pr_phase p 0 = Inside c n \<longrightarrow> holder (lock_key (lock_name c n)) = Some i)"

definition excluding :: "('c \<Rightarrow> string \<Rightarrow> nat option) \<Rightarrow> ('k \<Rightarrow> string) \<Rightarrow> ('c, 'k) masters \<Rightarrow> bool" where
  "excluding owner of_lock s \<longleftrightarrow> (\<forall>i. process_ok of_lock (owner (ws_store s)) i (ws_process s i))"

lemma process_ok_mono:
  "process_ok of_lock holder j p \<Longrightarrow> (\<And>k. holder k = Some j \<Longrightarrow> holder' k = Some j) \<Longrightarrow> process_ok of_lock holder' j p"
  by (auto simp: process_ok_def)

lemma process_okD:
  assumes "process_ok of_lock holder i p"
  shows "keyed_locks of_lock (ms_locks (pr_master p))" and "schedulers_ok (ms_schedulers (pr_master p))"
    and "int w < mc_Runners (ms_Config (pr_master p)) \<Longrightarrow> w = 0" and "pr_phase p w \<noteq> Waiting \<Longrightarrow> w = 0"
    and "name \<in> held_names (ms_locks (pr_master p)) \<Longrightarrow> holder (lock_key name) = Some i"
    and "pr_phase p 0 \<in> {Asked c n, Inside c n, Leaving c n} \<Longrightarrow> held_names (ms_locks (pr_master p)) \<subseteq> {lock_name c n}"
    and "pr_phase p 0 = Waiting \<Longrightarrow> held_names (ms_locks (pr_master p)) = {}"
    and "pr_phase p 0 = Inside c n \<Longrightarrow> holder (lock_key (lock_name c n)) = Some i"
    and "name \<in> held_names (ms_locks (pr_master p)) \<Longrightarrow>
      holder (lock_key name) = Some i \<and> (\<exists>c n. name = lock_name c n \<and> pr_phase p 0 \<in> {Asked c n, Inside c n, Leaving c n})"
proof -
  show "keyed_locks of_lock (ms_locks (pr_master p))" "schedulers_ok (ms_schedulers (pr_master p))"
    "int w < mc_Runners (ms_Config (pr_master p)) \<Longrightarrow> w = 0"
    "pr_phase p w \<noteq> Waiting \<Longrightarrow> w = 0"
    using assms unfolding process_ok_def by (auto intro: ccontr)
  have name: "holder (lock_key name) = Some i \<and> (\<exists>c n. name = lock_name c n \<and> pr_phase p 0 \<in> {Asked c n, Inside c n, Leaving c n})"
    if "name \<in> held_names (ms_locks (pr_master p))" for name
    using assms that unfolding process_ok_def by blast
  then show "name \<in> held_names (ms_locks (pr_master p)) \<Longrightarrow> holder (lock_key name) = Some i" by blast
  show "name \<in> held_names (ms_locks (pr_master p)) \<Longrightarrow>
      holder (lock_key name) = Some i \<and> (\<exists>c n. name = lock_name c n \<and> pr_phase p 0 \<in> {Asked c n, Inside c n, Leaving c n})"
    by (rule name)
  show "pr_phase p 0 \<in> {Asked c n, Inside c n, Leaving c n} \<Longrightarrow> held_names (ms_locks (pr_master p)) \<subseteq> {lock_name c n}"
    using name by fastforce
  show "pr_phase p 0 = Waiting \<Longrightarrow> held_names (ms_locks (pr_master p)) = {}" using name by fastforce
  show "pr_phase p 0 = Inside c n \<Longrightarrow> holder (lock_key (lock_name c n)) = Some i" using assms unfolding process_ok_def by blast
qed

text \<open>A step keeps the invariant of the other processes if it frees none of their keys.\<close>

lemma excluding_moved:
  assumes inv: "excluding owner of_lock s" and w: "w = 0"
    and frame: "\<And>j k. j \<noteq> i \<Longrightarrow> owner (ws_store s) k = Some j \<Longrightarrow> owner (cs_consul b) k = Some j"
    and m: "keyed_locks of_lock (ms_locks m)" "schedulers_ok (ms_schedulers m)" "ms_Config m = ms_Config (master_of s i)"
    and held: "\<And>name. name \<in> held_names (ms_locks m) \<Longrightarrow>
      owner (cs_consul b) (lock_key name) = Some i \<and> (\<exists>c n. name = lock_name c n \<and> ph \<in> {Asked c n, Inside c n, Leaving c n})"
    and inside: "\<And>c n. ph = Inside c n \<Longrightarrow> owner (cs_consul b) (lock_key (lock_name c n)) = Some i"
  shows "excluding owner of_lock (moved i w ph m b s)"
  unfolding excluding_def
proof
  fix j
  have old: "process_ok of_lock (owner (ws_store s)) j (ws_process s j)" using inv by (simp add: excluding_def)
  show "process_ok of_lock (owner (ws_store (moved i w ph m b s))) j (ws_process (moved i w ph m b s) j)"
  proof (cases "j = i")
    case False
    have "process_ok of_lock (owner (cs_consul b)) j (ws_process s j)"
      by (rule process_ok_mono [OF old]) (use frame False in blast)
    with False show ?thesis by simp
  next
    case True
    let ?p = "\<lparr>pr_master = m, pr_consul = b, pr_phase = (pr_phase (ws_process s i))(w := ph)\<rparr>"
    have "\<forall>name \<in> held_names (ms_locks m). owner (cs_consul b) (lock_key name) = Some i \<and>
        (\<exists>c n. name = lock_name c n \<and> ph \<in> {Asked c n, Inside c n, Leaving c n})" using held by simp
    moreover have "mc_Runners (ms_Config (master_of s i)) \<le> 1" "\<forall>v > 0. phase_of s i v = Waiting"
      using old True unfolding process_ok_def by blast+
    ultimately have "process_ok of_lock (owner (cs_consul b)) i ?p"
      unfolding process_ok_def using m inside w by simp
    with True show ?thesis by simp
  qed
qed

lemma worker_step_excluding:
  assumes lib: "exclusive_library lk owner of_lock" and kv: "keeps_owners cl owner"
  shows "worker_step cl pre lk s s' \<Longrightarrow> excluding owner of_lock s \<Longrightarrow> excluding owner of_lock s'"
proof (induction rule: worker_step.induct)
  case (granted s i w c n ls b l)
  then have "process_ok of_lock (owner (ws_store s)) i (ws_process s i)" by (simp add: excluding_def)
  note p = process_okD [OF this]
  have w: "w = 0" using p(3) granted(2) .
  have none: "held_names (ms_locks (master_of s i)) = {}" using p(7) granted(1) w by simp
  have ls: "keyed_locks of_lock ls" "took owner i (lock_name c n) (Ok l) (ms_locks (master_of s i), consul_of s i) (ls, b)"
    using Lock_owner [OF lib p(1) granted(3)] by simp_all
  have frame: "owner (cs_consul b) k = Some j" if "owner (ws_store s) k = Some j" for j k
    using took_frame [OF ls(2)] that by (simp add: consul_of_def)
  have held: "owner (cs_consul b) (lock_key name) = Some i \<and> name = lock_name c n" if "name \<in> held_names ls" for name
    using took_held [OF ls(2)] none that by auto
  show ?case
    by (rule excluding_moved [OF granted(4) w frame]) (use ls(1) p(2) in \<open>simp_all, use held in blast\<close>)
next
  case (refused s i w c n ls b e q)
  then have "process_ok of_lock (owner (ws_store s)) i (ws_process s i)" by (simp add: excluding_def)
  note p = process_okD [OF this]
  have w: "w = 0" using p(3) refused(2) .
  have none: "held_names (ms_locks (master_of s i)) = {}" using p(7) refused(1) w by simp
  have ls: "keyed_locks of_lock ls" "took owner i (lock_name c n) (Fail e q) (ms_locks (master_of s i), consul_of s i) (ls, b)"
    using Lock_owner [OF lib p(1) refused(3)] by simp_all
  then have own: "owner (cs_consul b) = owner (ws_store s)" "held_names ls = {}" using none by (simp_all add: took_def consul_of_def)
  show ?case by (rule excluding_moved [OF refused(4) w]) (use ls(1) p(2) own in \<open>simp_all\<close>)
next
  case (held s i w c n l)
  then have "process_ok of_lock (owner (ws_store s)) i (ws_process s i)" by (simp add: excluding_def)
  note p = process_okD [OF this]
  have w: "w = 0" by (rule p(4)) (simp add: held(1))
  have name: "lock_name c n \<in> held_names (ms_locks (master_of s i))" using held(2,3) by (simp add: held_names_def consul_IsHeld_def)
  have "held_names (ms_locks (master_of s i)) \<subseteq> {lock_name c n}" using p(6) [of c n] held(1) w by simp
  then show ?case
    by (intro excluding_moved [OF held(4) w]) (use p(1,2,5) p(5) [OF name] in \<open>simp_all add: consul_of_def, blast\<close>)
next
  case (not_held s i w c n l)
  then have "process_ok of_lock (owner (ws_store s)) i (ws_process s i)" by (simp add: excluding_def)
  note p = process_okD [OF this]
  have w: "w = 0" by (rule p(4)) (simp add: not_held(1))
  have "held_names (ms_locks (master_of s i)) \<subseteq> {lock_name c n}" using p(6) [of c n] not_held(1) w by simp
  then show ?case
    by (intro excluding_moved [OF not_held(4) w]) (use p(1,2,5) in \<open>simp_all add: consul_of_def, blast\<close>)
next
  case (scheduled s i w c n ch sk b)
  then have "process_ok of_lock (owner (ws_store s)) i (ws_process s i)" by (simp add: excluding_def)
  note p = process_okD [OF this]
  have w: "w = 0" by (rule p(4)) (simp add: scheduled(1))
  have own: "owner (cs_consul b) = owner (ws_store s)" "schedulers_ok sk"
    using schedule_locked_owner [OF scheduled(2) p(2) kv] schedule_locked_ok [OF p(2) scheduled(2)] by (simp_all add: consul_of_def)
  have "held_names (ms_locks (master_of s i)) \<subseteq> {lock_name c n}" using p(6) [of c n] scheduled(1) w by simp
  then show ?case
    by (intro excluding_moved [OF scheduled(3) w]) (use p(1,5) own in \<open>simp_all, blast\<close>)
next
  case (released s i w c n ls b)
  then have "process_ok of_lock (owner (ws_store s)) i (ws_process s i)" by (simp add: excluding_def)
  note p = process_okD [OF this]
  have w: "w = 0" by (rule p(4)) (simp add: released(1))
  note un = Unlock_owner [OF lib p(1) released(2)]
  have none: "held_names ls = {}" using un p(6) [of c n] released(1) w by auto
  have frame: "owner (cs_consul b) k = Some j" if "j \<noteq> i" "owner (ws_store s) k = Some j" for j k
  proof -
    have o: "owner (cs_consul (consul_of s i)) k = Some j" using that(2) by (simp add: consul_of_def)
    show ?thesis using un o that(1) by (cases "k = lock_key (lock_name c n)") (elim conjE insertE emptyE; simp)+
  qed
  show ?case
    by (rule excluding_moved [OF released(3) w frame]) (use un p(2) in \<open>simp_all add: none\<close>)
next
  case (notified s i name l)
  then have ok: "process_ok of_lock (owner (ws_store s)) i (ws_process s i)" by (simp add: excluding_def)
  note p = process_okD [OF ok]
  let ?ls = "\<lparr>sl_locks = insert_key name (consul_lock_lost l) (sl_locks (ms_locks (master_of s i)))\<rparr>"
  have less: "held_names ?ls \<subseteq> held_names (ms_locks (master_of s i))"
    by (auto simp: held_names_def consul_lock_lost_def split: if_splits)
  have keyed: "keyed_locks of_lock ?ls"
    using p(1) notified(1) by (simp add: keyed_locks_def consul_lock_lost_def)
  have held: "owner (ws_store s) (lock_key name') = Some i \<and> (\<exists>c n. name' = lock_name c n \<and> phase_of s i 0 \<in> {Asked c n, Inside c n, Leaving c n})"
    if "name' \<in> held_names ?ls" for name'
    using process_okD(9) [OF ok] less that by blast
  show ?case
    by (rule excluding_moved [OF notified(2) refl])
      (use keyed p(2,8) in \<open>simp_all add: consul_of_def, use held in blast\<close>)
qed

text \<open>Masters that have just started.\<close>

definition fresh_masters :: "('c, 'k) masters \<Rightarrow> bool" where
  "fresh_masters s \<longleftrightarrow> (\<forall>i. ms_locks (master_of s i) = NewSchedulerLocks \<and> schedulers_ok (ms_schedulers (master_of s i)) \<and>
     (\<forall>w. phase_of s i w = Waiting))"

lemma fresh_excluding:
  assumes "fresh_masters s" and "\<forall>i. mc_Runners (ms_Config (master_of s i)) \<le> 1"
  shows "excluding owner of_lock s"
  using assms by (simp add: fresh_masters_def excluding_def process_ok_def keyed_locks_def) (simp add: NewSchedulerLocks_def)

lemma worker_steps_excluding:
  assumes "exclusive_library lk owner of_lock" and "keeps_owners cl owner"
  shows "(worker_step cl pre lk)\<^sup>*\<^sup>* s s' \<Longrightarrow> excluding owner of_lock s \<Longrightarrow> excluding owner of_lock s'"
  by (induction rule: rtranclp_induct) (use worker_step_excluding [OF assms] in blast)+

lemma excluding_inside:
  assumes "excluding owner of_lock s" and "phase_of s i v = Inside c n"
  shows "v = 0 \<and> owner (ws_store s) (lock_key (lock_name c n)) = Some i"
proof -
  have ok: "process_ok of_lock (owner (ws_store s)) i (ws_process s i)" using assms(1) by (simp add: excluding_def)
  have "v = 0" by (rule process_okD(4) [OF ok]) (simp add: assms(2))
  then show ?thesis using process_okD(8) [OF ok] assms(2) by simp
qed

text \<open>
  C8. When every master has one worker and the library's locks exclude one another, then however the steps
  of the workers interleave, also with late notices of earlier holds, at most one worker in the cluster is
  inside the scheduling of a deployment.
\<close>

theorem one_worker_excludes:
  assumes "exclusive_library lk owner of_lock" and "keeps_owners cl owner" and "fresh_masters s"
    and "\<forall>i. mc_Runners (ms_Config (master_of s i)) \<le> 1" and "(worker_step cl pre lk)\<^sup>*\<^sup>* s s'"
    and "phase_of s' i v = Inside c n" and "phase_of s' j w = Inside c' n'" and "lock_name c n = lock_name c' n'"
  shows "i = j \<and> v = w"
proof -
  have "excluding owner of_lock s'"
    using worker_steps_excluding [OF assms(1,2,5)] fresh_excluding [OF assms(3,4)] by blast
  from excluding_inside [OF this assms(6)] excluding_inside [OF this assms(7)] show ?thesis using assms(8) by simp
qed

section \<open>A library to compute with\<close>

text \<open>Consul with a table of the processes that hold its keys.\<close>

type_synonym locking_store = "store \<times> (string, nat) gomap"

definition locking_consul :: "locking_store consul_client" where
  "locking_consul = \<lparr>
     kv_Get = (\<lambda>k c. kv_Get local_consul k (fst c)), kv_Put = (\<lambda>k v c. ((insert_key k v (fst c), snd c), None)),
     kv_Delete = (\<lambda>k c. ((delete_key k (fst c), snd c), None)), kv_List = (\<lambda>p c. kv_List local_consul p (fst c)),
     NodeName = (\<lambda>c. Inr ''node''), Checks = (\<lambda>n c. Inr []),
     ServiceRegister = (\<lambda>r c. (c, None)), ServiceDeregister = (\<lambda>i c. (c, None))\<rparr>"

definition session_locks :: "nat \<Rightarrow> (locking_store, string) consul_lock_client" where
  "session_locks i = \<lparr>
     lk_Opts = (\<lambda>key once c. Inr key),
     lk_Lock = (\<lambda>l (d, ow). case lookup ow l of
        None \<Rightarrow> ((l, (d, insert_key l i ow)), True, None)
      | Some j \<Rightarrow> ((l, (d, ow)), False, if j = i then Some (OtherError ''Lock already held'') else None)),
     lk_Unlock = (\<lambda>l (d, ow). if lookup ow l = Some i then ((l, (d, delete_key l ow)), None)
        else ((l, (d, ow)), Some (OtherError ''Lock not held'')))\<rparr>"

definition key_owner :: "locking_store \<Rightarrow> string \<Rightarrow> nat option" where
  "key_owner c = lookup (snd c)"

lemma session_locks_exclusive: "exclusive_library session_locks key_owner (\<lambda>l. l)"
  by (auto simp: exclusive_library_def session_locks_def key_owner_def split: option.splits if_splits)

lemma locking_consul_keeps: "keeps_owners locking_consul key_owner"
  by (simp add: keeps_owners_def locking_consul_def key_owner_def)

text \<open>Masters started with so many runners, over an empty store.\<close>

definition started_masters :: "int \<Rightarrow> (locking_store, string) masters" where
  "started_masters r = \<lparr>ws_store = ([], []), ws_process = (\<lambda>i. \<lparr>
     pr_master = Master_Run_setup 0 (NewMaster \<lparr>mc_Runners = r, mc_SyncInterval = 0, mc_Cluster = ''default''\<rparr>),
     pr_consul = NewConsulApi ([], []), pr_phase = (\<lambda>w. Waiting)\<rparr>)\<rparr>"

lemma started_fresh: "fresh_masters (started_masters r)"
  using schedulers_ok_setup
  by (simp add: fresh_masters_def started_masters_def) (simp add: Master_Run_setup_def NewMaster_def)

text \<open>
  What matters of a state for one deployment: who owns the key, what each process's object believes, and
  the phases of the workers.
\<close>

definition looks_like ::
  "string \<Rightarrow> int \<Rightarrow> nat option \<Rightarrow> (nat \<Rightarrow> bool option) \<Rightarrow> (nat \<Rightarrow> nat \<Rightarrow> phase) \<Rightarrow> (locking_store, string) masters \<Rightarrow> bool" where
  "looks_like name r ow h F s \<longleftrightarrow>
     fst (ws_store s) = [] \<and> key_owner (ws_store s) (lock_key name) = ow \<and>
     (\<forall>i. keyed_locks (\<lambda>l. l) (ms_locks (master_of s i)) \<and>
        map_option kl_held (lookup (sl_locks (ms_locks (master_of s i))) name) = h i \<and>
        mc_Runners (ms_Config (master_of s i)) = r \<and> pr_phase (ws_process s i) = F i)"

lemma looks_likeD:
  assumes "looks_like name r ow h F s"
  shows "fst (ws_store s) = []" "lookup (snd (ws_store s)) (lock_key name) = ow" "keyed_locks (\<lambda>l. l) (ms_locks (master_of s i))"
    "map_option kl_held (lookup (sl_locks (ms_locks (master_of s i))) name) = h i"
    "mc_Runners (ms_Config (master_of s i)) = r" "phase_of s i w = F i w" "cs_consul (consul_of s i) = ws_store s"
  using assms by (simp_all add: looks_like_def key_owner_def consul_of_def)

lemma looks_like_moved:
  assumes "looks_like name r ow h F s" and "cs_consul b = ([], os)" and "lookup os (lock_key name) = ow'"
    and "keyed_locks (\<lambda>l. l) (ms_locks m)" and "map_option kl_held (lookup (sl_locks (ms_locks m)) name) = x"
    and "ms_Config m = ms_Config (master_of s i)"
  shows "looks_like name r ow' (h(i := x)) (F(i := (F i)(w := ph))) (moved i w ph m b s)"
  using assms unfolding looks_like_def key_owner_def by (auto simp: moved_def)

lemma started_looks: "r \<noteq> 0 \<Longrightarrow> looks_like name r None (\<lambda>i. None) (\<lambda>i w. Waiting) (started_masters r)"
  "looks_like name 3 None (\<lambda>i. None) (\<lambda>i w. Waiting) (started_masters 0)"
  by (simp_all add: looks_like_def started_masters_def key_owner_def Master_Run_setup_def NewMaster_def run_defaults_def
      keyed_locks_def NewSchedulerLocks_def)

abbreviation moves :: "(locking_store, string) masters \<Rightarrow> (locking_store, string) masters \<Rightarrow> bool" where
  "moves \<equiv> worker_step locking_consul ''sked'' session_locks"

lemma ask_free:
  assumes v: "looks_like (lock_name c n) r None h F s" and w: "F i w = Waiting" "int w < r"
  shows "\<exists>s'. moves s s' \<and> looks_like (lock_name c n) r (Some i) (h(i := Some True)) (F(i := (F i)(w := Asked c n))) s'"
proof -
  note d = looks_likeD [OF v]
  let ?name = "lock_name c n" and ?ls = "ms_locks (master_of s i)"
  obtain ow where st: "ws_store s = ([], ow)" "lookup ow (lock_key ?name) = None" using d(1,2) by (cases "ws_store s") simp
  obtain l b where lock: "SchedulerLocks_Lock (consul_locks (session_locks i)) ?name (?ls, consul_of s i) =
      ((\<lparr>sl_locks = insert_key ?name l (sl_locks ?ls)\<rparr>, b), Ok l)" and l: "kl_lock l = lock_key ?name" "kl_held l"
      and b: "cs_consul b = ([], insert_key (lock_key ?name) i ow)"
  proof (cases "lookup (sl_locks ?ls) ?name")
    case None
    then show ?thesis using that st d(7) [of i]
      by (cases ?ls) (simp add: SchedulerLocks_Lock_def consul_locks_def consul_Lock_def lock_stored_def consul_LockIt_def session_locks_def lock_key_def)
  next
    case (Some l)
    then have "kl_lock l = lock_key ?name" using d(3) by (simp add: keyed_locks_def)
    then show ?thesis using that st Some d(7) [of i]
      by (cases ?ls) (simp add: SchedulerLocks_Lock_def consul_locks_def lock_stored_def consul_LockIt_def session_locks_def)
  qed
  have "moves s (moved i w (Asked c n) ((master_of s i)\<lparr>ms_locks := \<lparr>sl_locks = insert_key ?name l (sl_locks ?ls)\<rparr>\<rparr>) b s)"
    by (rule granted [where lk = session_locks, OF _ _ lock]) (simp_all add: d w)
  moreover have "looks_like ?name r (Some i) (h(i := Some True)) (F(i := (F i)(w := Asked c n)))
      (moved i w (Asked c n) ((master_of s i)\<lparr>ms_locks := \<lparr>sl_locks = insert_key ?name l (sl_locks ?ls)\<rparr>\<rparr>) b s)"
    by (rule looks_like_moved [OF v b]) (use d(3) l in \<open>simp_all add: keyed_locks_def\<close>)
  ultimately show ?thesis by blast
qed

lemma ask_taken:
  assumes v: "looks_like (lock_name c n) r (Some j) h F s" and w: "F i w = Waiting" "int w < r" and j: "j \<noteq> i" and h: "h i = None"
  shows "\<exists>s'. moves s s' \<and> looks_like (lock_name c n) r (Some j) (h(i := Some False)) (F(i := (F i)(w := Asked c n))) s'"
proof -
  note d = looks_likeD [OF v]
  let ?name = "lock_name c n" and ?ls = "ms_locks (master_of s i)"
  obtain ow where st: "ws_store s = ([], ow)" "lookup ow (lock_key ?name) = Some j" using d(1,2) by (cases "ws_store s") simp
  obtain l b where lock: "SchedulerLocks_Lock (consul_locks (session_locks i)) ?name (?ls, consul_of s i) =
      ((\<lparr>sl_locks = insert_key ?name l (sl_locks ?ls)\<rparr>, b), Ok l)" and l: "kl_lock l = lock_key ?name" "\<not> kl_held l"
      and b: "cs_consul b = ([], ow)"
    using st d(7) [of i] d(4) [of i] h j that
    by (cases ?ls) (simp add: SchedulerLocks_Lock_def consul_locks_def consul_Lock_def lock_stored_def consul_LockIt_def session_locks_def lock_key_def)
  have "moves s (moved i w (Asked c n) ((master_of s i)\<lparr>ms_locks := \<lparr>sl_locks = insert_key ?name l (sl_locks ?ls)\<rparr>\<rparr>) b s)"
    by (rule granted [where lk = session_locks, OF _ _ lock]) (simp_all add: d w)
  moreover have "looks_like ?name r (Some j) (h(i := Some False)) (F(i := (F i)(w := Asked c n)))
      (moved i w (Asked c n) ((master_of s i)\<lparr>ms_locks := \<lparr>sl_locks = insert_key ?name l (sl_locks ?ls)\<rparr>\<rparr>) b s)"
    by (rule looks_like_moved [OF v b]) (use d(3) l st in \<open>simp_all add: keyed_locks_def\<close>)
  ultimately show ?thesis by blast
qed

lemma look:
  assumes v: "looks_like (lock_name c n) r ow h F s" and w: "F i w = Asked c n" and h: "h i = Some x"
  shows "\<exists>s'. moves s s' \<and> looks_like (lock_name c n) r ow h (F(i := (F i)(w := if x then Inside c n else Leaving c n))) s'"
proof -
  note d = looks_likeD [OF v]
  obtain os where st: "ws_store s = ([], os)" "lookup os (lock_key (lock_name c n)) = ow" using d(1,2) by (cases "ws_store s") simp
  obtain l where l: "lookup (sl_locks (ms_locks (master_of s i))) (lock_name c n) = Some l" "kl_held l = x" using d(4) [of i] h by auto
  let ?s = "moved i w (if x then Inside c n else Leaving c n) (master_of s i) (consul_of s i) s"
  have "moves s ?s"
  proof (cases x)
    case True
    then show ?thesis using held [OF _ l(1)] l(2) d w by (simp add: consul_IsHeld_def)
  next
    case False
    then show ?thesis using not_held [OF _ l(1)] l(2) d w by (simp add: consul_IsHeld_def)
  qed
  moreover have "looks_like (lock_name c n) r ow (h(i := h i)) (F(i := (F i)(w := if x then Inside c n else Leaving c n))) ?s"
    by (rule looks_like_moved [OF v, where os = os]) (use d(3,4,7) st in \<open>simp_all\<close>)
  ultimately show ?thesis by auto
qed

lemma run_inside:
  assumes v: "looks_like (lock_name c n) r ow h F s" and w: "F i w = Inside c n"
  shows "\<exists>s'. moves s s' \<and> looks_like (lock_name c n) r ow h (F(i := (F i)(w := Leaving c n))) s'"
proof -
  note d = looks_likeD [OF v]
  obtain os where st: "ws_store s = ([], os)" "lookup os (lock_key (lock_name c n)) = ow" using d(1,2) by (cases "ws_store s") simp
  have "schedule_locked (consul_api locking_consul ''sked'') ch c n (ms_schedulers (master_of s i)) (consul_of s i) =
      Returns (ms_schedulers (master_of s i), consul_of s i)" for ch
    using st d(7) [of i] by (simp add: schedule_locked_def consul_api_def consul_GetCluster_def consul_read_def consul_get_def
        locking_consul_def local_consul_def)
  then have "moves s (moved i w (Leaving c n) ((master_of s i)\<lparr>ms_schedulers := ms_schedulers (master_of s i)\<rparr>) (consul_of s i) s)"
    by (intro scheduled) (use d w in simp_all)
  moreover have "looks_like (lock_name c n) r ow (h(i := h i)) (F(i := (F i)(w := Leaving c n)))
      (moved i w (Leaving c n) ((master_of s i)\<lparr>ms_schedulers := ms_schedulers (master_of s i)\<rparr>) (consul_of s i) s)"
    by (rule looks_like_moved [OF v, where os = os]) (use d(3,4,7) st in \<open>simp_all\<close>)
  ultimately show ?thesis by auto
qed

lemma give_back:
  assumes v: "looks_like (lock_name c n) r (Some i) h F s" and w: "F i w = Leaving c n" and h: "h i = Some x"
  shows "\<exists>s'. moves s s' \<and> looks_like (lock_name c n) r None (h(i := Some False)) (F(i := (F i)(w := Waiting))) s'"
proof -
  note d = looks_likeD [OF v]
  let ?name = "lock_name c n" and ?ls = "ms_locks (master_of s i)"
  obtain ow where st: "ws_store s = ([], ow)" "lookup ow (lock_key ?name) = Some i" using d(1,2) by (cases "ws_store s") simp
  obtain l where l: "lookup (sl_locks ?ls) ?name = Some l" using d(4) [of i] h by auto
  then have key: "kl_lock l = lock_key ?name" using d(3) by (simp add: keyed_locks_def)
  let ?l = "l\<lparr>kl_lock := lock_key ?name, kl_held := False\<rparr>"
  obtain b where un: "SchedulerLocks_Unlock (consul_locks (session_locks i)) ?name (?ls, consul_of s i) =
      (\<lparr>sl_locks = insert_key ?name ?l (sl_locks ?ls)\<rparr>, b)" and b: "cs_consul b = ([], delete_key (lock_key ?name) ow)"
    using st l key d(7) [of i] that
    by (cases ?ls) (simp add: SchedulerLocks_Unlock_def consul_locks_def consul_UnlockIt_def session_locks_def)
  have "moves s (moved i w Waiting ((master_of s i)\<lparr>ms_locks := \<lparr>sl_locks = insert_key ?name ?l (sl_locks ?ls)\<rparr>\<rparr>) b s)"
    by (rule released [where lk = session_locks, OF _ un]) (simp add: d w)
  moreover have "looks_like ?name r None (h(i := Some False)) (F(i := (F i)(w := Waiting)))
      (moved i w Waiting ((master_of s i)\<lparr>ms_locks := \<lparr>sl_locks = insert_key ?name ?l (sl_locks ?ls)\<rparr>\<rparr>) b s)"
    by (rule looks_like_moved [OF v b]) (use d(3) in \<open>simp_all add: keyed_locks_def\<close>)
  ultimately show ?thesis by blast
qed

theorem one_worker_excludes_witness:
  "\<exists>s'. (worker_step locking_consul ''sked'' session_locks)\<^sup>*\<^sup>* (started_masters 1) s' \<and>
     phase_of s' 0 0 = Inside ''c'' ''d'' \<and> phase_of s' 1 0 \<noteq> Inside ''c'' ''d''"
proof -
  have v: "looks_like (lock_name ''c'' ''d'') 1 None (\<lambda>i. None) (\<lambda>i w. Waiting) (started_masters 1)" by (rule started_looks) simp
  obtain s1 where s1: "moves (started_masters 1) s1" "looks_like (lock_name ''c'' ''d'') 1 (Some 0) ((\<lambda>i. None)(0 := Some True))
      ((\<lambda>i w. Waiting)(0 := (\<lambda>w. Waiting)(0 := Asked ''c'' ''d''))) s1"
    using ask_free [OF v, of 0 0] by auto
  obtain s2 where s2: "moves s1 s2" "phase_of s2 0 0 = Inside ''c'' ''d''"
    using look [OF s1(2), of 0 0 True] by (auto dest: looks_likeD(6) [where i = 0 and w = 0])
  have run: "moves\<^sup>*\<^sup>* (started_masters 1) s2" using s1(1) s2(1) by simp
  have one: "\<forall>i. mc_Runners (ms_Config (master_of (started_masters 1) i)) \<le> 1" using looks_likeD(5) [OF v] by simp
  have "phase_of s2 1 0 \<noteq> Inside ''c'' ''d''"
    using one_worker_excludes [OF session_locks_exclusive locking_consul_keeps started_fresh one run s2(2), of 1 0] by auto
  with run s2(2) show ?thesis by blast
qed

text \<open>The states the default masters can come to, by what matters of them.\<close>

definition reached :: "string \<Rightarrow> string \<Rightarrow> nat option \<Rightarrow> (nat \<Rightarrow> bool option) \<Rightarrow> (nat \<Rightarrow> nat \<Rightarrow> phase) \<Rightarrow> bool" where
  "reached c n ow h F \<longleftrightarrow> (\<exists>s. moves\<^sup>*\<^sup>* (started_masters 0) s \<and> looks_like (lock_name c n) 3 ow h F s)"

lemma reached_step:
  assumes "reached c n ow h F"
    and "\<And>s. looks_like (lock_name c n) 3 ow h F s \<Longrightarrow> \<exists>s'. moves s s' \<and> looks_like (lock_name c n) 3 ow' h' F' s'"
  shows "reached c n ow' h' F'"
  using assms unfolding reached_def by (meson rtranclp.rtrancl_into_rtrancl)

lemma reached_start: "reached c n None (\<lambda>i. None) (\<lambda>i w. Waiting)"
  unfolding reached_def using started_looks(2) by blast

lemma reached_ask_free:
  "reached c n None h F \<Longrightarrow> F i w = Waiting \<Longrightarrow> int w < 3 \<Longrightarrow>
   reached c n (Some i) (h(i := Some True)) (F(i := (F i)(w := Asked c n)))"
  by (erule reached_step) (rule ask_free)

lemma reached_ask_taken:
  "reached c n (Some j) h F \<Longrightarrow> F i w = Waiting \<Longrightarrow> int w < 3 \<Longrightarrow> j \<noteq> i \<Longrightarrow> h i = None \<Longrightarrow>
   reached c n (Some j) (h(i := Some False)) (F(i := (F i)(w := Asked c n)))"
  by (erule reached_step) (rule ask_taken)

lemma reached_look:
  "reached c n ow h F \<Longrightarrow> F i w = Asked c n \<Longrightarrow> h i = Some x \<Longrightarrow>
   reached c n ow h (F(i := (F i)(w := if x then Inside c n else Leaving c n)))"
  by (erule reached_step) (rule look)

lemma reached_run_inside: "reached c n ow h F \<Longrightarrow> F i w = Inside c n \<Longrightarrow> reached c n ow h (F(i := (F i)(w := Leaving c n)))"
  by (erule reached_step) (rule run_inside)

lemma reached_give_back:
  "reached c n (Some i) h F \<Longrightarrow> F i w = Leaving c n \<Longrightarrow> h i = Some x \<Longrightarrow>
   reached c n None (h(i := Some False)) (F(i := (F i)(w := Waiting)))"
  by (erule reached_step) (rule give_back)

text \<open>
  C9. A master started without a number of runners has three workers, and then the lock does not exclude:
  with locks that exclude one another as the library's do, two masters come to be inside the scheduling of one
  deployment at once. The worker that did not get the lock gives it back all the same, and what it gives
  back is the lock another worker of its process took meanwhile.
\<close>

theorem workers_collide:
  "exclusive_library session_locks key_owner (\<lambda>l. l) \<and> keeps_owners locking_consul key_owner \<and> fresh_masters (started_masters 0) \<and>
   (\<exists>s'. (worker_step locking_consul ''sked'' session_locks)\<^sup>*\<^sup>* (started_masters 0) s' \<and>
      phase_of s' 0 1 = Inside c n \<and> phase_of s' 1 0 = Inside c n)"
proof -
  note a = reached_start [of c n]
  note a = reached_ask_free [OF a, where i = 1 and w = 0, simplified]
  note a = reached_look [OF a, where i = 1 and w = 0 and x = True, simplified]
  note a = reached_ask_taken [OF a, where i = 0 and w = 0, simplified]
  note a = reached_look [OF a, where i = 0 and w = 0 and x = False, simplified]
  note a = reached_run_inside [OF a, where i = 1 and w = 0, simplified]
  note a = reached_give_back [OF a, where w = 0 and x = True, simplified]
  note a = reached_ask_free [OF a, where i = 0 and w = 1, simplified]
  note a = reached_look [OF a, where i = 0 and w = 1 and x = True, simplified]
  note a = reached_give_back [OF a, where w = 0 and x = True, simplified]
  note a = reached_ask_free [OF a, where i = 1 and w = 0, simplified]
  note a = reached_look [OF a, where i = 1 and w = 0 and x = True, simplified]
  from a obtain s' where run: "moves\<^sup>*\<^sup>* (started_masters 0) s'" and s': "looks_like (lock_name c n) 3 (Some 1)
      [0 \<mapsto> False, 1 \<mapsto> True] ((\<lambda>i w. Waiting)(0 := (\<lambda>w. Waiting)(1 := Inside c n, 0 := Waiting), 1 := (\<lambda>w. Waiting)(0 := Inside c n))) s'"
    unfolding reached_def by auto
  from run looks_likeD(6) [OF s', of 0 1] looks_likeD(6) [OF s', of 1 0] show ?thesis
    using session_locks_exclusive locking_consul_keeps started_fresh by auto
qed

end
