(* ===== verification/Overbooking.thy ===== *)
theory Overbooking
  imports Consul_Schedule Reconcile
begin

text \<open>
  Two calls of \<open>Schedule\<close> between two publications of a host (src/scheduler/scheduler.go over
  src/backends/consul/consul_api.go). What a call takes from a host it takes from its own copy; the next
  call reads the host as the agent published it.
\<close>

section \<open>A call with one host\<close>

lemma one_host_sync:
  assumes "syncHosts api b s = Returns (None, s1)" and "ds_cluster s = Some cs" and "ListHosts api (cl_Name cs) b = Ok [h]"
    and "\<not> ho_Draining h" and "dom (lookup (ds_hosts s)) \<subseteq> {ho_Name h}"
  shows "lookup (ds_hosts s1) = [ho_Name h \<mapsto> h]"
proof -
  have "lookup (ds_hosts s1) = (lookup (ds_hosts s))(ho_Name h \<mapsto> h)"
    using assms(1) by (rule syncHosts_run) (use assms(2-4) in \<open>simp add: sync_host_def\<close>)
  moreover have "(lookup (ds_hosts s)) n = None" if "n \<noteq> ho_Name h" for n using assms(5) that by (auto simp: dom_def)
  ultimately show ?thesis by (simp add: fun_eq_iff)
qed

lemma one_host_syncs:
  assumes "ds_cluster s = Some cs" and "ListHosts api (cl_Name cs) b = Ok [h]"
  shows "\<exists>s1. syncHosts api b s = Returns (None, s1)"
  using assms by (simp add: syncHosts_def)

text \<open>The desired number is reached, every task of the deployment stands on the host, and no other host is known.\<close>

lemma one_host_call:
  assumes run: "Schedule (consul_api cl pre) ch d s b = Returns (None, s', b')" and good: "consul_good cl view pre b"
    and keyed: "hosts_keyed s" and cs: "ds_cluster s = Some cs" and named: "named cs d" and small: "small_deployment d"
    and hosts: "ListHosts (consul_api cl pre) (cl_Name cs) b = Ok [h]" "\<not> ho_Draining h" "ho_Name h \<noteq> ''''"
      "dom (lookup (ds_hosts s)) \<subseteq> {ho_Name h}"
    and td: "GetTaskDefinition (consul_api cl pre) (dp_TaskName d) (dp_TaskVersion d) b = Ok td" "td_Version td = dp_TaskVersion d"
    and room: "room_for td (dp_Desired d) h" "modest td" "0 \<le> dp_Desired d"
  shows "dp_Desired d \<le> int (card (dom (issued cs d (stored_task view pre b'))))"
    and "issued cs d (stored_task view pre b') k = Some t \<Longrightarrow> tk_Host t = ho_Name h"
    and "dom (lookup (ds_hosts s')) \<subseteq> {ho_Name h}"
proof -
  obtain s1 where sync: "syncHosts (consul_api cl pre) b s = Returns (None, s1)" using one_host_syncs [OF cs hosts(1)] by blast
  have s1: "lookup (ds_hosts s1) = [ho_Name h \<mapsto> h]" by (rule one_host_sync [OF sync cs hosts(1,2,4)])
  note call = run good keyed cs named small
  have "roomy td (dp_Desired d) s1" using room(1) hosts(3) by (simp add: roomy_def s1)
  then show "dp_Desired d \<le> int (card (dom (issued cs d (stored_task view pre b'))))"
    using consul_tasks.Schedule_reaches_desired [OF call sync td(1)] room(2,3) td(2) by blast
  have "in_stock (rs_Memory \<circ> ho_CalculatedResources) (ds_hosts s1)" using room(1) by (simp add: in_stock_def s1 room_for_def Let_def)
  then have "covers (rs_Memory \<circ> ho_CalculatedResources) ((cn_Memory \<circ> Counts) td) (ds_hosts s1) (ds_hosts s')
      (new_on cs d (stored_task view pre b) (stored_task view pre b'))"
    using consul_tasks.Schedule_covers [OF call td(1) sync charged_resources(1)] room(2) by (simp add: modest_def)
  then show dom: "dom (lookup (ds_hosts s')) \<subseteq> {ho_Name h}" by (auto simp: covers_def s1 split: if_splits)
  assume "issued cs d (stored_task view pre b') k = Some t"
  from consul_tasks.Schedule_in_place [OF call this] dom show "tk_Host t = ho_Name h" by (auto simp: in_place_def host_gone_def)
qed

section \<open>Two calls\<close>

text \<open>The scheduled tasks of a deployment that stand on a host.\<close>

definition tasks_on :: "cluster \<Rightarrow> deployment \<Rightarrow> string \<Rightarrow> (string \<Rightarrow> task option) \<Rightarrow> string set" where
  "tasks_on cs d n v = {k. \<exists>t. issued cs d v k = Some t \<and> tk_Host t = n}"

text \<open>
  C12. Calls for two deployments between two publications of a host both find the room it last published:
  when each deployment alone fits on the only host, after both calls the desired numbers of both stand
  there, whether or not they fit together.
\<close>

theorem room_promised_twice:
  assumes "consul_good cl view pre b" and "hosts_keyed s" and "cl_Name cs \<noteq> ''''"
    and "ListHosts (consul_api cl pre) (cl_Name cs) b = Ok [h]" and "\<not> ho_Draining h" and "ho_Name h \<noteq> ''''"
    and "dom (lookup (ds_hosts s)) \<subseteq> {ho_Name h}"
    and "dp_Name d \<noteq> ''''" and "dp_Name e \<noteq> ''''" and "dp_Name d \<noteq> dp_Name e"
    and "small_deployment d" and "small_deployment e" and "0 \<le> dp_Desired d" and "0 \<le> dp_Desired e"
    and "GetTaskDefinition (consul_api cl pre) (dp_TaskName d) (dp_TaskVersion d) b = Ok td" and "td_Version td = dp_TaskVersion d"
    and "GetTaskDefinition (consul_api cl pre) (dp_TaskName e) (dp_TaskVersion e) b = Ok te" and "td_Version te = dp_TaskVersion e"
    and "modest td" and "modest te" and "room_for td (dp_Desired d) h" and "room_for te (dp_Desired e) h"
    and "Schedule (consul_api cl pre) ch d (SetCluster cs s) b = Returns (None, s1, b1)"
    and "Schedule (consul_api cl pre) ch' e (SetCluster cs s1) b1 = Returns (None, s2, b2)"
    and "\<forall>i. stored_task view pre b1 (task_ID (NewTask cs te e i)) = None"
  shows "dp_Desired d \<le> int (card (tasks_on cs d (ho_Name h) (stored_task view pre b2))) \<and>
    dp_Desired e \<le> int (card (tasks_on cs e (ho_Name h) (stored_task view pre b2)))"
proof -
  have names: "named cs d" "named cs e" using assms by (simp_all add: named_def)
  have set: "ds_cluster (SetCluster cs s) = Some cs" "ds_hosts (SetCluster cs s) = ds_hosts s" for s by (simp_all add: SetCluster_def)
  have k0: "hosts_keyed (SetCluster cs s)" using assms(2) by simp
  note call1 = assms(23,1) k0 set(1) names(1) assms(11)
  have d0: "dom (lookup (ds_hosts (SetCluster cs s))) \<subseteq> {ho_Name h}" using assms(7) by (simp add: set)
  note one = one_host_call [OF call1 assms(4,5,6) d0 assms(15,16,21,19,13)]
  have same: "consul_good cl view pre b1" "ListHosts (consul_api cl pre) (cl_Name cs) b1 = Ok [h]"
      "GetTaskDefinition (consul_api cl pre) (dp_TaskName e) (dp_TaskVersion e) b1 = Ok te"
    using consul_tasks.Schedule_config [OF call1] assms(4,17) by auto
  have k1: "hosts_keyed (SetCluster cs s1)" using Schedule_keyed [OF assms(23) k0] by simp
  note call2 = assms(24) same(1) k1 set(1) names(2) assms(12)
  have d1: "dom (lookup (ds_hosts (SetCluster cs s1))) \<subseteq> {ho_Name h}" using one(3) by (simp add: set)
  note two = one_host_call [OF call2 same(2) assms(5,6) d1 same(3) assms(18,22,20,14)]
  let ?v1 = "stored_task view pre b1" and ?v2 = "stored_task view pre b2"
  have kept: "issued cs d ?v2 = issued cs d ?v1"
  proof
    fix k
    show "issued cs d ?v2 k = issued cs d ?v1 k"
    proof (cases "?v2 k = ?v1 k")
      case False
      from consul_tasks.Schedule_frame [OF call2 same(3) False] obtain t where t: "?v2 k = Some t" "own cs e t"
        and k: "issued cs e ?v1 k \<noteq> None \<or> (\<exists>i. k = task_ID (NewTask cs te e i))" by blast
      have "issued cs d ?v1 k = None"
        using k assms(10,25) by (auto simp: own_def issued_def split: option.splits if_splits)
      moreover have "issued cs d ?v2 k = None" using t assms(10) by (simp add: own_def issued_def)
      ultimately show ?thesis by simp
    qed (simp add: issued_def)
  qed
  have "tasks_on cs d (ho_Name h) ?v2 = dom (issued cs d ?v1)" using one(2) by (auto simp: tasks_on_def kept)
  moreover have "tasks_on cs e (ho_Name h) ?v2 = dom (issued cs e ?v2)" using two(2) by (auto simp: tasks_on_def)
  ultimately show ?thesis using one(1) two(1) by simp
qed

text \<open>Two deployments of ten tasks with a hundred units each on a host with a thousand.\<close>

definition cx_other :: "int \<Rightarrow> deployment" where "cx_other n = (ex_deployment n)\<lparr>dp_Name := ''e''\<rparr>"

lemma cx_calls_again:
  assumes good: "consul_good local_consul lookup ''sked'' b" and keyed: "hosts_keyed s"
    and hosts: "ListHosts (consul_api local_consul ''sked'') ''c'' b = Ok [ex_host ''h'' 1000]"
    and td: "GetTaskDefinition (consul_api local_consul ''sked'') (dp_TaskName d) (dp_TaskVersion d) b = Ok cx_definition"
    and d: "dp_Name d \<noteq> ''''"
  shows "\<exists>s' b'. Schedule (consul_api local_consul ''sked'') ex_choices d (SetCluster ex_cluster s) b = Returns (None, s', b')"
proof -
  obtain us where "ListTasks (consul_api local_consul ''sked'') (list_query ex_cluster d) b = Ok us"
    using consul_tasks.ListTasks_selects [OF good, of "list_query ex_cluster d"] by (auto simp: list_query_def any_task_def)
  moreover have "ListHosts (consul_api local_consul ''sked'') (cl_Name ex_cluster) b = Ok [ex_host ''h'' 1000]"
    using hosts by (simp add: ex_cluster_def)
  moreover have "searchable cx_definition s" for s
    by (simp add: searchable_def task_ports_def cx_definition_def cx_container_def ex_definition_def ex_container_def)
  moreover have "fold sync_host [ex_host ''h'' 1000] (ds_hosts (SetCluster ex_cluster s)) \<noteq> []"
    using sync_hosts_nonempty [of "[ex_host ''h'' 1000]"] by (simp add: ex_host_def)
  moreover have "ds_cluster (SetCluster ex_cluster s) = Some ex_cluster" "hosts_keyed (SetCluster ex_cluster s)"
    using keyed by (simp_all add: SetCluster_def hosts_keyed_def)
  ultimately show ?thesis
    using Schedule_ends [of "SetCluster ex_cluster s" ex_cluster "consul_api local_consul ''sked''" b "[ex_host ''h'' 1000]" d us ex_choices]
    by (auto simp: td found_def)
qed

lemma cx_room: "room_for cx_definition 10 (ex_host ''h'' 1000)" "modest cx_definition" "td_Version cx_definition = 1"
  by (simp_all add: room_for_def modest_def cx_definition_def cx_container_def ex_eval)

lemma cx_other_ids: "task_ID (NewTask ex_cluster td (cx_other n) i) \<noteq> task_ID (NewTask ex_cluster td' (ex_deployment m) j)"
  by (simp add: task_ID_def task_Name_def NewTask_def cx_other_def ex_cluster_def ex_deployment_def)

theorem room_promised_twice_witness:
  "\<exists>s1 b1 s2 b2. Schedule (consul_api local_consul ''sked'') ex_choices (ex_deployment 10) (SetCluster ex_cluster NewDefaultScheduler) (cx_store []) =
      Returns (None, s1, b1) \<and>
    Schedule (consul_api local_consul ''sked'') ex_choices (cx_other 10) (SetCluster ex_cluster s1) b1 = Returns (None, s2, b2) \<and>
    rs_Memory (ho_CalculatedResources (ex_host ''h'' 1000)) <
      cn_Memory (Counts cx_definition) * int (card (tasks_on ex_cluster (ex_deployment 10) ''h'' (stored_task lookup ''sked'' b2))) +
      cn_Memory (Counts cx_definition) * int (card (tasks_on ex_cluster (cx_other 10) ''h'' (stored_task lookup ''sked'' b2)))"
proof -
  let ?api = "consul_api local_consul ''sked''" and ?e = "cx_other 10"
  have good: "consul_good local_consul lookup ''sked'' (cx_store [])" by (rule cx_good) simp
  have k0: "hosts_keyed NewDefaultScheduler" by (simp add: NewDefaultScheduler_def hosts_keyed_def)
  obtain s1 b1 where r1: "Schedule ?api ex_choices (ex_deployment 10) (SetCluster ex_cluster NewDefaultScheduler) (cx_store []) = Returns (None, s1, b1)"
    using cx_calls_again [OF good k0 cx_hosts cx_definition_get ex_names(2)] by blast
  have k: "hosts_keyed (SetCluster ex_cluster NewDefaultScheduler)" "ds_cluster (SetCluster ex_cluster NewDefaultScheduler) = Some ex_cluster"
      "named ex_cluster (ex_deployment 10)" "small_deployment (ex_deployment 10)" "small_deployment ?e"
    using k0 by (simp_all add: SetCluster_def hosts_keyed_def named_def ex_names(1,2) small_deployment_def in_int64_def cx_other_def ex_deployment_def)
  note call = r1 good k(1-4)
  have td: "GetTaskDefinition ?api (dp_TaskName ?e) (dp_TaskVersion ?e) (cx_store []) = Ok cx_definition"
    using cx_definition_get [of 10] by (simp add: cx_other_def)
  note same = consul_tasks.Schedule_config [OF call]
  obtain s2 b2 where r2: "Schedule ?api ex_choices ?e (SetCluster ex_cluster s1) b1 = Returns (None, s2, b2)"
    using cx_calls_again [of b1 s1 ?e] same Schedule_keyed [OF r1 k(1)] cx_hosts td by (fastforce simp: cx_other_def)
  have none: "\<forall>i. stored_task lookup ''sked'' b1 (task_ID (NewTask ex_cluster cx_definition ?e i)) = None"
  proof (rule allI, rule ccontr)
    fix i
    assume "stored_task lookup ''sked'' b1 (task_ID (NewTask ex_cluster cx_definition ?e i)) \<noteq> None"
    then have "stored_task lookup ''sked'' b1 (task_ID (NewTask ex_cluster cx_definition ?e i)) \<noteq>
        stored_task lookup ''sked'' (cx_store []) (task_ID (NewTask ex_cluster cx_definition ?e i))" by (simp add: cx_stored)
    from consul_tasks.Schedule_frame [OF call cx_definition_get this] show False by (auto simp: cx_stored issued_def cx_other_ids)
  qed
  have "10 \<le> int (card (tasks_on ex_cluster (ex_deployment 10) ''h'' (stored_task lookup ''sked'' b2))) \<and>
      10 \<le> int (card (tasks_on ex_cluster ?e ''h'' (stored_task lookup ''sked'' b2)))"
    using room_promised_twice [OF good k0 ex_names(1) _ _ _ _ ex_names(2) _ _ k(4,5) _ _ cx_definition_get _ td _ cx_room(2,2) _ _ r1 r2 none,
        of "ex_host ''h'' 1000"] cx_hosts cx_room
    by (simp add: cx_other_def ex_deployment_def ex_cluster_def ex_host_def NewDefaultScheduler_def)
  moreover have "cn_Memory (Counts cx_definition) = 100" "rs_Memory (ho_CalculatedResources (ex_host ''h'' 1000)) = 1000"
    by (simp_all add: cx_definition_def cx_container_def ex_eval)
  ultimately show ?thesis using r1 r2 by fastforce
qed

end
