(* ===== verification/Master_Turns.thy ===== *)
theory Master_Turns
  imports Master
begin

text \<open>
  The goroutines of a master together (src/master/master.go): the loop of \<open>monitor\<close>, the garbage collector
  behind its channel, and the workers that take requests from the queue, in any order, between changes
  others make in the store. A dispatch and a request are one step each. The invariant of these runs needs
  little of the backend and the locks: the locale \<open>master_backend\<close> says what.
\<close>

section \<open>The goroutines\<close>

record ('b, 'l) running =
  rn_master :: "'l master"
  rn_backend :: 'b
  rn_gc :: nat
  rn_queue :: "scheduleReq list"

definition gc_room :: nat where "gc_room = 50"

text \<open>Asking for a garbage collection; without room in the channel the sender waits.\<close>

definition Master_GC :: "nat \<Rightarrow> nat option" where
  "Master_GC n = (if n < gc_room then Some (n + 1) else None)"

text \<open>One round of \<open>garbageCollector\<close>; the error of the collection is logged.\<close>

definition garbageCollector_step :: "'b scheduler_api \<Rightarrow> 'l master \<Rightarrow> 'b \<times> nat \<Rightarrow> ('b \<times> nat) outcome" where
  "garbageCollector_step api s = (\<lambda>(b, n).
     bind_outcome (runGarbageCollect api s b) (\<lambda>(_, b', _). Returns (b', n - 1)))"

inductive master_moves ::
  "'b scheduler_api \<Rightarrow> ('b, 'l) lock_api \<Rightarrow> 'b command set \<Rightarrow> ('b, 'l) running \<Rightarrow> ('b, 'l) running \<Rightarrow> bool"
  for api la others where
  dispatched: "ev \<in> {HealthEvent, Timer} \<Longrightarrow> monitor_step api (rn_backend s) (rn_master s) ev = Returns (reqs, False) \<Longrightarrow>
    scheduler_queue.enqueue_all reqs (rn_queue s) = Returns q \<Longrightarrow> master_moves api la others s (s\<lparr>rn_queue := q\<rparr>)"
| reconfigured: "monitor_step api (rn_backend s) (rn_master s) ConfigEvent = Returns (reqs, True) \<Longrightarrow>
    scheduler_queue.enqueue_all reqs (rn_queue s) = Returns q \<Longrightarrow> Master_GC (rn_gc s) = Some g \<Longrightarrow>
    master_moves api la others s (s\<lparr>rn_queue := q, rn_gc := g\<rparr>)"
| collected: "0 < rn_gc s \<Longrightarrow> garbageCollector_step api (rn_master s) (rn_backend s, rn_gc s) = Returns (b, g) \<Longrightarrow>
    master_moves api la others s (s\<lparr>rn_backend := b, rn_gc := g\<rparr>)"
| worked: "rn_queue s = rs @ [r] \<Longrightarrow>
    Master_schedule api la ch (rq_cluster r) (rq_service r) (rn_master s, rn_backend s) = Returns (m, b) \<Longrightarrow>
    master_moves api la others s (s\<lparr>rn_master := m, rn_backend := b, rn_queue := rs\<rparr>)"
| changed: "cmd \<in> others \<Longrightarrow> master_moves api la others s (s\<lparr>rn_backend := fst (cmd (rn_backend s))\<rparr>)"

definition master_started :: "nat \<Rightarrow> master_config \<Rightarrow> 'b \<Rightarrow> ('b, 'l) running" where
  "master_started n conf b = \<lparr>rn_master = Master_Run_setup n (NewMaster conf), rn_backend = b, rn_gc = 0, rn_queue = []\<rparr>"

section \<open>The least a master needs\<close>

text \<open>
  A backend whose queries come back and whose writes of tasks keep it good, with tasks it can list and
  make; locks that leave it good; and clusters (\<open>known\<close>) whose name can be logged when they are missing.
  Nothing is said of what is read or of errors.
\<close>

locale master_backend =
  fixes good :: "'b \<Rightarrow> bool" and api :: "'b scheduler_api" and la :: "('b, 'l) lock_api"
    and fine :: "task \<Rightarrow> bool" and known :: "string \<Rightarrow> bool"
  assumes GetCluster_pointer: "good b \<Longrightarrow> known c \<Longrightarrow> GetCluster api c b \<noteq> Fail e None"
    and GetCluster_known: "good b \<Longrightarrow> known c \<Longrightarrow> GetCluster api c b = Ok cl \<Longrightarrow> known (cl_Name cl)"
    and GetCluster_returns: "good b \<Longrightarrow> GetCluster api c b \<noteq> Stops how"
    and GetDeployment_returns: "good b \<Longrightarrow> GetDeployment api m b \<noteq> Stops how"
    and GetTaskDefinition_returns: "good b \<Longrightarrow> GetTaskDefinition api m v b \<noteq> Stops how"
    and ListHosts_returns: "good b \<Longrightarrow> ListHosts api m b \<noteq> Stops how"
    and ListTasks_calm: "good b \<Longrightarrow> ListTasks api q b \<noteq> Stops Panicked"
    and ListTasks_returns: "good b \<Longrightarrow> \<not> tq_Failing q \<Longrightarrow> \<not> tq_Running q \<Longrightarrow> ListTasks api q b \<noteq> Stops how"
    and ListTasks_fine: "good b \<Longrightarrow> ListTasks api q b = Ok ts \<Longrightarrow> t \<in> set ts \<Longrightarrow> fine (t\<lparr>tk_Scheduled := False\<rparr>)"
    and placed_fine: "good b \<Longrightarrow> GetDeployment api m b = Ok d \<Longrightarrow> GetTaskDefinition api n v b = Ok td \<Longrightarrow> 0 \<le> i \<Longrightarrow>
      i < dp_Desired d \<Longrightarrow> placement cl td d i s t s' \<Longrightarrow> fine t"
    and PutTask_keeps: "good b \<Longrightarrow> fine t \<Longrightarrow> good (fst (PutTask api t b))"
    and NewLock_returns: "NewLock la k block b \<noteq> Stops how"
    and LockIt_keeps: "good b \<Longrightarrow> LockIt la l b = ((l', b'), err) \<Longrightarrow> good b'"
    and UnlockIt_keeps: "good b \<Longrightarrow> UnlockIt la l b = ((l', b'), err) \<Longrightarrow> good b'"
begin

lemma good_calm: "good b \<Longrightarrow> calm api b"
  by (simp add: calm_def GetCluster_returns GetDeployment_returns GetTaskDefinition_returns ListHosts_returns ListTasks_calm)

definition invariant :: "('b, 'l) running \<Rightarrow> bool" where
  "invariant s \<longleftrightarrow> good (rn_backend s) \<and> known (mc_Cluster (ms_Config (rn_master s))) \<and>
     schedulers_ok (ms_schedulers (rn_master s)) \<and> rn_gc s \<le> gc_room \<and> distinct (rn_queue s) \<and>
     (\<forall>r \<in> set (rn_queue s). known (rq_cluster r))"

section \<open>A dispatch\<close>

lemma dispatch_names_returns:
  "good b \<Longrightarrow> \<exists>err reqs. dispatch_names api b c names = Returns (err, reqs) \<and> (\<forall>r \<in> set reqs. rq_cluster r = c)"
proof (induction names)
  case (Cons name names)
  then show ?case
    using GetDeployment_returns [OF Cons.prems] by (cases "GetDeployment api name b") auto
qed simp

lemma monitor_step_returns:
  assumes "good b" and "known (mc_Cluster (ms_Config m))"
  shows "\<exists>reqs. monitor_step api b m ev = Returns (reqs, ev = ConfigEvent) \<and> (\<forall>r \<in> set reqs. known (rq_cluster r))"
proof -
  have "\<exists>err reqs. dispatchAll api b m = Returns (err, reqs) \<and> (\<forall>r \<in> set reqs. known (rq_cluster r))"
  proof (cases "Master_Cluster api b m")
    case (Ok cl)
    then have "known (cl_Name cl)" using GetCluster_known [OF assms] by (simp add: Master_Cluster_def)
    then show ?thesis
      using dispatch_names_returns [OF assms(1), of "cl_Name cl" "cl_Deployments cl"] Ok by (auto simp: dispatchAll_def)
  qed (use GetCluster_returns [OF assms(1)] in \<open>simp_all add: dispatchAll_def Master_Cluster_def\<close>)
  then show ?thesis by (cases ev) (auto simp: monitor_step_def)
qed

lemma enqueue_requests:
  "distinct q \<Longrightarrow> \<exists>q'. scheduler_queue.enqueue_all reqs q = Returns q' \<and> distinct q' \<and> set q' = set q \<union> set reqs"
  using scheduler_queue.enqueue_all_returns by blast

section \<open>A collection\<close>

lemma collection_returns:
  assumes "good b"
  shows "\<exists>b'. garbageCollector_step api m (b, n) = Returns (b', n - 1) \<and> good b'"
proof (cases "Master_Cluster api b m")
  case (Ok cl)
  show ?thesis
  proof (cases "ListTasks api (any_task\<lparr>tq_ByCluster := mc_Cluster (ms_Config m)\<rparr>) b")
    case Ok': (Ok ts)
    have "good (fst (fold (gc_task api cl) us p))" if "good (fst p)" "set us \<subseteq> set ts" for us p
      using that ListTasks_fine [OF assms Ok']
      by (induction us arbitrary: p) (auto simp: gc_task_def PutTask_keeps split: prod.splits)
    moreover obtain b' k where run: "fold (gc_task api cl) ts (b, 0) = (b', k)" by fastforce
    ultimately have "good b'" using assms by (metis fst_conv subset_refl)
    then show ?thesis using Ok Ok' run by (simp add: garbageCollector_step_def runGarbageCollect_def)
  qed (use ListTasks_returns [OF assms] Ok assms in \<open>simp_all add: any_task_def garbageCollector_step_def runGarbageCollect_def\<close>)
qed (use GetCluster_returns [OF assms] assms in
  \<open>simp_all add: garbageCollector_step_def runGarbageCollect_def Master_Cluster_def\<close>)

section \<open>A request\<close>

lemma Lock_keeps: "SchedulerLocks_Lock la name (ls, b) = ((ls', b'), r) \<Longrightarrow> good b \<Longrightarrow> good b' \<and> r \<noteq> Stops how"
  using NewLock_returns
  by (auto simp: SchedulerLocks_Lock_def lock_stored_def split: option.splits reply.splits prod.splits dest: LockIt_keeps)

lemma Unlock_keeps: "SchedulerLocks_Unlock la name (ls, b) = (ls', b') \<Longrightarrow> good b \<Longrightarrow> good b'"
  by (auto simp: SchedulerLocks_Unlock_def split: option.splits prod.splits dest: UnlockIt_keeps)

lemma schedule_locked_keeps:
  assumes "schedule_locked api ch c n sk b = Returns (sk', b')" and "schedulers_ok sk" and "good b"
  shows "good b'"
  by (rule schedule_locked_backend [OF assms(1,2), of good fine, OF assms(3) PutTask_keeps ListTasks_fine [OF assms(3)] placed_fine [OF assms(3)]])

lemma request_keeps:
  assumes "Master_schedule api la ch c n (m, b) = Returns (m', b')" and "good b" and "schedulers_ok (ms_schedulers m)"
  shows "good b' \<and> schedulers_ok (ms_schedulers m') \<and> ms_Config m' = ms_Config m"
proof -
  obtain ls b1 r where lock: "SchedulerLocks_Lock la (c @ '':'' @ n) (ms_locks m, b) = ((ls, b1), r)" by (metis prod.exhaust)
  have b1: "good b1" using Lock_keeps [OF lock assms(2)] by blast
  show ?thesis
  proof (cases r)
    case (Ok l)
    obtain sk b2 ls' where body: "(if IsHeld la l b1 then schedule_locked api ch c n (ms_schedulers m) b1
        else Returns (ms_schedulers m, b1)) = Returns (sk, b2)"
      and un: "SchedulerLocks_Unlock la (c @ '':'' @ n) (ls, b2) = (ls', b')" and m': "m' = m\<lparr>ms_locks := ls', ms_schedulers := sk\<rparr>"
      by (rule Master_schedule_locked [OF assms(1) lock [unfolded Ok]])
    have "good b2 \<and> schedulers_ok sk"
      using body assms(3) b1 schedule_locked_keeps [of ch c n _ b1] schedule_locked_ok [OF assms(3)] by (auto split: if_splits)
    then show ?thesis using Unlock_keeps [OF un] m' by simp
  next
    case (Fail e p)
    then show ?thesis using assms(1,3) lock b1 by (auto simp: Master_schedule_def Let_def)
  next
    case (Stops how)
    then show ?thesis using Lock_keeps [OF lock assms(2)] by blast
  qed
qed

lemma request_no_panic:
  assumes "good b" and "known c" and "schedulers_ok (ms_schedulers m)"
  shows "Master_schedule api la ch c n (m, b) \<noteq> Panics"
proof -
  obtain ls b1 r where lock: "SchedulerLocks_Lock la (c @ '':'' @ n) (ms_locks m, b) = ((ls, b1), r)" by (metis prod.exhaust)
  have b1: "good b1" and r: "r \<noteq> Stops how" for how using Lock_keeps [OF lock assms(1)] by blast+
  have "schedule_locked api ch c n (ms_schedulers m) b1 \<noteq> Panics"
    by (rule schedule_locked_no_panic [OF assms(3) GetCluster_pointer [OF b1 assms(2)] good_calm [OF b1]])
  then show ?thesis
    using lock r by (cases r) (auto simp: Master_schedule_def Let_def bind_outcome_Panics_iff split: prod.splits)
qed

section \<open>The runs\<close>

lemma invariant_step:
  assumes others: "\<And>cmd b. cmd \<in> others \<Longrightarrow> good b \<Longrightarrow> good (fst (cmd b))"
  shows "master_moves api la others s s' \<Longrightarrow> invariant s \<Longrightarrow> invariant s'"
proof (induction rule: master_moves.induct)
  case (dispatched ev s reqs q)
  then have "\<forall>r \<in> set reqs. known (rq_cluster r)"
    using monitor_step_returns [of "rn_backend s" "rn_master s" ev] by (auto simp: invariant_def)
  then show ?case using dispatched(3,4) enqueue_requests [of "rn_queue s" reqs] by (auto simp: invariant_def)
next
  case (reconfigured s reqs q g)
  then have "\<forall>r \<in> set reqs. known (rq_cluster r)"
    using monitor_step_returns [of "rn_backend s" "rn_master s" ConfigEvent] by (auto simp: invariant_def)
  then show ?case
    using reconfigured(2-4) enqueue_requests [of "rn_queue s" reqs] by (auto simp: invariant_def Master_GC_def split: if_splits)
next
  case (collected s b g)
  then show ?case
    using collection_returns [of "rn_backend s" "rn_master s" "rn_gc s"] by (auto simp: invariant_def)
next
  case (worked s rs r ch m b)
  then show ?case using request_keeps [OF worked(2)] by (auto simp: invariant_def)
next
  case (changed cmd s)
  then show ?case using others by (simp add: invariant_def)
qed

lemma started_invariant: "known (mc_Cluster (run_defaults conf)) \<Longrightarrow> good b \<Longrightarrow> invariant (master_started n conf b)"
  by (simp add: invariant_def master_started_def schedulers_ok_setup) (simp add: Master_Run_setup_def NewMaster_def)

lemma runs_invariant:
  assumes "(master_moves api la others)\<^sup>*\<^sup>* (master_started n conf b) s"
    and "known (mc_Cluster (run_defaults conf))" and "good b"
    and "\<And>cmd b. cmd \<in> others \<Longrightarrow> good b \<Longrightarrow> good (fst (cmd b))"
  shows "invariant s"
  using assms(1)
proof (induction rule: rtranclp_induct)
  case base
  show ?case by (rule started_invariant [OF assms(2,3)])
next
  case (step s1 s2)
  show ?case by (rule invariant_step [OF _ step(2,3)]) (rule assms(4))
qed

text \<open>In every state of a run each goroutine can do its next step, and none panics.\<close>

lemma invariant_keeps_going:
  assumes "invariant s"
  shows "rn_gc s \<le> gc_room \<and> distinct (rn_queue s) \<and>
    (\<forall>ev. \<exists>reqs gc q. monitor_step api (rn_backend s) (rn_master s) ev = Returns (reqs, gc) \<and>
      scheduler_queue.enqueue_all reqs (rn_queue s) = Returns q) \<and>
    (\<exists>b'. garbageCollector_step api (rn_master s) (rn_backend s, rn_gc s) = Returns (b', rn_gc s - 1)) \<and>
    (\<forall>r \<in> set (rn_queue s). \<forall>ch. Master_schedule api la ch (rq_cluster r) (rq_service r) (rn_master s, rn_backend s) \<noteq> Panics)"
proof -
  have inv: "good (rn_backend s)" "known (mc_Cluster (ms_Config (rn_master s)))" "schedulers_ok (ms_schedulers (rn_master s))"
      "distinct (rn_queue s)" "\<forall>r \<in> set (rn_queue s). known (rq_cluster r)"
    using assms by (simp_all add: invariant_def)
  have "\<exists>reqs gc q. monitor_step api (rn_backend s) (rn_master s) ev = Returns (reqs, gc) \<and>
      scheduler_queue.enqueue_all reqs (rn_queue s) = Returns q" for ev
    using monitor_step_returns [OF inv(1,2), of ev] enqueue_requests [OF inv(4)] by blast
  moreover have "rn_gc s \<le> gc_room" using assms by (simp add: invariant_def)
  moreover have "\<exists>b'. garbageCollector_step api (rn_master s) (rn_backend s, rn_gc s) = Returns (b', rn_gc s - 1)"
    using collection_returns [OF inv(1)] by blast
  ultimately show ?thesis using inv(4,5) request_no_panic [OF inv(1) _ inv(3)] by blast
qed

end

end
