(* ===== verification/Master_Loop.thy ===== *)
theory Master_Loop
  imports Master_Turns Master_Properties
begin

text \<open>
  The runs of \<open>Master_Turns\<close> over the backend in memory: a master whose cluster is stored never panics,
  however its goroutines and the writes of others interleave, and a deployment that is taken out of the
  cluster may come back.
\<close>

section \<open>The store in memory\<close>

definition master_store :: "string \<Rightarrow> mock \<Rightarrow> bool" where
  "master_store c b \<longleftrightarrow> mock_good b \<and> lookup (mk_clusters b) c \<noteq> None"

lemma PutTask_store: "master_store c b \<Longrightarrow> master_store c (fst (PutTask (mock_api ord) t b))"
  using mock_tasks.PutTask_good [of b ord t] by (simp add: master_store_def) (simp add: mock_api_def mock_PutTask_def mock_emit_def)

lemma same_store_master: "same_store a b \<Longrightarrow> master_store c a = master_store c b"
  using same_store_good [of a b] by (simp add: master_store_def same_store_def)

interpretation mock_master: master_backend "master_store c" "mock_api ord" mock_locks "\<lambda>_. True" "\<lambda>x. x = c" for c ord
proof
  fix b x e m v q how k block and cl :: cluster and l l' :: mock_lock and b' err
  show "GetCluster (mock_api ord) m b \<noteq> Stops how" "GetDeployment (mock_api ord) m b \<noteq> Stops how"
    "GetTaskDefinition (mock_api ord) m v b \<noteq> Stops how" "ListHosts (mock_api ord) m b \<noteq> Stops how"
    by (simp_all add: mock_api_def mock_get_defs mock_list_defs split: option.split)
  show "ListTasks (mock_api ord) q b \<noteq> Stops Panicked" using calm_mock by (simp add: calm_def)
  show "\<not> tq_Failing q \<Longrightarrow> \<not> tq_Running q \<Longrightarrow> ListTasks (mock_api ord) q b \<noteq> Stops how"
    by (simp add: mock_api_def mock_ListTasks_def mock_list_loop_selects)
  show "NewLock mock_locks k block b \<noteq> Stops how" by (simp add: mock_locks_def mock_Lock_def)
  assume store: "master_store c b"
  show "x = c \<Longrightarrow> GetCluster (mock_api ord) x b \<noteq> Fail e None"
    using store by (auto simp: master_store_def mock_api_def mock_get_defs)
  show "x = c \<Longrightarrow> GetCluster (mock_api ord) x b = Ok cl \<Longrightarrow> cl_Name cl = c"
    using store by (auto simp: master_store_def mock_good_def mock_api_def mock_get_defs dest: keyed_by_lookup split: option.splits)
  show "master_store c b'" if "LockIt mock_locks l b = ((l', b'), err)"
  proof -
    have "same_store b' b" using that by (auto simp: mock_locks_def mock_LockIt_def same_store_def)
    then show ?thesis using store same_store_master by blast
  qed
  show "master_store c b'" if "UnlockIt mock_locks l b = ((l', b'), err)"
  proof -
    have "same_store b' b" using that by (auto simp: mock_locks_def mock_UnlockIt_def same_store_def split: if_splits)
    then show ?thesis using store same_store_master by blast
  qed
qed (simp_all add: PutTask_store)

text \<open>What others write into the store while its cluster stays: operators, agents and health checks.\<close>

definition other_writes :: "mock command set" where
  "other_writes = range mock_PutCluster \<union> range mock_PutDeployment \<union> range mock_DelDeployment \<union> range mock_PutService \<union>
     range mock_DelService \<union> range mock_PutTaskDefinition \<union> range mock_PutHost \<union> (\<Union>cl. range (mock_DelHost cl)) \<union>
     range mock_PutTask \<union> range mock_DelTask \<union> (\<Union>k. range (mock_PutTaskState k))"

lemma other_writes_keep: "cmd \<in> other_writes \<Longrightarrow> master_store c b \<Longrightarrow> master_store c (fst (cmd b))"
  unfolding other_writes_def
  by (elim UnE UN_E rangeE; simp only:)
    (simp_all add: master_store_def mock_put_defs mock_del_defs mock_emit_def mock_good_def split: option.split)

text \<open>
  On the backend in memory, however the monitor, the garbage collector, the workers and the writes of
  others interleave, a master whose cluster is stored never panics: at any moment the monitor can dispatch for any event and
  queue what it dispatched, the collector can take up a collection, no request waiting in the queue can panic
  a worker, and no more collections wait than the channel has room for.
\<close>

theorem master_keeps_going:
  assumes "master_store (mc_Cluster (run_defaults conf)) b"
    and "(master_moves (mock_api ord) mock_locks other_writes)\<^sup>*\<^sup>* (master_started n conf b) s"
  shows "rn_gc s \<le> gc_room \<and> distinct (rn_queue s) \<and>
    (\<forall>ev. \<exists>reqs gc q. monitor_step (mock_api ord) (rn_backend s) (rn_master s) ev = Returns (reqs, gc) \<and>
      scheduler_queue.enqueue_all reqs (rn_queue s) = Returns q) \<and>
    (\<exists>b'. garbageCollector_step (mock_api ord) (rn_master s) (rn_backend s, rn_gc s) = Returns (b', rn_gc s - 1)) \<and>
    (\<forall>r \<in> set (rn_queue s). \<forall>ch.
      Master_schedule (mock_api ord) mock_locks ch (rq_cluster r) (rq_service r) (rn_master s, rn_backend s) \<noteq> Panics)"
proof -
  have "mock_master.invariant (mc_Cluster (run_defaults conf)) s"
    by (rule mock_master.runs_invariant [OF assms(2) refl assms(1)]) (rule other_writes_keep)
  then show ?thesis by (rule mock_master.invariant_keeps_going)
qed

section \<open>A removed deployment comes back\<close>

text \<open>The first change of the configuration on the example.\<close>

lemma ex_reconfigured:
  "master_moves (mock_api listed_order) mock_locks other_writes (master_started 0 ex_conf (ex_stored []))
     \<lparr>rn_master = ex_master, rn_backend = ex_stored [], rn_gc = 1, rn_queue = [\<lparr>rq_cluster = ''c'', rq_service = ''d''\<rparr>]\<rparr>"
proof -
  let ?r = "\<lparr>rq_cluster = ''c'', rq_service = ''d''\<rparr>"
  let ?s = "\<lparr>rn_master = ex_master, rn_backend = ex_stored [], rn_gc = 0, rn_queue = []\<rparr>"
  have "monitor_step (mock_api listed_order) (ex_stored []) ex_master ConfigEvent = Returns ([?r], True)"
    using dispatch_requests_witness by (simp add: monitor_step_def)
  moreover have "scheduler_queue.enqueue_all [?r] [] = Returns [?r]" by (simp add: request_queue.enqueue_all.simps doEnqueue_distinct)
  moreover have "master_started 0 ex_conf (ex_stored []) = ?s" by (simp add: master_started_def ex_master_def)
  ultimately show ?thesis
    using reconfigured [of "mock_api listed_order" ?s] by (simp add: Master_GC_def gc_room_def)
qed

lemma ex_master_cluster: "mc_Cluster (ms_Config ex_master) = ''c''" "mc_Cluster (run_defaults ex_conf) = ''c''"
  by (simp_all add: ex_master_def Master_Run_setup_def run_defaults_def NewMaster_def ex_conf_def)

theorem master_keeps_going_witness:
  "\<exists>s. (master_moves (mock_api listed_order) mock_locks other_writes)\<^sup>*\<^sup>* (master_started 0 ex_conf (ex_stored [])) s \<and>
     rn_queue s = [\<lparr>rq_cluster = ''c'', rq_service = ''d''\<rparr>] \<and>
     Master_schedule (mock_api listed_order) mock_locks ex_choices ''c'' ''d'' (rn_master s, rn_backend s) \<noteq> Panics"
proof -
  let ?s = "\<lparr>rn_master = ex_master, rn_backend = ex_stored [], rn_gc = 1, rn_queue = [\<lparr>rq_cluster = ''c'', rq_service = ''d''\<rparr>]\<rparr>"
  have run: "(master_moves (mock_api listed_order) mock_locks other_writes)\<^sup>*\<^sup>* (master_started 0 ex_conf (ex_stored [])) ?s"
    using ex_reconfigured by blast
  have "master_store (mc_Cluster (run_defaults ex_conf)) (ex_stored [])"
    using ex_stored_good by (simp add: master_store_def ex_master_cluster) (simp add: ex_stored_def)
  from master_keeps_going [OF this run] run show ?thesis by fastforce
qed

definition ex_removed :: mock where
  "ex_removed = fst (mock_PutCluster (ex_cluster\<lparr>cl_Deployments := []\<rparr>) (ex_stored []))"

lemma ex_removed_facts:
  "lookup (mk_clusters ex_removed) ''c'' = Some (ex_cluster\<lparr>cl_Deployments := []\<rparr>)" "mock_good ex_removed" "mk_tasks ex_removed = []"
  using ex_stored_good [of "[]"]
  by (simp_all add: ex_removed_def mock_PutCluster_def mock_emit_def ex_cluster_def ex_stored_def ex_backend_def mock_good_def keyed_by_def)

definition ex_resurrected :: "mock_lock master \<times> mock" where
  "ex_resurrected = (case Master_schedule (mock_api listed_order) mock_locks ex_choices ''c'' ''d'' (ex_master, ex_removed) of
     Returns r \<Rightarrow> r | _ \<Rightarrow> (ex_master, ex_removed))"

lemma ex_resurrected_returns:
  "Master_schedule (mock_api listed_order) mock_locks ex_choices ''c'' ''d'' (ex_master, ex_removed) = Returns ex_resurrected"
  by (simp add: ex_resurrected_def ex_master_eval ex_removed_def)

lemma ex_resurrected_tasks:
  "map (\<lambda>(k, t). (k, tk_Deployment t, tk_Scheduled t)) (mk_tasks (snd ex_resurrected)) =
    [(''c-d-1-0'', ''d'', True), (''c-d-1-1'', ''d'', True)]"
  "mk_clusters (snd ex_resurrected) = mk_clusters ex_removed"
  by (simp_all add: ex_resurrected_def ex_master_eval ex_removed_def)

text \<open>
  A request that waits in the queue while its deployment is taken out of the cluster is run all the same,
  after the collections that were asked for: the master comes to rest with the tasks of a deployment
  scheduled that the cluster does not list, and no further collection is due.
\<close>

theorem removed_deployment_returns:
  "\<exists>s. (master_moves (mock_api listed_order) mock_locks other_writes)\<^sup>*\<^sup>* (master_started 0 ex_conf (ex_stored [])) s \<and>
     rn_queue s = [] \<and> rn_gc s = 0 \<and>
     (\<exists>cl. lookup (mk_clusters (rn_backend s)) ''c'' = Some cl \<and> ''d'' \<notin> set (cl_Deployments cl)) \<and>
     (\<exists>t. lookup (mk_tasks (rn_backend s)) ''c-d-1-0'' = Some t \<and> tk_Deployment t = ''d'' \<and> tk_Scheduled t)"
proof -
  let ?moves = "master_moves (mock_api listed_order) mock_locks other_writes"
  let ?s0 = "master_started 0 ex_conf (ex_stored [])" and ?r = "\<lparr>rq_cluster = ''c'', rq_service = ''d''\<rparr>"
  let ?st = "\<lambda>b g q. \<lparr>rn_master = ex_master, rn_backend = b, rn_gc = g, rn_queue = q\<rparr>"
  have 1: "?moves ?s0 (?st (ex_stored []) 1 [?r])" by (rule ex_reconfigured)
  have "mock_PutCluster (ex_cluster\<lparr>cl_Deployments := []\<rparr>) \<in> other_writes" by (simp add: other_writes_def)
  from changed [OF this, of "mock_api listed_order" mock_locks "?st (ex_stored []) 1 [?r]"]
  have 2: "?moves (?st (ex_stored []) 1 [?r]) (?st ex_removed 1 [?r])" by (simp add: ex_removed_def)
  have "dispatchAll (mock_api listed_order) ex_removed ex_master = Returns (None, [])"
    using dispatch_requests [of ex_removed ex_master] ex_removed_facts by (simp add: ex_master_cluster)
  then have "monitor_step (mock_api listed_order) ex_removed ex_master ConfigEvent = Returns ([], True)" by (simp add: monitor_step_def)
  then have 3: "?moves (?st ex_removed 1 [?r]) (?st ex_removed 2 [?r])"
    using reconfigured [of "mock_api listed_order" "?st ex_removed 1 [?r]"]
    by (simp add: Master_GC_def gc_room_def request_queue.enqueue_all.simps)
  have collect: "garbageCollector_step (mock_api listed_order) ex_master (ex_removed, g) = Returns (ex_removed, g - 1)" for g
    by (simp add: garbageCollector_step_def runGarbageCollect_def Master_Cluster_def ex_master_cluster mock_api_def mock_get_defs
        ex_removed_facts mock_ListTasks_def range_values_def range_keys_def key_list_def List.map_filter_simps)
  have 4: "?moves (?st ex_removed 2 [?r]) (?st ex_removed 1 [?r])" "?moves (?st ex_removed 1 [?r]) (?st ex_removed 0 [?r])"
    using collected [of "?st ex_removed 2 [?r]" "mock_api listed_order"] collected [of "?st ex_removed 1 [?r]" "mock_api listed_order"]
    by (simp_all add: collect)
  obtain m b where rb: "ex_resurrected = (m, b)" by fastforce
  have 5: "?moves (?st ex_removed 0 [?r]) \<lparr>rn_master = m, rn_backend = b, rn_gc = 0, rn_queue = []\<rparr>"
    using worked [of "?st ex_removed 0 [?r]" "[]" ?r "mock_api listed_order" mock_locks ex_choices m b] ex_resurrected_returns
    by (simp add: rb)
  have run: "?moves\<^sup>*\<^sup>* ?s0 \<lparr>rn_master = m, rn_backend = b, rn_gc = 0, rn_queue = []\<rparr>"
    using 1 2 3 4 5 by (meson rtranclp.rtrancl_into_rtrancl rtranclp.rtrancl_refl)
  have "\<exists>t. lookup (mk_tasks b) ''c-d-1-0'' = Some t \<and> tk_Deployment t = ''d'' \<and> tk_Scheduled t"
    using ex_resurrected_tasks(1) by (auto simp: rb map_eq_Cons_conv)
  moreover have "lookup (mk_clusters b) ''c'' = Some (ex_cluster\<lparr>cl_Deployments := []\<rparr>)"
    using ex_resurrected_tasks(2) ex_removed_facts(1) by (simp add: rb)
  ultimately show ?thesis
    using run by (intro exI [of _ "\<lparr>rn_master = m, rn_backend = b, rn_gc = 0, rn_queue = []\<rparr>"]) simp
qed

end
