(* ===== verification/Outages.thy ===== *)
theory Outages
  imports Agent_Turns Master_Turns Consul_Schedule
begin

text \<open>
  The agent over a Consul that fails as it pleases: reads and writes may answer with errors at any time,
  and a write that answers with an error may have been done or not. \<open>Agent_Turns\<close> needs no more of it.
\<close>

section \<open>A store that fails\<close>

text \<open>
  What is left of \<open>kv_store\<close> in an outage: what is read is what is stored, if anything is read; a write
  leaves the store as it was or does what it should, whatever it answers; the services are not in the store.
\<close>

definition failing_store :: "'c consul_client \<Rightarrow> ('c \<Rightarrow> string \<Rightarrow> kv_value option) \<Rightarrow> bool" where
  "failing_store cl view \<longleftrightarrow>
     (\<forall>k c v. kv_Get cl k c = Inr v \<longrightarrow> v = view c k) \<and>
     (\<forall>k v c. view (fst (kv_Put cl k v c)) \<in> {view c, (view c)(k \<mapsto> v)}) \<and>
     (\<forall>k c. view (fst (kv_Delete cl k c)) \<in> {view c, (view c)(k := None)}) \<and>
     (\<forall>p c kvs. kv_List cl p c = Inr kvs \<longrightarrow> set kvs \<subseteq> {(k, v). view c k = Some v \<and> prefix p k}) \<and>
     (\<forall>r c. view (fst (ServiceRegister cl r c)) = view c) \<and>
     (\<forall>i c. view (fst (ServiceDeregister cl i c)) = view c)"

lemma kv_store_failing: "kv_store cl view \<Longrightarrow> failing_store cl view"
proof -
  assume store: "kv_store cl view"
  have "set kvs = {(k, v). view c k = Some v \<and> prefix p k}" if "kv_List cl p c = Inr kvs" for p c kvs
  proof -
    obtain kvs' where "kv_List cl p c = Inr kvs'" "distinct (map fst kvs')" "set kvs' = {(k, v). view c k = Some v \<and> prefix p k}"
      using kv_store_list [OF store] by blast
    then show ?thesis using that by simp
  qed
  then show "failing_store cl view"
    unfolding failing_store_def by (simp add: kv_store_laws [OF store])
qed

lemma failing_list:
  "failing_store cl view \<Longrightarrow> kv_List cl p c = Inr kvs \<Longrightarrow> (k, v) \<in> set kvs \<Longrightarrow> view c k = Some v \<and> prefix p k"
  unfolding failing_store_def by blast

definition deployment_key :: "string \<Rightarrow> string" where
  "deployment_key k = ''config/deployments/'' @ k"

text \<open>The documents an agent reads can be read: the tasks, as they can be stored again, and the deployments.\<close>

definition reads_back :: "string \<Rightarrow> kv_value \<Rightarrow> bool" where
  "reads_back key v \<longleftrightarrow>
     (\<forall>k. key = task_key k \<longrightarrow> (\<exists>t. Decode task_field zero_task v = Some t \<and> storable t)) \<and>
     (\<forall>k. key = deployment_key k \<longrightarrow> no_bytes v \<or> Decode deployment_field zero_deployment v \<noteq> None)"

definition all_documents ::
  "(string \<Rightarrow> kv_value \<Rightarrow> bool) \<Rightarrow> ('c \<Rightarrow> string \<Rightarrow> kv_value option) \<Rightarrow> string \<Rightarrow> 'c consul \<Rightarrow> bool" where
  "all_documents R view pre s \<longleftrightarrow> (\<forall>key v. content view pre s key = Some v \<longrightarrow> R key v)"

lemma failing_run:
  assumes "failing_store cl view"
  shows "content view pre (fst (consul_put cl pre key v s)) \<in> {content view pre s, (content view pre s)(key \<mapsto> v)}"
    and "content view pre (fst (consul_del cl pre key s)) \<in> {content view pre s, (content view pre s)(key := None)}"
    and "content view pre (fst (consul_register cl t s)) = content view pre s"
    and "content view pre (fst (consul_deRegister cl i s)) = content view pre s"
    and "content view pre (fst (consul_run (ServiceRegister cl r) s)) = content view pre s"
proof -
  have "view (fst (kv_Put cl (full_key pre key) v (cs_consul s))) \<in> {view (cs_consul s), (view (cs_consul s))(full_key pre key \<mapsto> v)}"
    "view (fst (kv_Delete cl (full_key pre key) (cs_consul s))) \<in> {view (cs_consul s), (view (cs_consul s))(full_key pre key := None)}"
    using assms by (simp_all add: failing_store_def)
  then show "content view pre (fst (consul_put cl pre key v s)) \<in> {content view pre s, (content view pre s)(key \<mapsto> v)}"
    "content view pre (fst (consul_del cl pre key s)) \<in> {content view pre s, (content view pre s)(key := None)}"
    by (auto simp: content_def consul_put_def consul_del_def fun_eq_iff)
qed (use assms in \<open>simp_all add: content_def consul_register_def consul_deRegister_def failing_store_def fun_eq_iff\<close>)

lemma all_documents_content: "content view pre s' = content view pre s \<Longrightarrow> all_documents R view pre s' = all_documents R view pre s"
  by (simp add: all_documents_def)

lemma all_documents_put:
  assumes "failing_store cl view" and "all_documents R view pre s" and "R key v"
  shows "all_documents R view pre (fst (consul_put cl pre key v s))"
  using failing_run(1) [OF assms(1), of pre key v s] assms(2,3)
  by (elim insertE emptyE) (simp_all add: all_documents_def)

lemma all_documents_del:
  assumes "failing_store cl view" and "all_documents R view pre s"
  shows "all_documents R view pre (fst (consul_del cl pre key s))"
  using failing_run(2) [OF assms(1), of pre key s] assms(2)
  by (elim insertE emptyE) (simp_all add: all_documents_def)

lemma all_documents_PutTask:
  assumes "failing_store cl view" and "all_documents R view pre s" and "R (task_key (task_ID t)) (Doc (encode_task t))"
  shows "all_documents R view pre (fst (consul_PutTask cl pre t s))"
proof -
  have "all_documents R view pre (fst (consul_register cl t s))"
    using assms(2) failing_run(3) [OF assms(1)] all_documents_content by blast
  from all_documents_put [OF assms(1) this assms(3)] show ?thesis by (simp add: consul_PutTask_def task_key_def)
qed

section \<open>Reading\<close>

lemma failing_read:
  assumes "failing_store cl view" and "\<And>v. content view pre s key = Some v \<Longrightarrow> no_bytes v \<or> Decode f zero v \<noteq> None"
  shows "consul_read cl pre f zero key s \<noteq> Stops how"
  using assms
  by (auto simp: consul_read_def consul_get_def failing_store_def content_def split: sum.splits option.splits if_splits)

lemma failing_GetTaskState: "consul_GetTaskState cl pre t s \<noteq> Stops how"
  by (auto simp: consul_GetTaskState_def Let_def split: sum.split prod.split option.split bool.split)

text \<open>What is listed below a key is stored there.\<close>

lemma failing_consul_list:
  assumes "failing_store cl view" and "consul_list cl pre key s = Inr kvs" and "(k, v) \<in> set kvs"
  shows "\<exists>rest. content view pre s (key @ rest) = Some v"
proof -
  have "view (cs_consul s) k = Some v" "prefix (full_key pre key) k"
    using failing_list [OF assms(1), of "full_key pre key" "cs_consul s" kvs k v] assms(2,3) by (simp_all add: consul_list_def)
  moreover from this obtain rest where "k = full_key pre (key @ rest)" by (auto simp: prefix_def full_key_def)
  ultimately show ?thesis by (auto simp: content_def)
qed

lemma consul_task_loop_decoded:
  assumes "\<forall>(k, v) \<in> set kvs. \<exists>t. Decode task_field zero_task v = Some t \<and> P t" and "\<forall>t \<in> set acc. P t"
  shows "consul_task_loop cl pre q s kvs acc \<noteq> Stops how \<and>
    (consul_task_loop cl pre q s kvs acc = Ok ts \<longrightarrow> (\<forall>t \<in> set ts. P t))"
  using assms
proof (induction kvs arbitrary: acc)
  case (Cons kv kvs)
  obtain k v where kv: "kv = (k, v)" by (cases kv)
  then obtain t where t: "Decode task_field zero_task v = Some t" "P t" using Cons.prems(1) by auto
  have IH: "consul_task_loop cl pre q s kvs acc' \<noteq> Stops how \<and>
      (consul_task_loop cl pre q s kvs acc' = Ok ts \<longrightarrow> (\<forall>t \<in> set ts. P t))" if "\<forall>t \<in> set acc'. P t" for acc'
    using Cons.IH [OF _ that] Cons.prems(1) by simp
  note IH = IH [OF Cons.prems(2)] IH [of "acc @ [t]"]
  have acc: "\<forall>t \<in> set (acc @ [t]). P t" using Cons.prems(2) t(2) by simp
  have "consul_task_loop cl pre q s (kv # kvs) acc = consul_task_loop cl pre q s kvs acc \<or>
      consul_task_loop cl pre q s (kv # kvs) acc = consul_task_loop cl pre q s kvs (acc @ [t]) \<or>
      (\<exists>err. consul_task_loop cl pre q s (kv # kvs) acc = Fail err (Some acc))"
    using failing_GetTaskState [of cl pre t s] t(1) kv
    by (cases "if tq_Failing q \<or> tq_Running q then consul_GetTaskState cl pre t s else Ok PENDING")
      (simp_all split: if_split_asm, blast)
  then show ?case using IH acc by (elim disjE exE) simp_all
qed simp

lemma failing_ListTasks:
  assumes "failing_store cl view" and "all_documents reads_back view pre s"
  shows "consul_ListTasks cl pre q s \<noteq> Stops how \<and>
    (consul_ListTasks cl pre q s = Ok ts \<longrightarrow> (\<forall>t \<in> set ts. storable t))"
proof (cases "consul_list cl pre (tasks_prefix q) s")
  case (Inl err)
  then show ?thesis by (simp add: consul_ListTasks_def)
next
  case (Inr kvs)
  obtain p where p: "tasks_prefix q = task_key p" using tasks_prefix_key by blast
  have "\<exists>t. Decode task_field zero_task v = Some t \<and> storable t" if kv: "(k, v) \<in> set kvs" for k v
  proof -
    obtain rest where "content view pre s (task_key (p @ rest)) = Some v"
      using failing_consul_list [OF assms(1) Inr kv] p by (auto simp: task_key_def)
    then show ?thesis using assms(2) by (simp add: all_documents_def reads_back_def)
  qed
  then have "\<forall>(k, v) \<in> set kvs. \<exists>t. Decode task_field zero_task v = Some t \<and> storable t" by blast
  from consul_task_loop_decoded [OF this, of "[]" cl pre q s how ts] show ?thesis using Inr by (simp add: consul_ListTasks_def)
qed

section \<open>The agent\<close>

definition outage_good :: "'c consul_client \<Rightarrow> ('c \<Rightarrow> string \<Rightarrow> kv_value option) \<Rightarrow> string \<Rightarrow> 'c consul \<Rightarrow> bool" where
  "outage_good cl view pre s \<longleftrightarrow> failing_store cl view \<and> all_documents reads_back view pre s"

lemma reads_back_other:
  "reads_back (''state/health/'' @ k) v" "reads_back (host_key c h) v"
  by (simp_all add: reads_back_def task_key_def deployment_key_def host_key_def)

lemma reads_back_task: "storable t \<Longrightarrow> reads_back (task_key k) (Doc (encode_task t))"
  using Decode_encode_task [of t] by (simp add: reads_back_def storable_def deployment_key_def task_key_def)

lemma outage_PutTask:
  "outage_good cl view pre s \<Longrightarrow> storable t \<Longrightarrow> outage_good cl view pre (fst (consul_PutTask cl pre t s))"
  by (simp add: outage_good_def all_documents_PutTask reads_back_task)

lemma outage_PutHost:
  assumes "outage_good cl view pre s"
  shows "outage_good cl view pre (fst (consul_PutHost cl pre h s))"
proof -
  have store: "failing_store cl view" and docs: "all_documents reads_back view pre s" using assms(1) by (simp_all add: outage_good_def)
  obtain s1 e1 where p: "consul_put cl pre (host_key (ho_Cluster h) (ho_Name h)) (Doc (encode_host h)) s = (s1, e1)"
    by (rule prod.exhaust)
  have s1: "all_documents reads_back view pre s1"
    using all_documents_put [OF store docs reads_back_other(2)] p by (metis fst_conv)
  obtain s2 e2 where r: "consul_run (ServiceRegister cl (host_registration h)) s1 = (s2, e2)" by (rule prod.exhaust)
  have "content view pre s2 = content view pre s1"
    using failing_run(5) [OF store, of pre "host_registration h" s1] r by simp
  moreover from this have "content view pre (s2\<lparr>cs_registered := True\<rparr>) = content view pre s1"
    by (simp add: content_def fun_eq_iff)
  ultimately have "all_documents reads_back view pre s2" "all_documents reads_back view pre (s2\<lparr>cs_registered := True\<rparr>)"
    using s1 all_documents_content by blast+
  then show ?thesis
    using p r s1 store by (auto simp: outage_good_def consul_PutHost_def split: option.split)
qed

interpretation consul_agent: agent_store "outage_good cl view pre" "consul_api cl pre" storable for cl view pre
proof
  fix b t k s h reason how m ag ts u
  assume good: "outage_good cl view pre b"
  then have store: "failing_store cl view" and docs: "all_documents reads_back view pre b" by (simp_all add: outage_good_def)
  show "outage_good cl view pre (fst (PutTaskState (consul_api cl pre) k s b))"
    using all_documents_put [OF store docs reads_back_other(1)]
    by (simp add: outage_good_def store consul_api_def consul_PutTaskState_def)
  have "all_documents reads_back view pre (fst (consul_deRegister cl (task_ID t) b))"
    using docs failing_run(4) [OF store] all_documents_content by blast
  then show "outage_good cl view pre (fst (DelTask (consul_api cl pre) t b))"
    using all_documents_del [OF store] by (simp add: outage_good_def store consul_api_def consul_DelTask_def)
  show "outage_good cl view pre (fst (PutHost (consul_api cl pre) h b))"
    using outage_PutHost [OF good] by (simp add: consul_api_def)
  show "GetTaskState (consul_api cl pre) t b \<noteq> Stops how" by (simp add: consul_api_def failing_GetTaskState)
  show "GetDeployment (consul_api cl pre) m b \<noteq> Stops how"
    using docs by (simp add: consul_api_def consul_GetDeployment_def failing_read [OF store] all_documents_def reads_back_def deployment_key_def)
  show "ListTasks (consul_api cl pre) (agent_query ag) b \<noteq> Stops how"
    using failing_ListTasks [OF store docs] by (simp add: consul_api_def)
  show "u \<in> set ts \<Longrightarrow> storable u" if "ListTasks (consul_api cl pre) (agent_query ag) b = Ok ts"
    using failing_ListTasks [OF store docs, of "agent_query ag" how ts] that by (simp add: consul_api_def)
  show "storable t \<Longrightarrow> outage_good cl view pre (fst (PutTask (consul_api cl pre) t b))"
    using outage_PutTask [OF good] by (simp add: consul_api_def)
qed (simp add: storable_iff fits_task_def)

section \<open>The master\<close>

text \<open>
  The documents a master reads beside those: clusters, hosts and task definitions, whose numbers fit as
  they were read.
\<close>

definition configures :: "string \<Rightarrow> kv_value \<Rightarrow> bool" where
  "configures key v \<longleftrightarrow>
     (\<forall>k. key = ''config/clusters/'' @ k \<longrightarrow> no_bytes v \<or> Decode cluster_field zero_cluster v \<noteq> None) \<and>
     (\<forall>k ver. key = definition_key k ver \<longrightarrow>
        no_bytes v \<or> (\<exists>td. Decode definition_field zero_definition v = Some td \<and> fits_definition td)) \<and>
     (\<forall>k. key = ''hosts/'' @ k \<longrightarrow> Decode host_field zero_host v \<noteq> None)"

definition serves :: "string \<Rightarrow> kv_value \<Rightarrow> bool" where
  "serves key v \<longleftrightarrow> reads_back key v \<and> configures key v"

definition service_good ::
  "'c consul_client \<Rightarrow> ('c, 'k) consul_lock_client \<Rightarrow> ('c \<Rightarrow> string \<Rightarrow> kv_value option) \<Rightarrow> string \<Rightarrow> 'c consul \<Rightarrow> bool" where
  "service_good cl lk view pre s \<longleftrightarrow> failing_store cl view \<and> quiet_locks lk view pre \<and> all_documents serves view pre s"

lemma serves_task: "storable t \<Longrightarrow> serves (task_key k) (Doc (encode_task t))"
  unfolding serves_def by (rule conjI [OF reads_back_task]) (simp_all add: configures_def task_key_def definition_key_def)

lemma service_outage: "service_good cl lk view pre s \<Longrightarrow> outage_good cl view pre s"
  by (simp add: service_good_def outage_good_def all_documents_def serves_def)

lemma failing_read_all:
  assumes "failing_store cl view" and "\<And>rest v. content view pre s (key @ rest) = Some v \<Longrightarrow> Decode f zero v \<noteq> None"
  shows "consul_read_all cl pre f zero key s \<noteq> Stops how"
proof (cases "consul_list cl pre key s")
  case (Inr kvs)
  have "Decode f zero v \<noteq> None" if kv: "(k, v) \<in> set kvs" for k v
    using failing_consul_list [OF assms(1) Inr kv] assms(2) by blast
  then have "\<forall>kv \<in> set kvs. (case kv of (k, v) \<Rightarrow> Decode f zero v) \<noteq> None" by auto
  from those_Some [OF this] show ?thesis using Inr by (simp add: consul_read_all_def)
qed (simp add: consul_read_all_def)

text \<open>What is read is what a document that is stored decodes to.\<close>

lemma failing_read_stored:
  assumes "failing_store cl view" and "consul_read cl pre f zero key s = Ok x"
  shows "\<exists>v. content view pre s key = Some v \<and> \<not> no_bytes v \<and> Decode f zero v = Some x"
proof -
  obtain v where v: "kv_Get cl (full_key pre key) (cs_consul s) = Inr (Some v)" "\<not> no_bytes v" "Decode f zero v = Some x"
    using assms(2) by (auto simp: consul_read_def consul_get_def split: sum.splits option.splits if_splits)
  then have "view (cs_consul s) (full_key pre key) = Some v" using assms(1) by (simp add: failing_store_def)
  then show ?thesis using v by (simp add: content_def)
qed

lemma consul_read_pointer: "consul_read cl pre f zero key s \<noteq> Fail e None"
  by (auto simp: consul_read_def split: prod.split option.split)

lemma quiet_locks_content:
  assumes "quiet_locks lk view pre"
  shows "consul_LockIt lk l s = ((l', s'), err) \<Longrightarrow> content view pre s' = content view pre s"
    and "consul_UnlockIt lk l s = ((l', s'), err) \<Longrightarrow> content view pre s' = content view pre s"
proof -
  have lock: "view c' (full_key pre key) = view (cs_consul s) (full_key pre key)"
    if "lk_Lock lk k (cs_consul s) = ((k', c'), r)" for k k' c' r key
    using assms that by (auto simp: quiet_locks_def) (metis fst_conv snd_conv)
  have unlock: "view c' (full_key pre key) = view (cs_consul s) (full_key pre key)"
    if "lk_Unlock lk k (cs_consul s) = ((k', c'), r)" for k k' c' r key
    using assms that by (auto simp: quiet_locks_def) (metis fst_conv snd_conv)
  show "consul_LockIt lk l s = ((l', s'), err) \<Longrightarrow> content view pre s' = content view pre s"
    using lock by (auto simp: consul_LockIt_def content_def fun_eq_iff split: prod.splits option.splits)
  show "consul_UnlockIt lk l s = ((l', s'), err) \<Longrightarrow> content view pre s' = content view pre s"
    using unlock by (auto simp: consul_UnlockIt_def content_def fun_eq_iff split: prod.splits)
qed

interpretation consul_master: master_backend "service_good cl lk view pre" "consul_api cl pre" "consul_locks lk" storable "\<lambda>_. True"
  for cl :: "'c consul_client" and lk :: "('c, 'k) consul_lock_client" and view pre
proof
  fix b b' :: "'c consul" and c m n k and v :: uint and i e how q ts t d td pp block s s' err and cs :: cluster and l l' :: "'k consul_lock"
  show "NewLock (consul_locks lk) k block b \<noteq> Stops how"
    by (simp add: consul_locks_def consul_Lock_def split: sum.split)
  show "GetCluster (consul_api cl pre) c b \<noteq> Fail e None"
    by (simp add: consul_api_def consul_GetCluster_def consul_read_pointer)
  assume good: "service_good cl lk view pre b"
  then have store: "failing_store cl view" and locks: "quiet_locks lk view pre" and docs: "all_documents serves view pre b"
    by (simp_all add: service_good_def)
  have old: "all_documents reads_back view pre b" using service_outage [OF good] by (simp add: outage_good_def)
  have conf: "configures key v" if "content view pre b key = Some v" for key v
    using docs that by (simp add: all_documents_def serves_def)
  show "GetCluster (consul_api cl pre) c b \<noteq> Stops how"
  proof -
    have "no_bytes v \<or> Decode cluster_field zero_cluster v \<noteq> None" if "content view pre b (''config/clusters/'' @ c) = Some v" for v
      using conf [OF that] unfolding configures_def by blast
    from failing_read [OF store this] show ?thesis by (simp add: consul_api_def consul_GetCluster_def)
  qed
  show "GetDeployment (consul_api cl pre) m b \<noteq> Stops how" by (rule consul_agent.GetDeployment_returns [OF service_outage [OF good]])
  show "GetTaskDefinition (consul_api cl pre) m v b \<noteq> Stops how"
  proof -
    have "no_bytes x \<or> Decode definition_field zero_definition x \<noteq> None" if "content view pre b (definition_key m v) = Some x" for x
      using conf [OF that] unfolding configures_def by blast
    from failing_read [OF store this] show ?thesis by (simp add: consul_api_def consul_GetTaskDefinition_def)
  qed
  show "ListHosts (consul_api cl pre) m b \<noteq> Stops how"
  proof -
    have "consul_read_all cl pre host_field zero_host (''hosts/'' @ m) b \<noteq> Stops how"
    proof (rule failing_read_all [OF store])
      fix rest x
      assume "content view pre b ((''hosts/'' @ m) @ rest) = Some x"
      from conf [OF this] show "Decode host_field zero_host x \<noteq> None" unfolding configures_def by (metis append_assoc)
    qed
    then show ?thesis by (simp add: consul_api_def consul_ListHosts_def)
  qed
  show "ListTasks (consul_api cl pre) q b \<noteq> Stops Panicked" "ListTasks (consul_api cl pre) q b \<noteq> Stops how"
    using failing_ListTasks [OF store old] by (simp_all add: consul_api_def)
  show "storable (t\<lparr>tk_Scheduled := False\<rparr>)" if "ListTasks (consul_api cl pre) q b = Ok ts" "t \<in> set ts"
    using failing_ListTasks [OF store old, of q how ts] that by (simp add: consul_api_def storable_unscheduled)
  show "storable t" if d: "GetDeployment (consul_api cl pre) m b = Ok d" and td: "GetTaskDefinition (consul_api cl pre) n v b = Ok td"
    and i: "0 \<le> i" "i < dp_Desired d" and pl: "placement cs td d i s t s'"
  proof -
    have "small_deployment d"
      using d by (auto simp: consul_api_def consul_GetDeployment_def dest: consul_read_Decode Decode_deployment_small)
    moreover have "fits_definition td"
      using failing_read_stored [OF store, of pre definition_field zero_definition "definition_key n v" b td] td conf
      by (fastforce simp: consul_api_def consul_GetTaskDefinition_def configures_def)
    ultimately show ?thesis using placement_shape [OF pl] storable_new [OF _ _ i] by metis
  qed
  show "service_good cl lk view pre (fst (PutTask (consul_api cl pre) t b))" if "storable t"
    using all_documents_PutTask [OF store docs, of t] serves_task [OF that] store locks
    by (simp add: service_good_def consul_api_def)
  show "service_good cl lk view pre b'" if "LockIt (consul_locks lk) l b = ((l', b'), err)"
    using quiet_locks_content(1) [OF locks, of l b l' b' err] that good all_documents_content
    by (simp add: service_good_def consul_locks_def) blast
  show "service_good cl lk view pre b'" if "UnlockIt (consul_locks lk) l b = ((l', b'), err)"
    using quiet_locks_content(2) [OF locks, of l b l' b' err] that good all_documents_content
    by (simp add: service_good_def consul_locks_def) blast
qed simp

end
