(* ===== verification/Outage_Properties.thy ===== *)
theory Outage_Properties
  imports Outages Master_Properties
begin

text \<open>
  What the agent and the master survive: a Consul whose calls fail as they please while the goroutines of
  the process and everybody else who writes take turns.
\<close>

section \<open>The agent\<close>


text \<open>A client that can list but not get or put, and a store with a task of the agent's host.\<close>

definition deaf_consul :: "store consul_client" where
  "deaf_consul = local_consul\<lparr>
     kv_Get := (\<lambda>k c. Inl (OtherError ''no leader'')), kv_Put := (\<lambda>k v c. (c, Some (OtherError ''no leader'')))\<rparr>"

lemma deaf_consul_failing: "failing_store deaf_consul lookup"
  using kv_store_failing [OF local_consul_store] by (simp add: failing_store_def deaf_consul_def)

definition task_store :: "store consul" where
  "task_store = fst (consul_PutTask local_consul ''sked'' (cx_task 0) (NewConsulApi []))"

lemma task_store_documents: "all_documents reads_back lookup ''sked'' task_store"
proof -
  have "all_documents reads_back lookup ''sked'' (NewConsulApi [])" by (simp add: all_documents_def content_def NewConsulApi_def)
  then show ?thesis
    unfolding task_store_def
    by (rule all_documents_PutTask [OF kv_store_failing [OF local_consul_store]]) (simp add: reads_back_task cx_task_storable in_int64_def)
qed


section \<open>The master\<close>

text \<open>What the processes write: documents that can be read, deletions and registrations.\<close>

definition readable_writes :: "'c consul_client \<Rightarrow> string \<Rightarrow> 'c consul command set" where
  "readable_writes cl pre =
     {consul_put cl pre key v | key v. serves key v} \<union> range (consul_del cl pre) \<union>
     range (\<lambda>r. consul_run (ServiceRegister cl r)) \<union> range (\<lambda>i. consul_run (ServiceDeregister cl i))"

lemma readable_writes_keep:
  assumes "cmd \<in> readable_writes cl pre" and "service_good cl lk view pre b"
  shows "service_good cl lk view pre (fst (cmd b))"
proof -
  have store: "failing_store cl view" and docs: "all_documents serves view pre b" using assms(2) by (simp_all add: service_good_def)
  have services: "content view pre (fst (consul_run (ServiceRegister cl r) b)) = content view pre b"
    "content view pre (fst (consul_run (ServiceDeregister cl i) b)) = content view pre b" for r i
    using store by (simp_all add: content_def failing_store_def fun_eq_iff)
  consider key v where "cmd = consul_put cl pre key v" "serves key v" | key where "cmd = consul_del cl pre key"
    | r where "cmd = consul_run (ServiceRegister cl r)" | i where "cmd = consul_run (ServiceDeregister cl i)"
    using assms(1) by (auto simp: readable_writes_def)
  then have "all_documents serves view pre (fst (cmd b))"
  proof cases
    case 1
    then show ?thesis using all_documents_put [OF store docs] by simp
  next
    case 2
    then show ?thesis using all_documents_del [OF store docs] by simp
  next
    case 3
    then show ?thesis using all_documents_content [OF services(1)] docs by simp
  next
    case 4
    then show ?thesis using all_documents_content [OF services(2)] docs by simp
  qed
  then show ?thesis using assms(2) by (simp add: service_good_def)
qed


text \<open>A client that cannot write, and the store of the examples.\<close>

definition mute_consul :: "store consul_client" where
  "mute_consul = local_consul\<lparr>kv_Put := (\<lambda>k v c. (c, Some (OtherError ''no leader'')))\<rparr>"

lemma mute_consul_failing: "failing_store mute_consul lookup"
  using kv_store_failing [OF local_consul_store] by (simp add: failing_store_def mute_consul_def)

lemma cx_documents: "all_documents serves lookup ''sked'' (cx_store [])"
proof -
  have host: "Decode host_field zero_host (Doc (encode_host (ex_host ''h'' 1000))) \<noteq> None"
    using decode_host [of "ex_host ''h'' 1000"]
    by (simp add: Decode_def fits_host_def fits_resources_def ex_host_def box_def in_int64_def sorted_map_same)
  have def: "Decode definition_field zero_definition (Doc (encode_definition cx_definition)) = Some cx_definition"
    using decode_definition_top [OF cx_fits] by (simp add: Decode_def)
  have dep: "Decode deployment_field zero_deployment (Doc (encode_deployment (ex_deployment 2))) \<noteq> None"
    using decode_deployment [of "ex_deployment 2"] by (simp add: Decode_def fits_deployment_def fits_uint_def in_int64_def ex_deployment_def)
  have clu: "Decode cluster_field zero_cluster (Doc (encode_cluster ex_cluster)) \<noteq> None"
    using decode_cluster [of ex_cluster] by (simp add: Decode_def)
  have "serves (host_key ''c'' ''h'') (Doc (encode_host (ex_host ''h'' 1000)))"
    "serves (definition_key ''t'' 1) (Doc (encode_definition cx_definition))"
    "serves ''config/deployments/d'' (Doc (encode_deployment (ex_deployment 2)))"
    "serves ''config/clusters/c'' (Doc (encode_cluster ex_cluster))"
    using host def dep clu cx_fits
    by (simp_all add: serves_def reads_back_def configures_def host_key_def definition_key_def task_key_def deployment_key_def)
  then show ?thesis unfolding all_documents_def cx_content by (auto split: if_splits)
qed


end
