(* ===== verification/Consul_Agent.thy ===== *)
theory Consul_Agent
  imports Agent_Turns Consul_Tasks
begin

text \<open>
  The laws of \<open>agent_backend\<close> for the Consul backend: what is proved of the agent holds over Consul too.
  The state a task is reported in follows from the text that was last written for it and from the checks
  of its service; Consul keeps the checks of different services apart.
\<close>

section \<open>Checks\<close>

text \<open>
  The documented behaviour of the checks: the store does not touch them, and registering or deregistering
  a service leaves those of the other services as they are.
\<close>

definition checks_apart :: "'c consul_client \<Rightarrow> bool" where
  "checks_apart cl \<longleftrightarrow>
     (\<forall>n k v c. Checks cl n (fst (kv_Put cl k v c)) = Checks cl n c) \<and>
     (\<forall>n k c. Checks cl n (fst (kv_Delete cl k c)) = Checks cl n c) \<and>
     (\<forall>n r c chs chs'. Checks cl n c = Inr chs \<longrightarrow> Checks cl n (fst (ServiceRegister cl r c)) = Inr chs' \<longrightarrow>
        {ch \<in> set chs'. hk_ServiceID ch \<noteq> rg_ID r} = {ch \<in> set chs. hk_ServiceID ch \<noteq> rg_ID r}) \<and>
     (\<forall>n i c chs chs'. Checks cl n c = Inr chs \<longrightarrow> Checks cl n (fst (ServiceDeregister cl i c)) = Inr chs' \<longrightarrow>
        {ch \<in> set chs'. hk_ServiceID ch \<noteq> i} = {ch \<in> set chs. hk_ServiceID ch \<noteq> i})"

definition written_state :: "('c \<Rightarrow> string \<Rightarrow> kv_value option) \<Rightarrow> string \<Rightarrow> 'c consul \<Rightarrow> string \<Rightarrow> task_state" where
  "written_state view pre s k =
     (case content view pre s (''state/health/'' @ k) of None \<Rightarrow> PENDING | Some v \<Rightarrow> state_text v)"

definition own_checks :: "'c consul_client \<Rightarrow> 'c consul \<Rightarrow> task \<Rightarrow> check_status set" where
  "own_checks cl s t = (case Checks cl (''task-'' @ task_Name t) (cs_consul s) of
     Inl _ \<Rightarrow> {} | Inr chs \<Rightarrow> {ch \<in> set chs. hk_ServiceID ch = ''task-'' @ task_ID t})"

text \<open>The state a task is reported in.\<close>

definition reported_state :: "'c consul_client \<Rightarrow> ('c \<Rightarrow> string \<Rightarrow> kv_value option) \<Rightarrow> string \<Rightarrow> 'c consul \<Rightarrow> task \<Rightarrow> task_state" where
  "reported_state cl view pre s t =
     (let st = written_state view pre s (task_ID t); mine = own_checks cl s t in
      if st \<in> {STOPPING, STARTING, EXITED} then st
      else if \<exists>ch \<in> mine. hk_Status ch \<noteq> ''passing'' then FAILING else if mine \<noteq> {} then RUNNING else st)"

lemma GetTaskState_reported:
  assumes "kv_store cl view"
  shows "consul_GetTaskState cl pre t s = Ok (reported_state cl view pre s t)"
proof -
  obtain chs where chs: "Checks cl (''task-'' @ task_Name t) (cs_consul s) = Inr chs"
    using kv_store_checks [OF assms] by blast
  then have "own_checks cl s t = {ch \<in> set chs. hk_ServiceID ch = ''task-'' @ task_ID t}" by (simp add: own_checks_def)
  from consul_GetTaskState_reads [OF assms chs refl this, of pre] show ?thesis
    by (simp add: consul_api_def reported_state_def written_state_def Let_def)
qed

lemma reported_state_cong:
  "written_state view pre s' (task_ID t) = written_state view pre s (task_ID t) \<Longrightarrow> own_checks cl s' t = own_checks cl s t \<Longrightarrow>
   reported_state cl view pre s' t = reported_state cl view pre s t"
  by (simp add: reported_state_def)

lemma own_checks_store:
  assumes "checks_apart cl"
  shows "own_checks cl (fst (consul_put cl pre key v s)) t = own_checks cl s t"
    and "own_checks cl (fst (consul_del cl pre key s)) t = own_checks cl s t"
  using assms by (simp_all add: checks_apart_def own_checks_def consul_put_def consul_del_def)

lemma own_checks_services:
  assumes "kv_store cl view" and "checks_apart cl"
  shows "rg_ID r \<noteq> ''task-'' @ task_ID t \<Longrightarrow> own_checks cl (fst (consul_run (ServiceRegister cl r) s)) t = own_checks cl s t"
    and "i \<noteq> ''task-'' @ task_ID t \<Longrightarrow> own_checks cl (fst (consul_run (ServiceDeregister cl i) s)) t = own_checks cl s t"
proof -
  let ?n = "''task-'' @ task_Name t"
  have answers: "\<exists>chs. Checks cl ?n c = Inr chs" for c using kv_store_checks [OF assms(1)] .
  have part: "{ch \<in> A. hk_ServiceID ch = k} = {ch \<in> B. hk_ServiceID ch = k}"
    if "{ch \<in> A. hk_ServiceID ch \<noteq> j} = {ch \<in> B. hk_ServiceID ch \<noteq> j}" "j \<noteq> k" for A B :: "check_status set" and j k
    using that by blast
  obtain chs where chs: "Checks cl ?n (cs_consul s) = Inr chs" using answers by blast
  show "own_checks cl (fst (consul_run (ServiceRegister cl r) s)) t = own_checks cl s t" if r: "rg_ID r \<noteq> ''task-'' @ task_ID t"
  proof -
    obtain chs' where chs': "Checks cl ?n (fst (ServiceRegister cl r (cs_consul s))) = Inr chs'" using answers by blast
    have "{ch \<in> set chs'. hk_ServiceID ch \<noteq> rg_ID r} = {ch \<in> set chs. hk_ServiceID ch \<noteq> rg_ID r}"
      using assms(2) chs chs' unfolding checks_apart_def by blast
    from part [OF this r] show ?thesis using chs chs' by (simp add: own_checks_def)
  qed
  show "own_checks cl (fst (consul_run (ServiceDeregister cl i) s)) t = own_checks cl s t" if i: "i \<noteq> ''task-'' @ task_ID t"
  proof -
    obtain chs' where chs': "Checks cl ?n (fst (ServiceDeregister cl i (cs_consul s))) = Inr chs'" using answers by blast
    have "{ch \<in> set chs'. hk_ServiceID ch \<noteq> i} = {ch \<in> set chs. hk_ServiceID ch \<noteq> i}"
      using assms(2) chs chs' unfolding checks_apart_def by blast
    from part [OF this i] show ?thesis using chs chs' by (simp add: own_checks_def)
  qed
qed

section \<open>The laws\<close>

text \<open>What the agent needs beside: the checks kept apart, and deployments that can be read.\<close>

definition agent_good :: "'c consul_client \<Rightarrow> ('c \<Rightarrow> string \<Rightarrow> kv_value option) \<Rightarrow> string \<Rightarrow> 'c consul \<Rightarrow> bool" where
  "agent_good cl view pre s \<longleftrightarrow>
     consul_good cl view pre s \<and> checks_apart cl \<and> (\<forall>m how. consul_GetDeployment cl pre m s \<noteq> Stops how)"

text \<open>A write of something else than tasks and configuration.\<close>

lemma consul_good_frame:
  assumes "consul_good cl view pre s"
    and "\<And>k. content view pre s' (task_key k) = content view pre s (task_key k)"
    and "\<And>n v. content view pre s' (definition_key n v) = content view pre s (definition_key n v)"
  shows "consul_good cl view pre s'"
proof -
  note store = consul_goodD(1) [OF assms(1)]
  have "consul_GetTaskDefinition cl pre n v s' = consul_GetTaskDefinition cl pre n v s" for n v
    unfolding consul_GetTaskDefinition_def by (rule consul_read_cong [OF store assms(3)])
  then show ?thesis using assms(1) tasks_frame [of view pre s' s, OF assms(2)] by (simp add: consul_good_def)
qed

lemma consul_GetDeployment_cong:
  "kv_store cl view \<Longrightarrow> content view pre s' (''config/deployments/'' @ m) = content view pre s (''config/deployments/'' @ m) \<Longrightarrow>
   consul_GetDeployment cl pre m s' = consul_GetDeployment cl pre m s"
  unfolding consul_GetDeployment_def by (rule consul_read_cong)

lemmas key_defs = task_key_def definition_key_def host_key_def

text \<open>A write under a key that does not hold a state leaves the states alone.\<close>

lemma written_state_frame:
  "(\<And>k. content view pre s' (''state/health/'' @ k) = content view pre s (''state/health/'' @ k)) \<Longrightarrow>
   written_state view pre s' = written_state view pre s"
  by (simp add: written_state_def fun_eq_iff)

lemma consul_PutTask_agent:
  assumes "kv_store cl view" and "checks_apart cl"
  shows "written_state view pre (fst (consul_PutTask cl pre t s)) = written_state view pre s"
    and "task_ID u \<noteq> task_ID t \<Longrightarrow> reported_state cl view pre (fst (consul_PutTask cl pre t s)) u = reported_state cl view pre s u"
proof -
  show w: "written_state view pre (fst (consul_PutTask cl pre t s)) = written_state view pre s"
    using consul_PutTask_content [OF assms(1), of pre t s] by (intro written_state_frame) (simp add: key_defs)
  show "reported_state cl view pre (fst (consul_PutTask cl pre t s)) u = reported_state cl view pre s u" if "task_ID u \<noteq> task_ID t"
  proof (rule reported_state_cong)
    have "rg_ID (task_registration t) \<noteq> ''task-'' @ task_ID u" using that by (simp add: task_registration_def)
    from own_checks_services(1) [OF assms this] show "own_checks cl (fst (consul_PutTask cl pre t s)) u = own_checks cl s u"
      by (simp add: consul_PutTask_def own_checks_store [OF assms(2)] consul_register_def)
  qed (simp add: w)
qed

lemma consul_DelTask_agent:
  assumes "kv_store cl view" and "checks_apart cl"
  shows "written_state view pre (fst (consul_DelTask cl pre t s)) = written_state view pre s"
    and "task_ID u \<noteq> task_ID t \<Longrightarrow> reported_state cl view pre (fst (consul_DelTask cl pre t s)) u = reported_state cl view pre s u"
proof -
  show w: "written_state view pre (fst (consul_DelTask cl pre t s)) = written_state view pre s"
    using consul_DelTask_content [OF assms(1), of pre t s] by (intro written_state_frame) (simp add: key_defs)
  show "reported_state cl view pre (fst (consul_DelTask cl pre t s)) u = reported_state cl view pre s u" if "task_ID u \<noteq> task_ID t"
  proof (rule reported_state_cong)
    have "''task-'' @ task_ID t \<noteq> ''task-'' @ task_ID u" using that by simp
    from own_checks_services(2) [OF assms this] show "own_checks cl (fst (consul_DelTask cl pre t s)) u = own_checks cl s u"
      by (simp add: consul_DelTask_def own_checks_store [OF assms(2)] consul_deRegister_def)
  qed (simp add: w)
qed

lemma consul_PutTaskState_content:
  assumes "kv_store cl view"
  shows "content view pre (fst (consul_PutTaskState cl pre k st s)) = (content view pre s)(''state/health/'' @ k \<mapsto> Raw st) \<and>
    snd (consul_PutTaskState cl pre k st s) = None"
  unfolding consul_PutTaskState_def by (rule content_put [OF assms])

lemma consul_PutTaskState_agent:
  assumes "kv_store cl view" and "checks_apart cl"
  shows "written_state view pre (fst (consul_PutTaskState cl pre k st s)) = (written_state view pre s)(k := st)"
    and "task_ID u \<noteq> k \<Longrightarrow> reported_state cl view pre (fst (consul_PutTaskState cl pre k st s)) u = reported_state cl view pre s u"
proof -
  show w: "written_state view pre (fst (consul_PutTaskState cl pre k st s)) = (written_state view pre s)(k := st)"
    using consul_PutTaskState_content [OF assms(1), of pre k st s] by (simp add: written_state_def state_text_def fun_eq_iff)
  show "reported_state cl view pre (fst (consul_PutTaskState cl pre k st s)) u = reported_state cl view pre s u" if "task_ID u \<noteq> k"
  proof (rule reported_state_cong)
    show "own_checks cl (fst (consul_PutTaskState cl pre k st s)) u = own_checks cl s u"
      by (simp add: consul_PutTaskState_def own_checks_store [OF assms(2)])
  qed (simp add: w that)
qed

text \<open>What is good stays good.\<close>

lemma agent_goodD:
  assumes "agent_good cl view pre s"
  shows "consul_good cl view pre s" "kv_store cl view" "checks_apart cl" "consul_GetDeployment cl pre m s \<noteq> Stops how"
  using assms consul_goodD(1) by (auto simp: agent_good_def)

lemma agent_good_frame:
  assumes "agent_good cl view pre s" and "content view pre s' = (content view pre s)(key := v)"
    and "\<And>k. key \<noteq> task_key k" and "\<And>n v. key \<noteq> definition_key n v" and "\<And>m. key \<noteq> ''config/deployments/'' @ m"
  shows "agent_good cl view pre s'" and "consul_GetDeployment cl pre m s' = consul_GetDeployment cl pre m s"
    and "stored_task view pre s' = stored_task view pre s"
proof -
  have other: "content view pre s' key' = content view pre s key'" if "key' \<noteq> key" for key' using assms(2) that by simp
  show dep: "consul_GetDeployment cl pre m s' = consul_GetDeployment cl pre m s" for m
    using assms(5) by (intro consul_GetDeployment_cong [OF agent_goodD(2) [OF assms(1)]] other) metis
  have "consul_good cl view pre s'"
    by (rule consul_good_frame [OF agent_goodD(1) [OF assms(1)]]) (use assms(3,4) other in metis)+
  then show "agent_good cl view pre s'" using assms(1) dep by (simp add: agent_good_def)
  show "stored_task view pre s' = stored_task view pre s" by (rule tasks_frame(1)) (use assms(3) other in metis)
qed

lemma agent_good_DelTask:
  assumes "agent_good cl view pre s"
  shows "agent_good cl view pre (fst (consul_DelTask cl pre t s))"
    and "consul_GetDeployment cl pre m (fst (consul_DelTask cl pre t s)) = consul_GetDeployment cl pre m s"
proof -
  note store = agent_goodD(2) [OF assms]
  note c = conjunct1 [OF consul_DelTask_content [OF store, of pre t s]]
  show dep: "consul_GetDeployment cl pre m (fst (consul_DelTask cl pre t s)) = consul_GetDeployment cl pre m s" for m
    by (rule consul_GetDeployment_cong [OF store]) (simp add: c key_defs)
  have "consul_GetTaskDefinition cl pre n v (fst (consul_DelTask cl pre t s)) = consul_GetTaskDefinition cl pre n v s" for n v
    unfolding consul_GetTaskDefinition_def by (rule consul_read_cong [OF store]) (simp add: c key_defs)
  then have "consul_good cl view pre (fst (consul_DelTask cl pre t s))"
    using assms consul_DelTask_store [OF store, of pre t s] by (auto simp: agent_good_def consul_good_def ran_def split: if_splits)
  then show "agent_good cl view pre (fst (consul_DelTask cl pre t s))" using assms dep by (simp add: agent_good_def)
qed

interpretation consul_agent_tasks: task_backend "agent_good cl view pre" "consul_api cl pre" "stored_task view pre"
    storable small_deployment for cl :: "'c consul_client" and view pre
proof
  fix b :: "'c consul" and k n v t d td i pp c h and q :: task_query
  assume good: "agent_good cl view pre b"
  note old = agent_goodD(1) [OF good]
  show "stored_task view pre b k = Some t \<Longrightarrow> task_ID t = k" by (rule consul_tasks.tasks_key [OF old])
  show "stored_task view pre b k = Some t \<Longrightarrow> storable t" by (rule consul_tasks.tasks_fine [OF old])
  show "GetTaskDefinition (consul_api cl pre) n v b = Ok td \<Longrightarrow> small_deployment d \<Longrightarrow> 0 \<le> i \<Longrightarrow> i < dp_Desired d \<Longrightarrow>
      listed_ports pp \<Longrightarrow> storable ((NewTask c td d i)\<lparr>tk_Host := h, tk_ProvidedPorts := pp, tk_Scheduled := True\<rparr>)"
    by (rule consul_tasks.fine_new [OF old])
  show "GetDeployment (consul_api cl pre) n b = Ok d \<Longrightarrow> small_deployment d" by (rule consul_tasks.deployment_sane [OF old])
  show "\<not> tq_Failing q \<Longrightarrow> \<not> tq_Running q \<Longrightarrow> \<exists>ts. ListTasks (consul_api cl pre) q b = Ok ts \<and>
      set ts = {t \<in> ran (stored_task view pre b). selects q PENDING t} \<and> distinct (map task_ID ts)"
    by (rule consul_tasks.ListTasks_selects [OF old])
  assume fine: "storable t"
  show "GetTaskDefinition (consul_api cl pre) n v (fst (PutTask (consul_api cl pre) t b)) = GetTaskDefinition (consul_api cl pre) n v b"
    "GetDeployment (consul_api cl pre) n (fst (PutTask (consul_api cl pre) t b)) = GetDeployment (consul_api cl pre) n b"
    "GetCluster (consul_api cl pre) n (fst (PutTask (consul_api cl pre) t b)) = GetCluster (consul_api cl pre) n b"
    "ListHosts (consul_api cl pre) n (fst (PutTask (consul_api cl pre) t b)) = ListHosts (consul_api cl pre) n b"
    by (rule consul_tasks.PutTask_config [OF old fine])+
  show "snd (PutTask (consul_api cl pre) t b) = None" by (rule consul_tasks.PutTask_ok [OF old fine])
  show "stored_task view pre (fst (PutTask (consul_api cl pre) t b)) = (stored_task view pre b)(task_ID t \<mapsto> t)"
    by (rule consul_tasks.PutTask_tasks [OF old fine])
  have "consul_good cl view pre (fst (PutTask (consul_api cl pre) t b))" by (rule consul_tasks.PutTask_good [OF old fine])
  then show "agent_good cl view pre (fst (PutTask (consul_api cl pre) t b))"
    using good consul_PutTask_config(2) [OF agent_goodD(2) [OF good]] by (simp add: agent_good_def consul_api_def)
qed (rule storable_unscheduled)

interpretation consul_backend: agent_backend "agent_good cl view pre" "consul_api cl pre" "stored_task view pre"
    storable small_deployment "written_state view pre" "reported_state cl view pre" for cl :: "'c consul_client" and view pre
proof
  fix b :: "'c consul" and t u reason k s m how h
  show "storable t \<Longrightarrow> storable (t\<lparr>tk_RejectReason := reason, tk_Rejected := True\<rparr>)" by (simp add: storable_iff fits_task_def)
  assume good: "agent_good cl view pre b"
  note store = agent_goodD(2) [OF good] and apart = agent_goodD(3) [OF good]
  show "GetTaskState (consul_api cl pre) t b = Ok (reported_state cl view pre b t)"
    by (simp add: consul_api_def GetTaskState_reported [OF store])
  show "written_state view pre b (task_ID t) \<in> {STARTING, STOPPING, EXITED} \<Longrightarrow>
      reported_state cl view pre b t = written_state view pre b (task_ID t)"
    by (auto simp: reported_state_def)
  note state = consul_PutTaskState_content [OF store, of pre k s b]
  show "snd (PutTaskState (consul_api cl pre) k s b) = None" using state by (simp add: consul_api_def)
  show "written_state view pre (fst (PutTaskState (consul_api cl pre) k s b)) = (written_state view pre b)(k := s)"
    "task_ID u \<noteq> k \<Longrightarrow> reported_state cl view pre (fst (PutTaskState (consul_api cl pre) k s b)) u = reported_state cl view pre b u"
    by (simp_all add: consul_api_def consul_PutTaskState_agent [OF store apart])
  show "agent_good cl view pre (fst (PutTaskState (consul_api cl pre) k s b))"
    "GetDeployment (consul_api cl pre) m (fst (PutTaskState (consul_api cl pre) k s b)) = GetDeployment (consul_api cl pre) m b"
    "stored_task view pre (fst (PutTaskState (consul_api cl pre) k s b)) = stored_task view pre b"
    using agent_good_frame [OF good conjunct1 [OF state]] by (simp_all add: consul_api_def key_defs del: fun_upd_apply)
  show "written_state view pre (fst (PutTask (consul_api cl pre) t b)) = written_state view pre b"
    "task_ID u \<noteq> task_ID t \<Longrightarrow> reported_state cl view pre (fst (PutTask (consul_api cl pre) t b)) u = reported_state cl view pre b u"
    by (simp_all add: consul_api_def consul_PutTask_agent [OF store apart])
  show "snd (DelTask (consul_api cl pre) t b) = None"
    "stored_task view pre (fst (DelTask (consul_api cl pre) t b)) = (stored_task view pre b)(task_ID t := None)"
    using consul_DelTask_store [OF store] by (simp_all add: consul_api_def)
  show "agent_good cl view pre (fst (DelTask (consul_api cl pre) t b))"
    "GetDeployment (consul_api cl pre) m (fst (DelTask (consul_api cl pre) t b)) = GetDeployment (consul_api cl pre) m b"
    using agent_good_DelTask [OF good] by (simp_all add: consul_api_def)
  show "written_state view pre (fst (DelTask (consul_api cl pre) t b)) = written_state view pre b"
    "task_ID u \<noteq> task_ID t \<Longrightarrow> reported_state cl view pre (fst (DelTask (consul_api cl pre) t b)) u = reported_state cl view pre b u"
    by (simp_all add: consul_api_def consul_DelTask_agent [OF store apart])
  show "agent_good cl view pre (fst (PutHost (consul_api cl pre) h b))"
    using agent_good_frame(1) [OF good conjunct1 [OF consul_PutHost_content [OF store, of pre h b]]]
    by (simp add: consul_api_def key_defs)
  show "GetDeployment (consul_api cl pre) m b \<noteq> Stops how" using agent_goodD(4) [OF good] by (simp add: consul_api_def)
qed

end
