(* ===== verification/Consul_Agent_Properties.thy ===== *)
theory Consul_Agent_Properties
  imports Consul_Agent Consul_Schedule
begin

text \<open>
  The properties of the agent over Consul, and of the master and the agents of the hosts together.
\<close>

section \<open>Starting what is scheduled\<close>

lemma written_started:
  "written_state view pre s k = STARTED \<Longrightarrow> content view pre s (''state/health/'' @ k) = Some (Raw STARTED)"
  by (auto simp: written_state_def state_text_def task_state_defs split: option.splits kv_value.splits)

text \<open>
  C14. Over Consul a task of the host that is scheduled, not rejected, new to the agent and neither
  starting nor healthy by its checks is started by one sync and the work of the runners, if its deployment
  is stored, its ports are free and its commands succeed.
\<close>

theorem consul_task_started:
  assumes "agent_good cl view pre (nd_backend n)" and "ag_queue (nd_agent n) = []"
    and "stored_task view pre (nd_backend n) k = Some t"
    and "tk_Host t = ag_Host (nd_agent n)" and "tk_Cluster t = ac_Cluster (ag_Config (nd_agent n))"
    and "tk_Scheduled t" and "\<not> tk_Rejected t" and "lookup (ag_TaskState (nd_agent n)) k = None"
    and "reported_state cl view pre (nd_backend n) t \<noteq> STARTING" and "\<not> Healthy (reported_state cl view pre (nd_backend n) t)"
    and "GetDeployment (consul_api cl pre) (tk_Deployment t) (nd_backend n) = Ok d" and "0 \<le> dp_MaxAttempts d"
    and "td_GracePeriod (tk_TaskDefinition t) \<le> now"
    and "\<forall>p \<in> set (AllPorts (tk_TaskDefinition t)). p \<le> 65535 \<and> (\<forall>w. bindable p w)"
    and "reliable sys" and "runnable t"
    and "card {u \<in> ran (stored_task view pre (nd_backend n)). selects (agent_query (nd_agent n)) PENDING u} \<le> 500"
  shows "\<exists>n'. agent_sync (consul_api cl pre) sys bindable now n = Returns n' \<and>
    content view pre (nd_backend ((runner_step (consul_api cl pre) sys later ^^ length (ag_queue (nd_agent n'))) n'))
      (''state/health/'' @ k) = Some (Raw STARTED)"
proof -
  have k: "task_ID t = k" by (rule consul_agent_tasks.tasks_key [OF assms(1,3)])
  have "ready (consul_api cl pre) (reported_state cl view pre) bindable now t n"
    by (rule ready_new [where d = d]) (use assms k in simp_all)
  moreover have "selects (agent_query (nd_agent n)) PENDING t"
    using assms(4,5) by (simp add: selects_def agent_query_def any_task_def)
  ultimately show ?thesis
    using consul_backend.ready_task_started [OF assms(1,2), of t bindable now sys later] assms(3,15-17) k written_started by blast
qed

text \<open>The store of the examples, with a task of the host \<open>h\<close>, and the agent of that host.\<close>

lemma local_checks_apart: "checks_apart local_consul"
  by (simp add: checks_apart_def local_consul_def)

lemma cx_deployments:
  assumes "\<forall>key. content lookup ''sked'' s key \<noteq> content lookup ''sked'' (cx_store []) key \<longrightarrow> (\<exists>k. key = task_key k)"
  shows "consul_GetDeployment local_consul ''sked'' m s \<noteq> Stops how"
proof -
  have same: "GetDeployment (consul_api local_consul ''sked'') m s = GetDeployment (consul_api local_consul ''sked'') m (cx_store [])"
    by (rule consul_config_cong(2) [OF local_consul_store assms])
  show ?thesis
  proof (cases "m = ''d''")
    case True
    then show ?thesis using same cx_config(2) [of "[]"] by (simp add: consul_api_def)
  next
    case False
    then have "content lookup ''sked'' (cx_store []) (''config/deployments/'' @ m) = None"
      by (subst cx_other_content) (simp_all add: task_key_def host_key_def definition_key_def)
    then show ?thesis
      using same by (simp add: consul_api_def consul_GetDeployment_def consul_read_none [OF local_consul_store])
  qed
qed

lemma cx_agent_good: "\<forall>t \<in> set ts. storable t \<Longrightarrow> agent_good local_consul lookup ''sked'' (cx_store ts)"
proof -
  assume st: "\<forall>t \<in> set ts. storable t"
  have "consul_GetDeployment local_consul ''sked'' m (cx_store ts) \<noteq> Stops how" for m how
    by (rule cx_deployments) (metis cx_other_content)
  then show ?thesis using cx_good [OF st] local_checks_apart by (simp add: agent_good_def)
qed

lemma cx_task_fields [simp]:
  "tk_Host (cx_task i) = ''h''" "tk_Cluster (cx_task i) = ''c''" "tk_Deployment (cx_task i) = ''d''"
  "tk_Scheduled (cx_task i)" "\<not> tk_Rejected (cx_task i)" "tk_TaskDefinition (cx_task i) = cx_definition"
  "td_GracePeriod cx_definition = 60 * second" "AllPorts cx_definition = []" "td_Containers cx_definition = [cx_container]"
  by (simp_all add: cx_task_def cx_definition_def cx_container_def ex_task_def NewTask_def ex_cluster_def ex_deployment_def
      ex_definition_def AllPorts_def ex_container_def)

lemma cx_runnable: "tk_TaskDefinition t = cx_definition \<Longrightarrow> runnable t"
proof -
  have "run_container [] = cx_container" by (simp add: cx_container_def run_container_def ex_container_def)
  then have "GetExecutor cx_container \<noteq> None" using run_executor [of "[]"] by simp
  then show "tk_TaskDefinition t = cx_definition \<Longrightarrow> runnable t" by (simp add: runnable_def)
qed

lemma local_reports: "reported_state local_consul lookup ''sked'' s t = written_state lookup ''sked'' s (task_ID t)"
  by (simp add: reported_state_def own_checks_def local_consul_def Let_def)

definition cx_node :: "store consul \<Rightarrow> (store consul, exec_command list) node" where
  "cx_node s = \<lparr>nd_agent = run_agent, nd_backend = s, nd_machine = []\<rparr>"

lemma cx_node_fields [simp]: "nd_agent (cx_node s) = run_agent" "nd_backend (cx_node s) = s" "nd_machine (cx_node s) = []"
  by (simp_all add: cx_node_def)

lemma cx_no_state: "written_state lookup ''sked'' (cx_store ts) k = PENDING"
proof -
  have "content lookup ''sked'' (cx_store ts) (''state/health/'' @ k) = None"
    by (subst cx_other_content) (simp_all add: task_key_def host_key_def definition_key_def)
  then show ?thesis by (simp add: written_state_def)
qed

lemma pending_simps [simp]: "PENDING \<noteq> STARTING" "\<not> Healthy PENDING"
  by (simp_all add: Healthy_def task_state_defs)

theorem consul_task_started_witness:
  "\<exists>n'. agent_sync (consul_api local_consul ''sked'') log_system run_ports (60 * second) (cx_node (cx_store [cx_task 0])) = Returns n' \<and>
    content lookup ''sked'' (nd_backend ((runner_step (consul_api local_consul ''sked'') log_system 0 ^^ length (ag_queue (nd_agent n'))) n'))
      (''state/health/'' @ task_ID (cx_task 0)) = Some (Raw STARTED)"
proof -
  have st: "\<forall>t \<in> set [cx_task 0]. storable t" by (simp add: cx_task_storable in_int64_def)
  have "card {u \<in> ran (stored_task lookup ''sked'' (cx_store [cx_task 0])). selects (agent_query run_agent) PENDING u} \<le> card {cx_task 0}"
    unfolding cx_stored [OF st] by (rule card_mono) (auto simp: ran_def split: if_splits)
  then show ?thesis
    by (intro consul_task_started [where view = lookup and t = "cx_task 0" and d = "ex_deployment 2"])
      (simp_all add: cx_agent_good [OF st] cx_stored [OF st] local_reports cx_no_state cx_config cx_runnable run_ports_def ex_deployment_def)
qed

text \<open>
  C17. Over Consul the agent starts a task only with good reason: it is scheduled and not rejected, its
  deployment is stored, it is not reported as starting, it has been left alone for its grace period, it has
  attempts left unless it is healthy, and all its ports can be bound. The entry then says that it is
  starting.
\<close>

theorem consul_start_justified:
  assumes "syncTask (consul_api cl pre) sys bindable now t n = Returns (n', Some (Start u))"
    and "agent_good cl view pre (nd_backend n)"
  shows "u = t \<and> tk_Scheduled t \<and> \<not> tk_Rejected t \<and> reported_state cl view pre (nd_backend n) t \<noteq> STARTING \<and>
    te_StartedAt (entry_of t n) + td_GracePeriod (tk_TaskDefinition t) \<le> now \<and>
    (\<exists>d. GetDeployment (consul_api cl pre) (tk_Deployment t) (nd_backend n) = Ok d \<and>
      (\<not> Healthy (reported_state cl view pre (nd_backend n) t) \<longrightarrow> te_Attempts (entry_of t n) \<le> dp_MaxAttempts d)) \<and>
    (\<forall>p \<in> set (AllPorts (tk_TaskDefinition t)). p \<le> 65535 \<and> bindable p (nd_machine n')) \<and>
    (\<exists>e. lookup (ag_TaskState (nd_agent n')) (task_ID t) = Some e \<and> te_State e = STARTING \<and> te_StartedAt e = now)"
  by (rule consul_backend.start_reasons [OF assms])

lemma cx_node_start:
  assumes "\<forall>t \<in> set ts. storable t"
  shows "\<exists>n'. syncTask (consul_api local_consul ''sked'') log_system run_ports (60 * second) (cx_task 0) (cx_node (cx_store ts)) =
    Returns (n', Some (Start (cx_task 0)))"
proof -
  have "ready (consul_api local_consul ''sked'') (reported_state local_consul lookup ''sked'') run_ports (60 * second) (cx_task 0) (cx_node (cx_store ts))"
    by (rule ready_new [where d = "ex_deployment 2"])
      (simp_all add: local_reports cx_no_state cx_config run_ports_def ex_deployment_def)
  from consul_backend.syncTask_ready [OF _ this, of log_system] show ?thesis using cx_agent_good [OF assms] by simp
qed

theorem consul_start_justified_witness:
  "\<exists>n' d. syncTask (consul_api local_consul ''sked'') log_system run_ports (60 * second) (cx_task 0) (cx_node (cx_store [])) =
      Returns (n', Some (Start (cx_task 0))) \<and>
    GetDeployment (consul_api local_consul ''sked'') ''d'' (cx_store []) = Ok d \<and> 0 \<le> dp_MaxAttempts d"
proof -
  obtain n' where n': "syncTask (consul_api local_consul ''sked'') log_system run_ports (60 * second) (cx_task 0) (cx_node (cx_store [])) =
      Returns (n', Some (Start (cx_task 0)))"
    using cx_node_start [of "[]"] by auto
  have "agent_good local_consul lookup ''sked'' (nd_backend (cx_node (cx_store [])))" by (simp add: cx_agent_good)
  note reasons = consul_start_justified [OF n' this]
  have "te_Attempts (entry_of (cx_task 0) (cx_node (cx_store []))) = 0" by (simp add: entry_of_new new_entry_def)
  then show ?thesis using n' reasons by (auto simp: local_reports cx_no_state)
qed

section \<open>Stopping\<close>

text \<open>
  C28. Over Consul a stop that succeeds removes the document of the task and the agent's entry, and only
  these, and writes that the task was stopped; a stop that fails keeps both and leaves the task stopping,
  so that a later sync stops it again.
\<close>

theorem consul_stop_outcome:
  assumes "agent_stop (consul_api cl pre) sys t n = (n', err)" and "agent_good cl view pre (nd_backend n)"
  shows "stored_task view pre (nd_backend n') =
      (if err = None then (stored_task view pre (nd_backend n))(task_ID t := None) else stored_task view pre (nd_backend n)) \<and>
    lookup (ag_TaskState (nd_agent n')) =
      (if err = None then (lookup (ag_TaskState (nd_agent n)))(task_ID t := None) else lookup (ag_TaskState (nd_agent n))) \<and>
    content view pre (nd_backend n') (''state/health/'' @ task_ID t) = Some (Raw (if err = None then STOPPED else STOPPING))"
proof -
  have "content view pre s (''state/health/'' @ k) = Some (Raw st)" if "written_state view pre s k = st" "st \<noteq> ''''" for s k st
    using that by (auto simp: written_state_def state_text_def task_state_defs split: option.splits kv_value.splits)
  then show ?thesis using consul_backend.stop_ends [OF assms] by (simp add: task_state_defs)
qed

theorem consul_stop_outcome_witness:
  "\<exists>n' err. agent_stop (consul_api local_consul ''sked'') log_system (cx_task 0) (cx_node (cx_store [cx_task 0])) = (n', err) \<and>
    content lookup ''sked'' (nd_backend n') (''state/health/'' @ task_ID (cx_task 0)) = Some (Raw (if err = None then STOPPED else STOPPING))"
proof -
  obtain n' err where "agent_stop (consul_api local_consul ''sked'') log_system (cx_task 0) (cx_node (cx_store [cx_task 0])) = (n', err)"
    by (rule prod.exhaust)
  from consul_stop_outcome [OF this] this cx_agent_good [of "[cx_task 0]"] show ?thesis by (auto simp: cx_task_storable in_int64_def)
qed

text \<open>
  C40. Over Consul a stored task whose deployment was deleted is never stopped: a sync marks it rejected
  and leaves it as it is, whether it is still scheduled or not. The garbage collection unschedules just
  such tasks.
\<close>

theorem consul_orphan_never_stopped:
  assumes "agent_good cl view pre (nd_backend n)" and "stored_task view pre (nd_backend n) (task_ID t) = Some t"
    and "content view pre (nd_backend n) (''config/deployments/'' @ tk_Deployment t) = None"
  shows "\<exists>n' u. syncTask (consul_api cl pre) sys bindable now t n = Returns (n', None) \<and>
    stored_task view pre (nd_backend n') (task_ID t) = Some u \<and> tk_Rejected u \<and> tk_Scheduled u = tk_Scheduled t \<and>
    ag_queue (nd_agent n') = ag_queue (nd_agent n)"
proof -
  have "GetDeployment (consul_api cl pre) (tk_Deployment t) (nd_backend n) = Fail ErrNotFound (Some zero_deployment)"
    using consul_read_none [OF agent_goodD(2) [OF assms(1)] assms(3)] by (simp add: consul_api_def consul_GetDeployment_def)
  then show ?thesis
    by (rule consul_backend.orphan_rejected [OF assms(1) consul_agent_tasks.tasks_fine [OF assms(1,2)]])
qed

theorem consul_orphan_never_stopped_witness:
  "\<exists>n'. syncTask (consul_api local_consul ''sked'') log_system run_ports 0 ((cx_task 0)\<lparr>tk_Scheduled := False, tk_Deployment := ''gone''\<rparr>)
    (cx_node (cx_store [(cx_task 0)\<lparr>tk_Scheduled := False, tk_Deployment := ''gone''\<rparr>])) = Returns (n', None)"
proof -
  let ?t = "(cx_task 0)\<lparr>tk_Scheduled := False, tk_Deployment := ''gone''\<rparr>"
  have st: "\<forall>t \<in> set [?t]. storable t" using cx_task_storable [of 0] by (simp add: storable_iff fits_task_def in_int64_def)
  have "content lookup ''sked'' (cx_store [?t]) (''config/deployments/'' @ ''gone'') = None"
    by (subst cx_other_content) (simp_all add: task_key_def host_key_def definition_key_def)
  then show ?thesis
    using consul_orphan_never_stopped [where n = "cx_node (cx_store [?t])" and t = ?t and view = lookup and cl = local_consul and pre = "''sked''"
        and sys = log_system and bindable = run_ports and now = 0] cx_agent_good [OF st]
    by (auto simp: cx_stored [OF st])
qed

section \<open>From a request to a running task\<close>

text \<open>
  C13. After a request of the master over Consul that changed anything, one sync of the agent of a host and
  the work of its runners start every scheduled task of the requested deployment that was put on that host,
  if the agent is new, the task neither starting nor healthy by its checks, its commands succeed and its
  ports are free; the host is one the scheduler knows.
\<close>

theorem consul_requested_tasks_started:
  assumes "Master_schedule (consul_api cl pre) (consul_locks lk) ch c m (s, b) = Returns (s', b')"
    and "agent_good cl view pre b" and "quiet_locks lk view pre" and "schedulers_ok (ms_schedulers s)"
    and "GetCluster (consul_api cl pre) c b = Ok cs" and "cl_Name cs \<noteq> ''''"
    and "GetDeployment (consul_api cl pre) m b = Ok d" and "dp_Name d = m" and "m \<noteq> ''''" and "0 \<le> dp_MaxAttempts d"
    and "content view pre b' \<noteq> content view pre b"
    and "nd_backend n = b'" and "ag_queue (nd_agent n) = []" and "ag_TaskState (nd_agent n) = []"
    and "ac_Cluster (ag_Config (nd_agent n)) = cl_Name cs"
    and "stored_task view pre b' k = Some t" and "tk_Cluster t = cl_Name cs" and "tk_Deployment t = m"
    and "tk_Scheduled t" and "tk_Host t = ag_Host (nd_agent n)"
    and "reported_state cl view pre b' t \<noteq> STARTING" and "\<not> Healthy (reported_state cl view pre b' t)"
    and "td_GracePeriod (tk_TaskDefinition t) \<le> now" and "runnable t" and "reliable sys"
    and "\<forall>p \<in> set (AllPorts (tk_TaskDefinition t)). p \<le> 65535 \<and> (\<forall>w. bindable p w)"
    and "card {u \<in> ran (stored_task view pre b'). selects (agent_query (nd_agent n)) PENDING u} \<le> 500"
  shows "\<exists>n' i sked h. agent_sync (consul_api cl pre) sys bindable now n = Returns n' \<and>
    content view pre (nd_backend ((runner_step (consul_api cl pre) sys later ^^ length (ag_queue (nd_agent n'))) n'))
      (''state/health/'' @ k) = Some (Raw STARTED) \<and>
    Schedulers_Get (dp_Scheduler d) (ms_schedulers s') = Some (i, sked) \<and> lookup (ds_hosts sked) (ag_Host (nd_agent n)) = Some h"
proof -
  have names: "\<forall>cs'. GetCluster (consul_api cl pre) c b = Ok cs' \<longrightarrow> cl_Name cs' \<noteq> ''''"
    "\<forall>d'. GetDeployment (consul_api cl pre) m b = Ok d' \<longrightarrow> dp_Name d' \<noteq> ''''" using assms(5-9) by simp_all
  obtain i sked where good: "consul_good cl view pre b'" and get: "Schedulers_Get (dp_Scheduler d) (ms_schedulers s') = Some (i, sked)"
    and only: "only_own view pre cs d b b'" and settled: "\<forall>t \<in> ran (issued cs d (stored_task view pre b')). in_place sked t"
    using consul_request_step [OF assms(1) agent_goodD(1) [OF assms(2)] assms(3,4) names] assms(5,7,11) by (auto simp: request_done_def)
  have keys: "\<forall>key. content view pre b' key \<noteq> content view pre b key \<longrightarrow> (\<exists>k. key = task_key k)" using only unfolding only_own_def by blast
  note config = consul_config_cong(2) [OF agent_goodD(2) [OF assms(2)] keys]
  have agent: "agent_good cl view pre (nd_backend n)"
    using good assms(2,12) config by (simp add: agent_good_def consul_api_def)
  have "issued cs d (stored_task view pre b') k = Some t" using assms(8,16-19) by (simp add: issued_Some own_def)
  then have "in_place sked t" using settled by (auto intro: ranI)
  then obtain h where host: "lookup (ds_hosts sked) (ag_Host (nd_agent n)) = Some h" and rejected: "\<not> tk_Rejected t"
    using assms(20) by (auto simp: in_place_def host_gone_def)
  have k: "task_ID t = k" using consul_agent_tasks.tasks_key [OF agent] assms(12,16) by simp
  have "ready (consul_api cl pre) (reported_state cl view pre) bindable now t n"
    by (rule ready_new [where d = d]) (use assms rejected config k in simp_all)
  moreover have "selects (agent_query (nd_agent n)) PENDING t"
    using assms(15,17,20) by (simp add: selects_def agent_query_def any_task_def)
  ultimately show ?thesis
    using consul_backend.ready_task_started [OF agent assms(13), of t bindable now sys later] assms(12,16,24,25,27) k written_started get host
    by blast
qed

text \<open>The request of the examples: both tasks it makes stand on the only host.\<close>

lemma cx_request_made:
  assumes "Schedule (consul_api local_consul ''sked'') ex_choices (ex_deployment 2) ex_scheduler (cx_store []) = Returns (None, sk, b)"
  shows "\<exists>s'. Master_schedule (consul_api local_consul ''sked'') (consul_locks free_locks) ex_choices ''c'' ''d'' (cx_master, cx_store []) =
      Returns (s', b)"
  using assms [unfolded ex_scheduler_def]
  by (cases b) (auto simp: Master_schedule_def Let_def SchedulerLocks_Lock_def lock_stored_def SchedulerLocks_Unlock_def consul_locks_def
      consul_Lock_def consul_LockIt_def consul_UnlockIt_def consul_IsHeld_def free_locks_def schedule_locked_def cx_config Schedulers_Get_def
      cx_master_def Master_Run_setup_def NewMaster_def Schedulers_Use_def put_object_def NewSchedulerMap_def NewSchedulerLocks_def
      ex_deployment_def split: prod.splits)

lemma cx_placed:
  assumes run: "Schedule (consul_api local_consul ''sked'') ex_choices (ex_deployment 2) ex_scheduler (cx_store []) = Returns (None, sk, b)"
    and t: "issued ex_cluster (ex_deployment 2) (stored_task lookup ''sked'' b) k = Some t"
  shows "tk_TaskDefinition t = cx_definition \<and> tk_Host t = ''h''"
proof -
  have st: "\<forall>t \<in> set []. storable t" by simp
  have named: "named ex_cluster (ex_deployment 2)" using ex_names by (simp add: named_def)
  have small: "small_deployment (ex_deployment 2)" using small_ex_deployment by (simp add: small_deployment_def)
  let ?tasks = "stored_task lookup ''sked''"
  let ?Q = "\<lambda>s (p :: store consul progress). (\<forall>n h. lookup (ds_hosts s) n = Some h \<longrightarrow> n = ''h'') \<and>
    (\<forall>k t. lookup (pg_taskMap p) k = Some t \<longrightarrow> tk_TaskDefinition t = cx_definition \<and> tk_Host t = ''h'')"
  obtain p where p: "b = pg_backend p" "mirror (consul_good local_consul lookup ''sked'') ?tasks ex_cluster (ex_deployment 2) p" "?Q sk p"
  proof (rule consul_tasks.Schedule_invariant [OF run cx_good [OF st] ex_premises named small,
        where P = "\<lambda>p. lookup (pg_taskMap p) = Map.empty" and Q = ?Q])
    fix p :: "store consul progress"
    assume "pg_backend p = cx_store []" and "mirror (consul_good local_consul lookup ''sked'') ?tasks ex_cluster (ex_deployment 2) p"
    then show "lookup (pg_taskMap p) = Map.empty" by (auto simp: mirror_def cx_stored [OF st] issued_def fun_eq_iff)
  next
    fix k t and p :: "store consul progress"
    assume "issued ex_cluster (ex_deployment 2) (?tasks (cx_store [])) k = Some t"
    then show "lookup (pg_taskMap (drop_task (consul_api local_consul ''sked'') k t p)) = Map.empty"
      by (simp add: issued_def cx_stored [OF st])
  next
    fix p :: "store consul progress" and s1 :: default_scheduler
    assume "syncHosts (consul_api local_consul ''sked'') (cx_store []) ex_scheduler = Returns (None, s1)" and "lookup (pg_taskMap p) = Map.empty"
    then show "?Q s1 p" by (auto simp: cx_sync split: if_splits)
  next
    fix s1 s2 i t td and p :: "store consul progress"
    assume td: "GetTaskDefinition (consul_api local_consul ''sked'') (dp_TaskName (ex_deployment 2)) (dp_TaskVersion (ex_deployment 2)) (cx_store []) = Ok td"
      and Q: "?Q s1 p" and pl: "placement ex_cluster td (ex_deployment 2) i s1 t s2"
    have def: "tk_TaskDefinition t = cx_definition" using placement_task [OF pl] td by (simp add: cx_definition_get)
    obtain g where g: "lookup (ds_hosts s1) (tk_Host t) = Some g" "ds_hosts s2 = insert_key (tk_Host t) (place_on t g) (ds_hosts s1)"
      using pl by (auto simp: placement_def)
    have host: "tk_Host t = ''h''" using Q g(1) by blast
    have "n = ''h''" if "lookup (ds_hosts s2) n = Some h" for n h
      using that conjunct1 [OF Q] g(2) host by (cases "n = ''h''") simp_all
    moreover have "tk_TaskDefinition u = cx_definition \<and> tk_Host u = ''h''"
      if "lookup (pg_taskMap (issue_task (consul_api local_consul ''sked'') t p)) j = Some u" for j u
      using that conjunct2 [OF Q] def host by (cases "j = task_ID t") simp_all
    ultimately show "?Q s2 (issue_task (consul_api local_consul ''sked'') t p)" by blast
  qed auto
  from p(2) have "lookup (pg_taskMap p) = issued ex_cluster (ex_deployment 2) (?tasks b)" by (simp add: mirror_def p(1))
  with p(3) t show ?thesis by simp
qed

theorem consul_requested_tasks_started_witness:
  "\<exists>s' b' k n'. Master_schedule (consul_api local_consul ''sked'') (consul_locks free_locks) ex_choices ''c'' ''d'' (cx_master, cx_store []) =
      Returns (s', b') \<and>
    agent_sync (consul_api local_consul ''sked'') log_system run_ports (60 * second) (cx_node b') = Returns n' \<and>
    content lookup ''sked'' (nd_backend ((runner_step (consul_api local_consul ''sked'') log_system 0 ^^ length (ag_queue (nd_agent n'))) n'))
      (''state/health/'' @ k) = Some (Raw STARTED)"
proof -
  let ?api = "consul_api local_consul ''sked''" and ?tasks = "stored_task lookup ''sked''" and ?d = "ex_deployment 2"
  have st: "\<forall>t \<in> set []. storable t" by simp
  have named: "named ex_cluster ?d" using ex_names by (simp add: named_def)
  have small: "small_deployment ?d" using small_ex_deployment by (simp add: small_deployment_def)
  from cx_runs [OF st] obtain sk b where run: "Schedule ?api ex_choices ?d ex_scheduler (cx_store []) = Returns (None, sk, b)" by blast
  note call = run cx_good [OF st] ex_premises named small
  obtain s' where req: "Master_schedule ?api (consul_locks free_locks) ex_choices ''c'' ''d'' (cx_master, cx_store []) = Returns (s', b)"
    using cx_request_made [OF run] by blast
  have none: "?tasks (cx_store []) k = None" for k by (simp add: cx_stored [OF st])
  have "roomy cx_definition 2 (ex_scheduler\<lparr>ds_hosts := [(''h'', ex_host ''h'' 1000)]\<rparr>)" "modest cx_definition" "td_Version cx_definition = 1"
    by (simp_all add: roomy_def room_for_def modest_def cx_definition_def cx_container_def ex_eval)
  then have "2 \<le> int (card (dom (issued ex_cluster ?d (?tasks b))))"
    using consul_tasks.Schedule_reaches_desired [OF call cx_sync cx_definition_get] by (simp add: ex_names)
  then have "card (dom (issued ex_cluster ?d (?tasks b))) \<noteq> 0" by linarith
  then have "dom (issued ex_cluster ?d (?tasks b)) \<noteq> {}" by (metis card.empty)
  then obtain k t where t: "issued ex_cluster ?d (?tasks b) k = Some t" by blast
  then have stored: "?tasks b k = Some t" and own: "own ex_cluster ?d t" "tk_Scheduled t" by (simp_all add: issued_Some)
  note placed = cx_placed [OF run t]
  have changed: "content lookup ''sked'' b \<noteq> content lookup ''sked'' (cx_store [])"
    using stored none [of k] by (auto simp: stored_task_def)
  have keys: "\<forall>key. content lookup ''sked'' b key \<noteq> content lookup ''sked'' (cx_store []) key \<longrightarrow> (\<exists>k. key = task_key k)"
    using consul_Schedule_writes [OF call] unfolding only_own_def by blast
  have "''state/health/'' @ i \<noteq> task_key j" for i j by (simp add: task_key_def)
  with keys have "content lookup ''sked'' b (''state/health/'' @ i) = content lookup ''sked'' (cx_store []) (''state/health/'' @ i)" for i
    by blast
  then have quiet: "reported_state local_consul lookup ''sked'' b t = PENDING"
    using cx_no_state [of "[]" "task_ID t"] by (simp add: local_reports written_state_def)
  let ?id = "\<lambda>i. task_ID (NewTask ex_cluster cx_definition ?d i)"
  have "j \<in> {?id 0, ?id 1}" if "?tasks b j \<noteq> None" for j
  proof -
    from that have "?tasks b j \<noteq> ?tasks (cx_store []) j" by (simp add: none)
    then obtain i where "0 \<le> i" "i < dp_Desired ?d" "j = ?id i"
      using consul_tasks.Schedule_frame [OF call cx_definition_get] none by (fastforce simp: issued_Some)
    then have "i = 0 \<or> i = 1" by (auto simp: ex_names)
    with \<open>j = ?id i\<close> show ?thesis by auto
  qed
  then have "ran (?tasks b) \<subseteq> (\<lambda>j. the (?tasks b j)) ` {?id 0, ?id 1}" by (auto simp: ran_def image_iff) (metis option.distinct(1) option.sel)
  then have few: "card {u \<in> ran (?tasks b). selects (agent_query run_agent) PENDING u} \<le> card ((\<lambda>j. the (?tasks b j)) ` {?id 0, ?id 1})"
    by (intro card_mono) auto
  also have "\<dots> \<le> 500" using card_image_le [of "{?id 0, ?id 1}" "\<lambda>j. the (?tasks b j)"] card_insert_le_m1 by (simp add: card_insert_if)
  finally have few: "card {u \<in> ran (?tasks b). selects (agent_query run_agent) PENDING u} \<le> 500" .
  have locks: "quiet_locks free_locks lookup ''sked''" by (simp add: quiet_locks_def free_locks_def)
  have ok: "schedulers_ok (ms_schedulers cx_master)" by (simp add: cx_master_def schedulers_ok_setup)
  have "agent_good local_consul lookup ''sked'' (cx_store [])" by (rule cx_agent_good [OF st])
  from consul_requested_tasks_started [OF req this locks ok cx_config(1) ex_names(1) cx_config(2), where n = "cx_node b" and t = t and k = k
      and now = "60 * second" and sys = log_system and bindable = run_ports and later = 0]
  show ?thesis
    using req stored own placed changed quiet few cx_runnable [of t]
    by (auto simp: ex_deployment_def own_def run_ports_def ex_cluster_def)
qed

end
