(* ===== verification/Go_Time.thy ===== *)
theory Go_Time
  imports Go_Duration "HOL-Library.Monad_Syntax"
begin

text \<open>
  The text of a point in time, as package time writes it into JSON and reads it back (layout RFC 3339 with
  the fraction of the second): the agent's state file holds one per task (src/agent/state.go). A point in
  time counts nanoseconds from the zero value of \<open>time.Time\<close>, the first of January of the year 1; its zone
  is an offset in whole minutes. A fraction of more than nine digits is not read.
\<close>

section \<open>The calendar\<close>

definition leap_year :: "int \<Rightarrow> bool" where
  "leap_year y \<longleftrightarrow> y mod 4 = 0 \<and> (y mod 100 \<noteq> 0 \<or> y mod 400 = 0)"

text \<open>Days from the first of January of the year 1 to that of another year.\<close>

definition year_start :: "int \<Rightarrow> int" where
  "year_start y = (let p = y - 1 in 365 * p + p div 4 - p div 100 + p div 400)"

definition month_start :: "bool \<Rightarrow> nat \<Rightarrow> nat" where
  "month_start leap m = [0, 31, 59, 90, 120, 151, 181, 212, 243, 273, 304, 334, 365] ! (m - 1) + (if leap \<and> 2 < m then 1 else 0)"

text \<open>The year of a day and the number of the day in it, by cycles of 400, 100, 4 years and one year.\<close>

definition year_day :: "int \<Rightarrow> int \<times> nat" where
  "year_day days =
     (let c400 = days div 146097; d400 = days mod 146097;
          c100 = min 3 (d400 div 36524); d100 = d400 - c100 * 36524;
          c4 = d100 div 1461; d4 = d100 mod 1461;
          c1 = min 3 (d4 div 365)
      in (400 * c400 + 100 * c100 + 4 * c4 + c1 + 1, nat (d4 - c1 * 365)))"

text \<open>The month of a day of the year, counted up from a month that has begun.\<close>

function month_from :: "bool \<Rightarrow> nat \<Rightarrow> nat \<Rightarrow> nat" where
  "month_from leap day m = (if m < 12 \<and> month_start leap (m + 1) \<le> day then month_from leap day (m + 1) else m)"
  by pat_completeness auto
termination by (relation "measure (\<lambda>(leap, day, m). 12 - m)") auto

declare month_from.simps [simp del]

definition month_of :: "bool \<Rightarrow> nat \<Rightarrow> nat" where
  "month_of leap day = month_from leap day 1"

section \<open>Writing\<close>

definition zone_text :: "int \<Rightarrow> string" where
  "zone_text z =
     (if z = 0 then ''Z''
      else (if z < 0 then CHR ''-'' else CHR ''+'') # last_digits 2 (nat \<bar>z\<bar> div 60) @ '':'' @ last_digits 2 (nat \<bar>z\<bar> mod 60))"

definition date_text :: "int \<Rightarrow> string" where
  "date_text days = (case year_day days of (y, n) \<Rightarrow>
     let m = month_of (leap_year y) n in
     last_digits 4 (nat y) @ ''-'' @ last_digits 2 m @ ''-'' @ last_digits 2 (n - month_start (leap_year y) m + 1))"

definition seconds_text :: "nat \<Rightarrow> string" where
  "seconds_text s = last_digits 2 (s div 3600) @ '':'' @ last_digits 2 (s div 60 mod 60) @ '':'' @ last_digits 2 (s mod 60)"

definition time_text :: "int \<Rightarrow> int \<Rightarrow> string" where
  "time_text zone t =
     (let l = t div 10 ^ 9 + 60 * zone in
      date_text (l div 86400) @ ''T'' @ seconds_text (nat (l mod 86400)) @
      pointed (fraction_digits 9 (nat (t mod 10 ^ 9))) @ zone_text zone)"

text \<open>Only years of four digits are written.\<close>

definition time_year :: "int \<Rightarrow> int \<Rightarrow> int" where
  "time_year zone t = fst (year_day ((t div 10 ^ 9 + 60 * zone) div 86400))"

definition time_MarshalJSON :: "int \<Rightarrow> int \<Rightarrow> json option" where
  "time_MarshalJSON zone t = (if time_year zone t < 0 \<or> 10000 \<le> time_year zone t then None else Some (JStr (time_text zone t)))"

section \<open>Reading\<close>

definition read_number :: "nat \<Rightarrow> string \<Rightarrow> (nat \<times> string) option" where
  "read_number n s =
     (if n \<le> length s \<and> list_all is_digit (take n s) then Some (undec_nat (take n s) 0, drop n s) else None)"

definition expect :: "char \<Rightarrow> string \<Rightarrow> string option" where
  "expect c s = (case s of x # r \<Rightarrow> if x = c then Some r else None | [] \<Rightarrow> None)"

text \<open>A point counts as the start of a fraction only if a digit follows.\<close>

definition read_fraction :: "string \<Rightarrow> string \<times> string" where
  "read_fraction s = (case s of c # d # r \<Rightarrow> if c = CHR ''.'' \<and> is_digit d then after_point s else ([], s) | _ \<Rightarrow> ([], s))"

definition read_zone :: "string \<Rightarrow> int option" where
  "read_zone s =
     (if s = ''Z'' then Some 0
      else (case s of [] \<Rightarrow> None
            | c # r \<Rightarrow>
                if c = CHR ''+'' \<or> c = CHR ''-'' then do {
                  (h, r) \<leftarrow> read_number 2 r;
                  r \<leftarrow> expect CHR '':'' r;
                  (m, r) \<leftarrow> read_number 2 r;
                  if r = [] then Some (let z = int (60 * h + m) in if c = CHR ''-'' then - z else z) else None
                }
                else None))"

definition read_date :: "string \<Rightarrow> (int \<times> string) option" where
  "read_date s = do {
     (y, s) \<leftarrow> read_number 4 s;
     s \<leftarrow> expect CHR ''-'' s;
     (m, s) \<leftarrow> read_number 2 s;
     s \<leftarrow> expect CHR ''-'' s;
     (d, s) \<leftarrow> read_number 2 s;
     let leap = leap_year (int y);
     if 1 \<le> m \<and> m \<le> 12 \<and> 1 \<le> d \<and> d \<le> month_start leap (m + 1) - month_start leap m
       then Some (year_start (int y) + int (month_start leap m) + int d - 1, s) else None
   }"

definition read_seconds :: "string \<Rightarrow> (nat \<times> string) option" where
  "read_seconds s = do {
     (h, s) \<leftarrow> read_number 2 s;
     s \<leftarrow> expect CHR '':'' s;
     (m, s) \<leftarrow> read_number 2 s;
     s \<leftarrow> expect CHR '':'' s;
     (sec, s) \<leftarrow> read_number 2 s;
     if h < 24 \<and> m < 60 \<and> sec < 60 then Some (3600 * h + 60 * m + sec, s) else None
   }"

definition parse_time :: "string \<Rightarrow> int option" where
  "parse_time s = do {
     (days, s) \<leftarrow> read_date s;
     s \<leftarrow> expect CHR ''T'' s;
     (secs, s) \<leftarrow> read_seconds s;
     let (fs, s) = read_fraction s;
     z \<leftarrow> read_zone s;
     if length fs \<le> 9
       then Some ((days * 86400 + int secs - 60 * z) * 10 ^ 9 + int (undec_nat fs 0 * 10 ^ 9 div 10 ^ length fs)) else None
   }"

definition time_UnmarshalJSON :: "json \<Rightarrow> int option" where
  "time_UnmarshalJSON j = (case j of JStr s \<Rightarrow> parse_time s | _ \<Rightarrow> None)"

section \<open>The calendar is right\<close>

lemma year_day_cycles:
  obtains a b c g where "year_day days = (400 * a + 100 * b + 4 * c + g + 1, nat (days - (146097 * a + 36524 * b + 1461 * c + 365 * g)))"
    and "0 \<le> b" "b \<le> 3" "0 \<le> c" "c \<le> 24" "0 \<le> g" "g \<le> 3"
    and "0 \<le> days - (146097 * a + 36524 * b + 1461 * c + 365 * g)"
    and "days - (146097 * a + 36524 * b + 1461 * c + 365 * g) \<le> (if g = 3 \<and> (c = 24 \<longrightarrow> b = 3) then 365 else 364)"
proof -
  define a r where "a = days div 146097" and "r = days mod 146097"
  define b e where "b = min 3 (r div 36524)" and "e = r - b * 36524"
  define c f where "c = e div 1461" and "f = e mod 1461"
  define g where "g = min 3 (f div 365)"
  have r: "0 \<le> r" "r < 146097" "days = 146097 * a + r" by (simp_all add: a_def r_def)
  have b: "0 \<le> b" "b \<le> 3" using r by (simp_all add: b_def min_def pos_imp_zdiv_nonneg_iff)
  have e: "0 \<le> e" "e \<le> (if b = 3 then 36524 else 36523)" using r by (auto simp: e_def b_def min_def)
  have c: "0 \<le> c" "c \<le> 24" "e = 1461 * c + f" "0 \<le> f" "f < 1461" using e by (auto simp: c_def f_def split: if_splits)
  have g: "0 \<le> g" "g \<le> 3" "0 \<le> f - 365 * g" "f - 365 * g \<le> (if g = 3 then 365 else 364)"
    using c(4,5) by (auto simp: g_def min_def)
  have day: "days - (146097 * a + 36524 * b + 1461 * c + 365 * g) = f - 365 * g" using r(3) c(3) by (simp add: e_def)
  have "year_day days = (400 * a + 100 * b + 4 * c + g + 1, nat (f - g * 365))"
    by (simp only: year_day_def Let_def a_def r_def b_def e_def c_def f_def g_def)
  moreover have "f - 365 * g \<le> (if g = 3 \<and> (c = 24 \<longrightarrow> b = 3) then 365 else 364)"
    using g(4) e(2) c(3) by (auto split: if_splits)
  ultimately show ?thesis using that [of a b c g] b c(1,2) g(1-3) day by (simp add: mult.commute)
qed

lemma div_cycle: "0 \<le> s \<Longrightarrow> s < k \<Longrightarrow> x = k * q + s \<Longrightarrow> x div k = q \<and> x mod k = s" for k :: int
  using int_div_pos_eq int_mod_pos_eq by blast

lemma year_day_split:
  assumes "year_day days = (y, n)"
  shows "year_start y + int n = days" and "n < (if leap_year y then 366 else 365)"
proof -
  obtain a b c g where yd: "year_day days = (400 * a + 100 * b + 4 * c + g + 1, nat (days - (146097 * a + 36524 * b + 1461 * c + 365 * g)))"
    and r: "0 \<le> b" "b \<le> 3" "0 \<le> c" "c \<le> 24" "0 \<le> g" "g \<le> 3"
    and n: "0 \<le> days - (146097 * a + 36524 * b + 1461 * c + 365 * g)"
      "days - (146097 * a + 36524 * b + 1461 * c + 365 * g) \<le> (if g = 3 \<and> (c = 24 \<longrightarrow> b = 3) then 365 else 364)"
    by (rule year_day_cycles)
  let ?p = "400 * a + 100 * b + 4 * c + g"
  have y: "y = ?p + 1" and n': "int n = days - (146097 * a + 36524 * b + 1461 * c + 365 * g)" using assms yd n(1) by auto
  have "?p div 4 = 100 * a + 25 * b + c" "?p div 100 = 4 * a + b" "?p div 400 = a"
    using r div_cycle [of g 4 ?p "100 * a + 25 * b + c"] div_cycle [of "4 * c + g" 100 ?p "4 * a + b"]
      div_cycle [of "100 * b + 4 * c + g" 400 ?p a] by simp_all
  then show "year_start y + int n = days" unfolding year_start_def Let_def y n' by simp
  have "leap_year y" if "g = 3" "c = 24 \<longrightarrow> b = 3"
  proof -
    have y': "y = 400 * a + 100 * b + 4 * (c + 1)" using that(1) y by simp
    then have "y mod 4 = 0" using div_cycle [of 0 4 y "100 * a + 25 * b + c + 1"] by simp
    moreover have "y mod 100 \<noteq> 0" if "c \<noteq> 24"
      using y' that r div_cycle [of "4 * (c + 1)" 100 y "4 * a + b"] by simp
    moreover have "y mod 400 = 0" if "c = 24"
      using y' that \<open>c = 24 \<longrightarrow> b = 3\<close> div_cycle [of 0 400 y "a + 1"] by simp
    ultimately show ?thesis unfolding leap_year_def by (cases "c = 24") simp_all
  qed
  then show "n < (if leap_year y then 366 else 365)" using n(2) n' by (auto split: if_splits)
qed

lemma month_from_right:
  "month_start leap m \<le> n \<Longrightarrow> m \<le> 12 \<Longrightarrow> n < month_start leap 13 \<Longrightarrow>
   m \<le> month_from leap n m \<and> month_from leap n m \<le> 12 \<and> month_start leap (month_from leap n m) \<le> n \<and>
   n < month_start leap (month_from leap n m + 1)"
proof (induction leap n m rule: month_from.induct)
  case (1 leap n m)
  then show ?case by (subst (1 2 3 4) month_from.simps) (cases "m = 12"; auto simp: not_le)
qed

lemma month_of_right:
  assumes "n < (if leap then 366 else 365)"
  shows "1 \<le> month_of leap n \<and> month_of leap n \<le> 12 \<and> month_start leap (month_of leap n) \<le> n \<and>
    n < month_start leap (month_of leap n + 1)"
  unfolding month_of_def by (rule month_from_right) (use assms in \<open>simp_all add: month_start_def split: if_splits\<close>)

lemma month_length:
  assumes "1 \<le> m" and "m \<le> 12"
  shows "month_start leap (m + 1) \<le> month_start leap m + 31"
proof -
  have "m \<in> set [1..<13]" using assms by simp
  also have "[1..<13] = [1, 2, 3, 4, 5, 6, 7, 8, 9, 10, 11, 12]" by (simp add: upt_rec)
  finally have "m \<in> {1, 2, 3, 4, 5, 6, 7, 8, 9, 10, 11, 12}" by (simp only: set_simps)
  then show ?thesis by (elim insertE emptyE) (simp_all add: month_start_def)
qed

section \<open>The round trip\<close>

lemma read_number_digits: "v < 10 ^ n \<Longrightarrow> read_number n (last_digits n v @ rest) = Some (v, rest)"
  by (simp add: read_number_def list_all_iff last_digits_digit undec_last_digits)

lemma expect_same [simp]: "expect c (c # r) = Some r"
  by (simp add: expect_def)

lemma read_date_text:
  assumes "year_day days = (y, n)" and "0 \<le> y" and "y < 10000"
  shows "read_date (date_text days @ rest) = Some (days, rest)"
proof -
  let ?leap = "leap_year y"
  let ?m = "month_of ?leap n"
  note day = year_day_split [OF assms(1)]
  have m: "1 \<le> ?m" "?m \<le> 12" "month_start ?leap ?m \<le> n" "n < month_start ?leap (?m + 1)"
    using month_of_right [OF day(2)] by blast+
  have "n - month_start ?leap ?m + 1 < 10 ^ 2" using m(4) month_length [OF m(1,2), of ?leap] by simp
  then show ?thesis
    using m day(1) assms(2,3) read_number_digits [of "nat y" 4] read_number_digits [of ?m 2]
    by (simp add: read_date_def date_text_def assms(1) Let_def read_number_digits nat_less_iff)
qed

lemma read_seconds_text:
  assumes "s < 86400"
  shows "read_seconds (seconds_text s @ rest) = Some (s, rest)"
proof -
  have "s = s div 60 * 60 + s mod 60" "s div 60 = s div 60 div 60 * 60 + s div 60 mod 60" by (simp_all add: div_mult_mod_eq)
  moreover have "s div 60 div 60 = s div 3600" by (simp flip: div_mult2_eq)
  ultimately have "3600 * (s div 3600) + 60 * (s div 60 mod 60) + s mod 60 = s" by linarith
  moreover have "s div 3600 < 24" using assms by (simp add: less_mult_imp_div_less)
  moreover have "s div 60 mod 60 < 60" "s mod 60 < 60" by simp_all
  ultimately show ?thesis
    by (simp add: read_seconds_def seconds_text_def read_number_digits)
qed

lemma read_zone_text: "\<bar>z\<bar> < 6000 \<Longrightarrow> read_zone (zone_text z) = Some z"
proof -
  assume z: "\<bar>z\<bar> < 6000"
  have "nat \<bar>z\<bar> div 60 < 10 ^ 2" "nat \<bar>z\<bar> mod 60 < 10 ^ 2" using z by (auto simp: less_mult_imp_div_less intro: order.strict_trans [OF mod_less_divisor])
  moreover have "60 * (nat \<bar>z\<bar> div 60) + nat \<bar>z\<bar> mod 60 = nat \<bar>z\<bar>" by (rule mult_div_mod_eq)
  then have "int (60 * (nat \<bar>z\<bar> div 60) + nat \<bar>z\<bar> mod 60) = \<bar>z\<bar>" by simp
  ultimately show ?thesis
    using read_number_digits [of "nat \<bar>z\<bar> mod 60" 2 "[]"]
    by (auto simp: read_zone_def zone_text_def read_number_digits Let_def)
qed

lemma read_fraction_text:
  assumes "rest \<noteq> []" and "\<not> is_digit (hd rest)" and "hd rest \<noteq> CHR ''.''"
  shows "read_fraction (pointed (fraction_digits p v) @ rest) = (fraction_digits p v, rest)"
proof (cases "fraction_digits p v")
  case Nil
  obtain c r where "rest = c # r" using assms(1) by (cases rest) auto
  then show ?thesis using assms(3) by (auto simp: Nil read_fraction_def pointed_def split: list.split)
next
  case (Cons d ds)
  have digits: "\<forall>c \<in> set (fraction_digits p v). is_digit c" by (simp add: fraction_digits_digit)
  then have "is_digit d" by (simp add: Cons)
  then have "read_fraction (pointed (fraction_digits p v) @ rest) = after_point (pointed (fraction_digits p v) @ rest)"
    by (simp add: read_fraction_def pointed_def Cons)
  then show ?thesis
    using takeWhile_stop [OF digits, of rest] assms(2) by (simp add: after_point_def pointed_def Cons)
qed

lemma zone_text_hd: "zone_text z \<noteq> [] \<and> \<not> is_digit (hd (zone_text z)) \<and> hd (zone_text z) \<noteq> CHR ''.''"
  by (simp add: zone_text_def is_digit_def)

text \<open>What is written is read back as the same instant, whatever the zone.\<close>

lemma parse_time_text:
  assumes "\<bar>zone\<bar> < 6000" and "0 \<le> time_year zone t" and "time_year zone t < 10000"
  shows "parse_time (time_text zone t) = Some t"
proof -
  define l ns where "l = t div 10 ^ 9 + 60 * zone" and "ns = nat (t mod 10 ^ 9)"
  let ?fs = "fraction_digits 9 ns" and ?z = "zone_text zone"
  obtain y n where y: "year_day (l div 86400) = (y, n)" by fastforce
  have secs: "nat (l mod 86400) < 86400" by (simp add: nat_less_iff)
  have date: "read_date (date_text (l div 86400) @ rest) = Some (l div 86400, rest)" for rest
    using y assms(2,3) by (intro read_date_text) (simp_all add: time_year_def l_def)
  have frac: "read_fraction (pointed ?fs @ ?z) = (?fs, ?z)" using zone_text_hd by (intro read_fraction_text) simp_all
  have "int (undec_nat ?fs 0 * 10 ^ 9 div 10 ^ length ?fs) = t mod 10 ^ 9"
    unfolding fraction_value by (simp add: ns_def nat_less_iff)
  moreover have "length ?fs \<le> 9" using fraction_digits_split by blast
  moreover have "l div 86400 * 86400 + int (nat (l mod 86400)) - 60 * zone = t div 10 ^ 9"
    by (simp add: l_def)
  moreover have "t div 10 ^ 9 * 10 ^ 9 + t mod 10 ^ 9 = t" by (rule div_mult_mod_eq)
  moreover have "time_text zone t = date_text (l div 86400) @ ''T'' @ seconds_text (nat (l mod 86400)) @ pointed ?fs @ ?z"
    by (simp only: time_text_def Let_def l_def ns_def)
  ultimately show ?thesis
    unfolding parse_time_def by (simp only: date read_seconds_text [OF secs] frac read_zone_text [OF assms(1)] append_Cons
        append_Nil expect_same bind.bind_lunit prod.case if_True Let_def)
qed

lemma time_round_trip:
  "\<bar>zone\<bar> < 6000 \<Longrightarrow> time_MarshalJSON zone t = Some j \<Longrightarrow> time_UnmarshalJSON j = Some t"
  by (auto simp: time_MarshalJSON_def time_UnmarshalJSON_def parse_time_text split: if_splits)

end
