(* ===== verification/State_File.thy ===== *)
theory State_File
  imports Agent_Cycle Consul_Schedule Go_Time
begin

text \<open>
  The file an agent leaves behind (src/agent/state.go, \<open>save\<close> and \<open>load\<close>): its map of tasks as a JSON
  document. Read are the documents \<open>save\<close> writes. An error is written as some document of its own, which
  cannot be read back into the interface \<open>error\<close>: the field stays nil, and \<open>load\<close> reports it.
\<close>

section \<open>Writing\<close>

text \<open>\<open>zone\<close> is the offset a time carries, \<open>err_doc\<close> the document of an error.\<close>

definition encode_entry :: "(time \<Rightarrow> int) \<Rightarrow> (go_error \<Rightarrow> json) \<Rightarrow> task_entry \<Rightarrow> json option" where
  "encode_entry zone err_doc e =
     map_option (\<lambda>started. JObj [(''started_at'', started), (''attempts'', JNum (te_Attempts e)),
         (''failure'', (case te_Failure e of None \<Rightarrow> JNull | Some err \<Rightarrow> err_doc err)), (''state'', JStr (te_State e)),
         (''task'', (case te_Task e of None \<Rightarrow> JNull | Some t \<Rightarrow> encode_task t))])
       (time_MarshalJSON (zone (te_StartedAt e)) (te_StartedAt e))"

definition encode_state :: "(time \<Rightarrow> int) \<Rightarrow> (go_error \<Rightarrow> json) \<Rightarrow> agent_state \<Rightarrow> json option" where
  "encode_state zone err_doc st =
     map_option JObj (those (map (\<lambda>(k, e). map_option (Pair k) (encode_entry zone err_doc e)) (sorted_map st)))"

text \<open>What is in the file after \<open>save\<close>; \<open>written\<close> tells whether the system lets it be written.\<close>

definition state_save :: "(time \<Rightarrow> int) \<Rightarrow> (go_error \<Rightarrow> json) \<Rightarrow> bool \<Rightarrow> agent_state \<Rightarrow> json option \<Rightarrow> json option" where
  "state_save zone err_doc written st file =
     (case encode_state zone err_doc st of None \<Rightarrow> file | Some doc \<Rightarrow> if written then Some doc else file)"

text \<open>The way out of \<open>Run\<close>: the host is deleted, then the state is saved.\<close>

definition agent_exit ::
  "(time \<Rightarrow> int) \<Rightarrow> (go_error \<Rightarrow> json) \<Rightarrow> bool \<Rightarrow> 'b scheduler_api \<Rightarrow> string \<Rightarrow> ('b, 'w) node \<times> json option \<Rightarrow>
   ('b, 'w) node \<times> json option" where
  "agent_exit zone err_doc written api host = (\<lambda>(n, file).
     let n' = agent_end api host n in (n', state_save zone err_doc written (ag_TaskState (nd_agent n')) file))"

section \<open>Reading\<close>

definition entry_field :: "string \<Rightarrow> json \<Rightarrow> task_entry \<Rightarrow> task_entry option" where
  "entry_field k j e =
     (if k = ''started_at'' then set_field (time_UnmarshalJSON j) (\<lambda>v. e\<lparr>te_StartedAt := v\<rparr>)
      else if k = ''attempts'' then set_field (decode_int j (te_Attempts e)) (\<lambda>v. e\<lparr>te_Attempts := v\<rparr>)
      else if k = ''failure'' then Some (if j = JNull then e\<lparr>te_Failure := None\<rparr> else e)
      else if k = ''state'' then set_field (decode_string j (te_State e)) (\<lambda>v. e\<lparr>te_State := v\<rparr>)
      else if k = ''task'' then
        (if j = JNull then Some (e\<lparr>te_Task := None\<rparr>)
         else set_field (decode_object task_field (case te_Task e of Some t \<Rightarrow> t | None \<Rightarrow> zero_task) j) (\<lambda>v. e\<lparr>te_Task := Some v\<rparr>))
      else Some e)"

definition decode_state :: "json \<Rightarrow> agent_state \<Rightarrow> agent_state option" where
  "decode_state = decode_map (decode_object entry_field new_entry)"

definition failure_in :: "json \<Rightarrow> bool" where
  "failure_in j = (case j of JObj fs \<Rightarrow> list_ex (\<lambda>(k, v). k = ''failure'' \<and> v \<noteq> JNull) fs | _ \<Rightarrow> False)"

text \<open>Whether \<open>load\<close> reports an error for a document it can decode.\<close>

definition load_reports :: "json \<Rightarrow> bool" where
  "load_reports j = (case j of JObj kvs \<Rightarrow> list_ex (\<lambda>(k, v). failure_in v) kvs | _ \<Rightarrow> False)"

text \<open>The start of an agent over the file.\<close>

definition agent_restart ::
  "'b scheduler_api \<Rightarrow> map_order \<Rightarrow> figures \<Rightarrow> json option \<Rightarrow> string \<Rightarrow> ('b, 'w) node \<Rightarrow> ('b, 'w) node outcome" where
  "agent_restart api ord f file name n =
     agent_begin api ord f (Option.bind file (\<lambda>doc. decode_state doc (ag_TaskState (nd_agent n)))) name n"

section \<open>The round trip\<close>

text \<open>What of an entry survives.\<close>

definition reloaded :: "task_entry \<Rightarrow> task_entry" where
  "reloaded e = e\<lparr>te_State := PENDING, te_Failure := None, te_Task := map_option normal (te_Task e)\<rparr>"

definition fits_entry :: "task_entry \<Rightarrow> bool" where
  "fits_entry e \<longleftrightarrow> in_int64 (te_Attempts e) \<and> (\<forall>t. te_Task e = Some t \<longrightarrow> fits_task t)"

lemma decode_task_object: "fits_task t \<Longrightarrow> decode_object task_field zero_task (encode_task t) = Some (normal t)"
  using decode_task [of t] by (simp add: decode_struct_def decode_object_def encode_task_def normal_def)

lemma encode_task_object [simp]: "encode_task t \<noteq> JNull"
  by (simp add: encode_task_def)

lemma decode_entry:
  assumes "encode_entry zone err_doc e = Some j" and "fits_entry e" and "\<And>t. \<bar>zone t\<bar> < 6000" and "\<And>x. err_doc x \<noteq> JNull"
  shows "\<exists>e'. decode_object entry_field new_entry j = Some e' \<and> e'\<lparr>te_State := PENDING\<rparr> = reloaded e"
    and "failure_in j \<longleftrightarrow> te_Failure e \<noteq> None"
proof -
  obtain started where started: "time_MarshalJSON (zone (te_StartedAt e)) (te_StartedAt e) = Some started"
    and j: "j = JObj [(''started_at'', started), (''attempts'', JNum (te_Attempts e)),
         (''failure'', (case te_Failure e of None \<Rightarrow> JNull | Some err \<Rightarrow> err_doc err)), (''state'', JStr (te_State e)),
         (''task'', (case te_Task e of None \<Rightarrow> JNull | Some t \<Rightarrow> encode_task t))]"
    using assms(1) by (auto simp: encode_entry_def)
  have time: "time_UnmarshalJSON started = Some (te_StartedAt e)" by (rule time_round_trip [OF assms(3) started])
  show "\<exists>e'. decode_object entry_field new_entry j = Some e' \<and> e'\<lparr>te_State := PENDING\<rparr> = reloaded e"
    using assms(2) time
    by (cases "te_Task e"; cases "te_Failure e")
      (simp_all add: j decode_object_def lower_def entry_field_def new_entry_def basic_decoders fits_entry_def reloaded_def
        decode_task_object [unfolded decode_object_def] assms(4))
  show "failure_in j \<longleftrightarrow> te_Failure e \<noteq> None"
    using assms(4) by (cases "te_Failure e") (auto simp: j failure_in_def)
qed

lemma decode_saved_entries:
  assumes "\<And>t. \<bar>zone t\<bar> < 6000" and "\<And>x. err_doc x \<noteq> JNull"
  shows "those (map (\<lambda>(k, e). map_option (Pair k) (encode_entry zone err_doc e)) kvs) = Some es \<Longrightarrow>
    \<forall>(k, e) \<in> set kvs. fits_entry e \<Longrightarrow> distinct (map fst m @ map fst kvs) \<Longrightarrow>
    (\<exists>m'. decode_entries (decode_object entry_field new_entry) es m = Some (m @ m') \<and>
       map (\<lambda>(k, e). (k, e\<lparr>te_State := PENDING\<rparr>)) m' = map (\<lambda>(k, e). (k, reloaded e)) kvs) \<and>
    (list_ex (\<lambda>(k, v). failure_in v) es \<longleftrightarrow> (\<exists>(k, e) \<in> set kvs. te_Failure e \<noteq> None))"
proof (induction kvs arbitrary: es m)
  case (Cons p kvs)
  obtain k e where p: "p = (k, e)" by (cases p)
  obtain j es' where j: "encode_entry zone err_doc e = Some j" and es: "es = (k, j) # es'"
    and rest: "those (map (\<lambda>(k, e). map_option (Pair k) (encode_entry zone err_doc e)) kvs) = Some es'"
    using Cons.prems(1) by (auto simp: p split: option.splits)
  have "fits_entry e" using Cons.prems(2) by (simp add: p)
  note e = decode_entry [OF j this assms]
  then obtain e' where e': "decode_object entry_field new_entry j = Some e'" "e'\<lparr>te_State := PENDING\<rparr> = reloaded e" by blast
  have new: "insert_key k e' m = m @ [(k, e')]" using Cons.prems(3) by (intro update_new) (simp add: p)
  obtain m' where "decode_entries (decode_object entry_field new_entry) es' (m @ [(k, e')]) = Some ((m @ [(k, e')]) @ m')"
      "map (\<lambda>(k, e). (k, e\<lparr>te_State := PENDING\<rparr>)) m' = map (\<lambda>(k, e). (k, reloaded e)) kvs"
      "list_ex (\<lambda>(k, v). failure_in v) es' \<longleftrightarrow> (\<exists>(k, e) \<in> set kvs. te_Failure e \<noteq> None)"
    using Cons.IH [OF rest, of "m @ [(k, e')]"] Cons.prems(2,3) by (auto simp: p)
  then show ?case using e(2) e' new by (auto simp: p es intro: exI [of _ "(k, e') # m'"])
qed simp

lemma map_of_map_values: "lookup (map (\<lambda>(k, v). (k, f v)) m) = map_option f \<circ> lookup m"
  by (simp add: map_of_map comp_def)

lemma state_round_trip:
  assumes "encode_state zone err_doc st = Some doc" and "\<forall>e \<in> ran (lookup st). fits_entry e"
    and "\<And>t. \<bar>zone t\<bar> < 6000" and "\<And>x. err_doc x \<noteq> JNull"
  shows "\<exists>st'. decode_state doc [] = Some st' \<and> lookup (state_load (Some st') []) = map_option reloaded \<circ> lookup st"
    and "load_reports doc \<longleftrightarrow> (\<exists>e \<in> ran (lookup st). te_Failure e \<noteq> None)"
proof -
  obtain es where doc: "doc = JObj es"
    and es: "those (map (\<lambda>(k, e). map_option (Pair k) (encode_entry zone err_doc e)) (sorted_map st)) = Some es"
    using assms(1) by (auto simp: encode_state_def)
  have fits: "\<forall>(k, e) \<in> set (sorted_map st). fits_entry e"
    using assms(2) by (auto simp: ran_def dest: sorted_map_entry)
  have dist: "distinct (map fst ([] :: agent_state) @ map fst (sorted_map st))" by simp
  note saved = decode_saved_entries [OF assms(3,4) es fits dist]
  then obtain m' where m': "decode_entries (decode_object entry_field new_entry) es [] = Some m'"
      "map (\<lambda>(k, e). (k, e\<lparr>te_State := PENDING\<rparr>)) m' = map (\<lambda>(k, e). (k, reloaded e)) (sorted_map st)" by auto
  have "lookup (state_load (Some m') []) = map_option reloaded \<circ> lookup st"
    by (simp add: state_load_def m'(2) map_of_map_values)
  with m'(1) show "\<exists>st'. decode_state doc [] = Some st' \<and> lookup (state_load (Some st') []) = map_option reloaded \<circ> lookup st"
    by (simp add: decode_state_def decode_map_def doc)
  have "(\<exists>(k, e) \<in> set (sorted_map st). te_Failure e \<noteq> None) \<longleftrightarrow> (\<exists>e \<in> ran (lookup st). te_Failure e \<noteq> None)"
    using map_of_eq_Some_iff [OF distinct_sorted_map, of st] by (auto simp: ran_def)
  with saved show "load_reports doc \<longleftrightarrow> (\<exists>e \<in> ran (lookup st). te_Failure e \<noteq> None)"
    by (simp add: load_reports_def doc)
qed

lemma those_total: "\<forall>x \<in> set xs. f x \<noteq> None \<Longrightarrow> \<exists>ys. those (map f xs) = Some ys"
  by (induction xs) auto

text \<open>Saving fails only for a time whose year has not four digits.\<close>

lemma encode_state_total:
  assumes "\<forall>e \<in> ran (lookup st). 0 \<le> time_year (zone (te_StartedAt e)) (te_StartedAt e) \<and> time_year (zone (te_StartedAt e)) (te_StartedAt e) < 10000"
  shows "\<exists>doc. encode_state zone err_doc st = Some doc"
proof -
  have "\<forall>(k, e) \<in> set (sorted_map st). encode_entry zone err_doc e \<noteq> None"
    using assms by (fastforce simp: encode_entry_def time_MarshalJSON_def ran_def dest: sorted_map_entry)
  then have "\<exists>es. those (map (\<lambda>(k, e). map_option (Pair k) (encode_entry zone err_doc e)) (sorted_map st)) = Some es"
    by (intro those_total) auto
  then show ?thesis by (auto simp: encode_state_def)
qed

text \<open>
  C29. An agent that is stopped and started again on its machine knows the tasks it knew, with the times they
  were started and the attempts that were made, whatever time zones the times carry; their states and
  failures are forgotten, and reading the file reports an error exactly if some task had failed. The start
  comes back if every entry has its task.
\<close>

theorem restart_keeps_tasks:
  assumes "agent_exit zone err_doc True api host (n, file) = (n', file')"
    and "\<forall>e \<in> ran (lookup (ag_TaskState (nd_agent n))). fits_entry e \<and>
      0 \<le> time_year (zone (te_StartedAt e)) (te_StartedAt e) \<and> time_year (zone (te_StartedAt e)) (te_StartedAt e) < 10000"
    and "entries_known n" and "\<forall>t. \<bar>zone t\<bar> < 6000" and "\<forall>x. err_doc x \<noteq> JNull" and "ag_TaskState (nd_agent m) = []"
  shows "\<exists>m' doc. agent_restart api' ord f file' name m = Returns m' \<and> file' = Some doc \<and>
    lookup (ag_TaskState (nd_agent m')) = map_option reloaded \<circ> lookup (ag_TaskState (nd_agent n)) \<and>
    (load_reports doc \<longleftrightarrow> (\<exists>e \<in> ran (lookup (ag_TaskState (nd_agent n))). te_Failure e \<noteq> None))"
proof -
  let ?st = "ag_TaskState (nd_agent n)"
  obtain doc where doc: "encode_state zone err_doc ?st = Some doc" using encode_state_total assms(2) by blast
  have "ag_TaskState (nd_agent (agent_end api host n)) = ?st" by (simp add: agent_end_def on_backend_def split: prod.split)
  then have file': "file' = Some doc" using assms(1) doc by (auto simp: agent_exit_def Let_def state_save_def)
  have fits: "\<forall>e \<in> ran (lookup ?st). fits_entry e" using assms(2) by blast
  note trip = state_round_trip [OF doc fits assms(4) [rule_format] assms(5) [rule_format]]
  obtain st' where st': "decode_state doc [] = Some st'" "lookup (state_load (Some st') []) = map_option reloaded \<circ> lookup ?st"
    using trip(1) by blast
  let ?ag = "(nd_agent m)\<lparr>ag_Config := (ag_Config (nd_agent m))\<lparr>ac_Cluster :=
      (if ac_Cluster (ag_Config (nd_agent m)) = [] then ''default'' else ac_Cluster (ag_Config (nd_agent m)))\<rparr>,
    ag_TaskState := state_load (Some st') [], ag_Host := name\<rparr>"
  have "entries_known (m\<lparr>nd_agent := ?ag\<rparr>)" using assms(3) by (auto simp: entries_known_def st'(2) reloaded_def)
  then have "\<exists>m'. PublishState api' ord f (m\<lparr>nd_agent := ?ag\<rparr>) = Returns m' \<and> ag_TaskState (nd_agent m') = state_load (Some st') []"
    by (simp add: PublishState_known Let_def)
  then show ?thesis
    using trip(2) st' by (auto simp: agent_restart_def agent_begin_def Let_def file' assms(6))
qed

definition restart_node :: "(mock, unit) node" where
  "restart_node = \<lparr>nd_agent = \<lparr>ag_Host = ''h'', ag_LastState = None,
       ag_TaskState = [(''k'', \<lparr>te_StartedAt = 1000000000, te_Attempts = 2, te_Failure = Some NoExecutorErr, te_State = STARTING,
          te_Task = Some (cx_task 0)\<rparr>)],
       ag_Config = \<lparr>ac_Runners = 3, ac_SyncInterval = 30 * second, ac_Resources = None, ac_Cluster = ''c'', ac_Address = ''a'',
          ac_Advertise = ''a''\<rparr>, ag_queue = []\<rparr>, nd_backend = ex_backend [], nd_machine = ()\<rparr>"

definition fresh_node :: "(mock, unit) node" where
  "fresh_node = restart_node\<lparr>nd_agent := NewAgent \<lparr>fg_memory = 0, fg_disk = 0, fg_cpus = 1\<rparr> (ag_Config (nd_agent restart_node))\<rparr>"

theorem restart_keeps_tasks_witness:
  "\<exists>m' e. agent_restart (mock_api listed_order) listed_order \<lparr>fg_memory = 0, fg_disk = 0, fg_cpus = 1\<rparr>
      (snd (agent_exit (\<lambda>t. 60) (\<lambda>x. JObj []) True (mock_api listed_order) ''h'' (restart_node, None))) ''h'' fresh_node = Returns m' \<and>
    lookup (ag_TaskState (nd_agent m')) ''k'' = Some e \<and> te_StartedAt e = 1000000000 \<and> te_Attempts e = 2 \<and> te_Failure e = None"
proof -
  let ?e = "\<lparr>te_StartedAt = 1000000000, te_Attempts = 2, te_Failure = Some NoExecutorErr, te_State = STARTING, te_Task = Some (cx_task 0)\<rparr>"
  obtain n' file' where exit: "agent_exit (\<lambda>t. 60) (\<lambda>x. JObj []) True (mock_api listed_order) ''h'' (restart_node, None) = (n', file')"
    by (metis prod.exhaust)
  have st: "lookup (ag_TaskState (nd_agent restart_node)) = [''k'' \<mapsto> ?e]" by (simp add: restart_node_def)
  have "fits_task (cx_task 0)" using cx_task_storable [of 0] by (simp add: storable_def in_int64_def)
  then have "fits_entry ?e" by (simp add: fits_entry_def in_int64_def)
  moreover have "time_year 60 1000000000 = 1" by (simp add: time_year_def year_day_def Let_def)
  ultimately have ok: "\<forall>e \<in> ran (lookup (ag_TaskState (nd_agent restart_node))). fits_entry e \<and>
      0 \<le> time_year 60 (te_StartedAt e) \<and> time_year 60 (te_StartedAt e) < 10000" by (simp add: st)
  have known: "entries_known restart_node" by (simp add: entries_known_def st)
  have "ag_TaskState (nd_agent fresh_node) = []" by (simp add: fresh_node_def NewAgent_def)
  from restart_keeps_tasks [OF exit ok known _ _ this, of "mock_api listed_order" listed_order "\<lparr>fg_memory = 0, fg_disk = 0, fg_cpus = 1\<rparr>" "''h''"]
  show ?thesis by (auto simp: exit st reloaded_def)
qed

end
