(* ===== verification/Spec2Isabelle.thy ===== *)
theory Spec2Isabelle
  imports Selection_Properties Master_Properties Agent_Properties Cluster_Properties Consul_Properties Tool_Properties
    Consul_Schedule Consul_Notices Process_Properties Samples Worker_Properties Overbooking Master_Loop Outage_Properties
    Consul_Agent_Properties State_File
begin

text \<open>
  \<^bold>\<open>A model of sked, a scheduler of containers over Consul.\<close>

  \<^bold>\<open>The program.\<close> An operator stores clusters, deployments, services and task definitions in a backend. A
  \<^emph>\<open>master\<close> turns changes of the configuration into scheduling requests, one per deployment, and runs each
  under a cluster-wide lock. The \<^emph>\<open>scheduler\<close> compares the tasks of a deployment with what is desired and
  issues or withdraws tasks, each on a host with room for it. The \<^emph>\<open>agent\<close> of a host reads the tasks put on
  it, starts, stops or rejects them, and publishes what the host has left. A \<^emph>\<open>health agent\<close> watches checks,
  a \<^emph>\<open>discovery agent\<close> serves the endpoints of services. The parts share nothing but the backend: Consul, or
  a store in memory.

  \<^bold>\<open>The theories, and the code they model\<close> (paths under src/).
  \<^item> \<open>Prelude\<close>, \<open>Go_Base\<close>, \<open>Go_Duration\<close>: what the program uses of Go and its library: maps with an open
    iteration order, 64-bit integers with wrap-around, decimal texts, \<open>ParseInt\<close>, UTF-8, the text form of
    durations and its parser (with tools/duration.go); errors, replies and outcomes as values.
  \<^item> \<open>Api_Types\<close>, \<open>Scheduler_Api\<close>: package api: the resources, their keys, identifiers, ports, resource
    counts and validations; the interface \<open>SchedulerApi\<close> as a record of operations over a backend state, and
    the locales \<open>keyed_store\<close>, \<open>deleting_store\<close> and \<open>task_backend\<close> with what clients rely on.
  \<^item> \<open>Mock_Api\<close>: backends/mock, with interpretations of these locales.
  \<^item> \<open>Rankers\<close>, \<open>Default_Scheduler\<close>: scheduler/rankers.go and scheduler/scheduler.go, whole files.
  \<^item> \<open>Scheduler_Queue\<close>, \<open>Scheduler_Locks\<close>, \<open>Master\<close>: master/queue.go (the goroutine as a step relation),
    master/lockers.go, master/master.go and scheduler/schedulers.go; the locales \<open>request_queue\<close> and
    \<open>lock_service\<close>.
  \<^item> \<open>Workers\<close>, \<open>Master_Turns\<close>: the same master as step relations: the workers of several masters over one
    Consul, with asking for the lock, looking, scheduling and giving it back as steps of their own; and the
    monitor, the garbage collector behind its channel and the workers of one master, with the locale
    \<open>master_backend\<close> for what they rely on.
  \<^item> \<open>Executors\<close>, \<open>Agent\<close>: api/executors.go, tools/exec.go, agent/agent.go, agent/state.go, agent/helpers.go;
    the locales \<open>agent_backend\<close> in \<open>Agent_Laws\<close> and \<open>agent_store\<close> in \<open>Agent_Turns\<close>. \<open>State_File\<close> has the file of agent/state.go, with the text of
    a point in time from \<open>Go_Time\<close>.
  \<^item> \<open>Codec\<close>, \<open>Consul_Api\<close>, \<open>Consul_Events\<close>: backends/encoding.go with the json tags of the structs, and
    backends/consul: the operations, the monitors, the locks.
  \<^item> \<open>Health\<close>, \<open>Discovery\<close>, \<open>Actions\<close>: health/, discovery/discovery.go, actions/ with cli/tools.go.
  \<^item> \<open>Processes\<close>: config/, cli/app.go, cli/processes.go and the flags of cli/tools.go: what a process is made
    of, the steps of its start, its routes, and what an interrupt stops.
  \<^item> \<open>Samples\<close>: tools/rand.go, tools/errors.go and api/testing.go.

  A definition bears the name of the function, method or type it models, with the type in front where names
  clash; a part of a longer function (a loop, its body, a condition) is a definition of its own, used in the
  definition of the whole. Fields keep their Go names behind a short prefix.

  \<^bold>\<open>What the lemmas show.\<close>
  \<^item> One call of \<open>Schedule\<close>: \<open>Scheduler_Ports\<close>, \<open>Scheduler_Hosts\<close>, \<open>Schedule_Steps\<close> (a rule for invariants of
    a call), \<open>Schedule_Laws\<close>, \<open>Schedule_Effects\<close>, \<open>Schedule_Counts\<close>, \<open>Schedule_Returns\<close>; the properties are in
    \<open>Schedule_Properties\<close> (placement, capacity, minimum, desired number, scaling down, frame, termination, no
    panic) and \<open>Selection_Properties\<close> (choice of hosts and ports, rankings).
  \<^item> The master: \<open>Reconcile\<close> follows a list of requests; \<open>Master_Properties\<close> has the safety of requests,
    dispatch, garbage collection and the queue. \<open>Master_Turns\<close> has the invariant of its goroutines together,
    \<open>Master_Loop\<close> its instance in memory and a run in which the tasks of a removed deployment come back.
  \<^item> The lock: \<open>Workers\<close> shows that a request is a run of the steps of its worker, \<open>Worker_Properties\<close> that with
    one worker per master the steps exclude one another, and how they collide with several; \<open>Overbooking\<close>
    what two calls between two publications of a host promise.
  \<^item> The agent: \<open>Agent_Laws\<close> (one decision), \<open>Agent_Runs\<close> (a start, a stop), \<open>Agent_Cycle\<close> (a sync, the
    runners, the reasons for a start), \<open>Agent_Turns\<close> (runs of the loop, the runners and the writes of others,
    with their invariant); \<open>Agent_Properties\<close> in memory; \<open>Consul_Agent\<close> interprets the agent's laws for Consul
    and \<open>Consul_Agent_Properties\<close> has the properties there; \<open>State_File\<close> leads from the end of an agent to its
    next start.
  \<^item> The composition: \<open>Cluster_Properties\<close> leads from requests to a running task in memory,
    \<open>Consul_Agent_Properties\<close> from a request to a running task over Consul.
  \<^item> Outages: \<open>Outages\<close> interprets \<open>agent_store\<close> and \<open>master_backend\<close> for a Consul whose calls fail as they
    please, and \<open>Outage_Properties\<close> shows that agents and masters survive it.
  \<^item> Consul: \<open>Codec_Laws\<close> (round trips), \<open>Consul_Laws\<close> (the tasks as a map, what a query returns),
    \<open>Consul_Properties\<close>; \<open>Consul_Tasks\<close> interprets the laws the scheduler relies on for the tasks that can be
    stored, and \<open>Consul_Schedule\<close> carries calls, requests and garbage collections over to Consul, with the
    documents they may write; \<open>Consul_Notices\<close> follows a write to the events it makes and who hears them.
  \<^item> Processes: \<open>Process_Properties\<close> (starts, interrupts at every moment of a start, settings that were not
    given, and the hosts of the agents, from the command line to the store).
  \<^item> The rest: \<open>Tool_Properties\<close>.
  Several properties state what the code does where it plainly means something else; the theorems beside
  them without a number do so too.

  \<^bold>\<open>Choices.\<close>
  \<^item> The order in which a loop visits a map is an argument of type \<open>map_order\<close>, the results of \<open>rand.Intn\<close> are
    a stream; theorems hold for all of them.
  \<^item> An operation is a function from a state to a result and a state. A query replies \<open>Ok\<close>, \<open>Fail\<close> with an
    error, or \<open>Stops\<close> when it panics or waits for ever; a procedure ends with \<open>Returns\<close>, \<open>Panics\<close> or \<open>Hangs\<close>.
    The search for a port, which need not end, is a partial function whose value is \<open>None\<close> when it runs on;
    that it returns, or does not, is proved. No definition uses fuel.
  \<^item> Pointers to resources are values. With the store in memory the code hands out its own structs, so
    changes a caller makes before it puts a struct back show at once; no theorem depends on the figures of
    hosts in that store between two calls. Where sharing decides the behaviour it is modelled: schedulers
    under several names, monitors that outlive their table entry, lock objects.
  \<^item> A slice that is nil and an empty one are both the empty list. Texts are valid UTF-8, as \<open>encoding/json\<close>
    would alter others; documents are values of the type \<open>json\<close>, their textual syntax is left out.
  \<^item> A call of \<open>Schedule\<close>, a step of the master, a turn of the agent, of a runner or of a monitor is atomic;
    their interleavings are the sequences of such steps. Whether two calls of \<open>Schedule\<close> exclude one another is
    decided at a finer grain, in \<open>Workers\<close>: with one worker per master they do if the backend's locks exclude,
    which those in memory do not; with several workers per master they do not.

  \<^bold>\<open>Parameters.\<close> Code outside the repository is an argument: the machine that runs commands (\<open>'w system\<close>), the
  ports it can bind, its figures and its clock, HTTP and TCP probes, the client library of Consul (a record of
  calls; \<open>kv_store\<close> states the documented behaviour of its key-value store, and an association list keeps it;
  \<open>failing_store\<close> what is left of it when any call may fail; \<open>checks_apart\<close>: the checks of a service are changed
  by registering and deregistering that service only),
  the lock objects of that library (\<open>quiet_locks\<close>: they write nothing below the prefix of the application;
  \<open>exclusive_library\<close>: a key is taken only when nobody holds it, and given back only by the process that holds it;
  \<open>keeps_owners\<close>: other calls leave the holders alone; a library that keeps the last two is \<open>session_locks\<close>), the
  library that parses the command line (\<open>reads_flags\<close>: what a flag is worth that was not given or not
  declared), the outcome of reading a YAML file, the zone of a time, and the document an error is written as.

  A process is the list of the steps of its start, of which any number may be done when an interrupt comes.

  \<^bold>\<open>The laws of a backend.\<close> The locale \<open>task_backend\<close> speaks of the tasks a backend can keep (\<open>fine\<close>) and of the
  deployments that issue only such tasks (\<open>sane\<close>). In memory these are all; in Consul they are the tasks whose
  numbers fit their widths and whose map of ports is in the order of its keys, as it comes back from a
  document, and the deployments whose desired number fits. The agent's laws, \<open>agent_backend\<close>, extend it with
  the state that was written for a task and the state it is reported in, which over Consul takes the checks of
  its service into account; they too are interpreted for the store in memory and for Consul. \<open>agent_store\<close>
  and \<open>master_backend\<close> are the weaker laws under which the processes do not panic; whoever keeps
  \<open>agent_backend\<close> keeps \<open>agent_store\<close>.

  \<^bold>\<open>Not modelled.\<close> The entry point (main.go) and the assertions of tests (tools/testing.go); logging; the texts
  of the HTTP answers but for that of a poll; state files the program did not write; sessions of Consul that
  expire while a lock is held; checks that change while the agent looks at a task; the forced end of a process
  some seconds after an interrupt. The pauses between retries and the timers are left to the environment of
  the steps. A nil list of endpoints and an empty one, which a poll would write differently, are one.
\<close>

end
